(* ===== verification/Prelude.thy ===== *)
theory Prelude
  imports Main "HOL-Library.AList" "HOL-Library.Monad_Syntax" "HOL-Library.Word"
begin

section \<open>Prelude: shared types, containers and automation\<close>

text \<open>
  What every theory of the development shares: names for the machine types, the search
  functions of \<open>std::string\<close>, association lists that stand for \<open>std::unordered_map\<close>
  (in the container's iteration order), and ordered duplicate-free lists that stand for
  \<open>std::unordered_set\<close>.

  A value of type \<open>'a option\<close> that models a statement sequence is \<open>None\<close> when the run has
  undefined behaviour (an access through a dangling reference or iterator) or does not
  return; a theorem that it is \<open>Some\<close> excludes both.
\<close>

type_synonym c_int = "32 word"
type_synonym u32 = "32 word"
type_synonym fd = int
type_synonym i64 = int

abbreviation CR :: char where "CR \<equiv> CHR 0x0D"
abbreviation LF :: char where "LF \<equiv> CHR 0x0A"

subsection \<open>Searching a string\<close>

text \<open>\<open>find_from c s pos\<close> is \<open>s.find(c, pos)\<close>, with \<open>None\<close> for \<open>npos\<close>.\<close>

fun find_char :: "char \<Rightarrow> string \<Rightarrow> nat option" where
  "find_char c [] = None"
| "find_char c (x # xs) = (if x = c then Some 0 else map_option Suc (find_char c xs))"

definition find_from :: "char \<Rightarrow> string \<Rightarrow> nat \<Rightarrow> nat option" where
  "find_from c s pos = map_option (\<lambda>i. pos + i) (find_char c (drop pos s))"

definition substr :: "string \<Rightarrow> nat \<Rightarrow> nat \<Rightarrow> string" where
  "substr s pos n = take n (drop pos s)"

lemma find_char_None: "find_char c s = None \<longleftrightarrow> c \<notin> set s"
  by (induction s) auto

lemma find_char_Some:
  "find_char c s = Some i \<longleftrightarrow> i < length s \<and> s ! i = c \<and> c \<notin> set (take i s)"
proof (induction s arbitrary: i)
  case Nil
  then show ?case by simp
next
  case (Cons x xs)
  then show ?case by (cases i) (auto simp: Cons.IH)
qed

lemma find_char_prefix [simp]: "c \<notin> set xs \<Longrightarrow> find_char c (xs @ c # ys) = Some (length xs)"
  by (induction xs) auto

lemma find_char_bound: "find_char c s = Some i \<Longrightarrow> i < length s"
  by (simp add: find_char_Some)

lemma find_char_split:
  assumes "find_char c s = Some i"
  shows "s = take i s @ c # drop (Suc i) s" and "c \<notin> set (take i s)"
  using assms by (auto simp: find_char_Some id_take_nth_drop)

subsection \<open>Lists as sets\<close>

text \<open>
  \<open>std::unordered_set::insert\<close> leaves the set alone when the value is there; where a new
  value lands in the iteration order is not specified, here it is the end.
\<close>

definition set_insert :: "'a \<Rightarrow> 'a list \<Rightarrow> 'a list" where
  "set_insert x xs = (if x \<in> set xs then xs else xs @ [x])"

lemma set_set_insert [simp]: "set (set_insert x xs) = insert x (set xs)"
  by (auto simp: set_insert_def)

lemma distinct_set_insert [simp]: "distinct xs \<Longrightarrow> distinct (set_insert x xs)"
  by (simp add: set_insert_def)

lemma set_insert_not_Nil [simp]: "set_insert x xs \<noteq> []"
  by (auto simp: set_insert_def)

subsection \<open>Association lists as maps\<close>

text \<open>
  \<open>map_put\<close> overwrites the value of a key in place or appends a new entry; \<open>map_erase\<close>
  drops the entry. The keys stay distinct under both.
\<close>

definition map_put :: "'k \<Rightarrow> 'v \<Rightarrow> ('k \<times> 'v) list \<Rightarrow> ('k \<times> 'v) list" where
  "map_put = AList.update"

definition map_erase :: "'k \<Rightarrow> ('k \<times> 'v) list \<Rightarrow> ('k \<times> 'v) list" where
  "map_erase = AList.delete"

definition keys :: "('k \<times> 'v) list \<Rightarrow> 'k list" where
  "keys m = map fst m"

lemma map_of_put [simp]: "map_of (map_put k v m) = (map_of m)(k \<mapsto> v)"
  by (simp add: map_put_def update_conv')

lemma map_of_erase [simp]: "map_of (map_erase k m) = (map_of m)(k := None)"
  by (simp add: map_erase_def delete_conv')

lemma keys_Nil [simp]: "keys [] = []"
  and keys_Cons [simp]: "keys (p # m) = fst p # keys m"
  by (simp_all add: keys_def)

lemma set_keys: "set (keys m) = dom (map_of m)"
  by (simp add: keys_def dom_map_of_conv_image_fst)

lemma distinct_keys_put [simp]: "distinct (keys m) \<Longrightarrow> distinct (keys (map_put k v m))"
  by (simp add: keys_def map_put_def distinct_update)

lemma distinct_keys_erase [simp]: "distinct (keys m) \<Longrightarrow> distinct (keys (map_erase k m))"
  by (simp add: keys_def map_erase_def distinct_delete)

lemma keys_put_mem [simp]: "k \<in> set (keys m) \<Longrightarrow> keys (map_put k v m) = keys m"
  by (induction m) (auto simp: map_put_def)

lemma keys_put_new: "k \<notin> set (keys m) \<Longrightarrow> map_put k v m = m @ [(k, v)]"
  by (induction m) (auto simp: map_put_def)

lemma keys_erase: "keys (map_erase k m) = filter (\<lambda>x. x \<noteq> k) (keys m)"
  by (simp add: keys_def map_erase_def delete_keys removeAll_filter_not_eq eq_commute)

lemma mem_keys_iff: "k \<in> set (keys m) \<longleftrightarrow> (\<exists>v. map_of m k = Some v)"
  by (auto simp: set_keys)

lemma length_keys [simp]: "length (keys m) = length m"
  by (simp add: keys_def)

lemma map_of_in_keys [dest]: "map_of m k = Some v \<Longrightarrow> k \<in> set (keys m)"
  by (auto simp: mem_keys_iff)

end
