(* ===== verification/Std_Lib.thy ===== *)
theory Std_Lib
  imports Prelude
begin

section \<open>The C++ standard library functions the program relies on\<close>

text \<open>
  \<open>std::isspace\<close> in the C locale, \<open>std::to_string\<close> on integers and \<open>std::stoll\<close> in base
  ten. \<open>stoll\<close> skips leading white space, reads an optional sign and the longest run of
  digits, and reports how many characters it consumed; it throws \<open>std::invalid_argument\<close>
  when there is no digit and \<open>std::out_of_range\<close> when the value does not fit 64 bits.
\<close>

definition isspace :: "char \<Rightarrow> bool" where
  "isspace c \<longleftrightarrow> (let n = (of_char c :: nat) in n = 32 \<or> (9 \<le> n \<and> n \<le> 13))"

definition is_digit :: "char \<Rightarrow> bool" where
  "is_digit c \<longleftrightarrow> (let n = (of_char c :: nat) in 48 \<le> n \<and> n \<le> 57)"

definition digit_char :: "nat \<Rightarrow> char" where
  "digit_char n = char_of (48 + n)"

definition digit_val :: "char \<Rightarrow> nat" where
  "digit_val c = of_char c - 48"

fun show_nat :: "nat \<Rightarrow> string" where
  "show_nat n = (if n < 10 then [digit_char n] else show_nat (n div 10) @ [digit_char (n mod 10)])"

declare show_nat.simps [simp del]

definition to_string :: "int \<Rightarrow> string" where
  "to_string i = (if i < 0 then CHR ''-'' # show_nat (nat (- i)) else show_nat (nat i))"

definition read_nat :: "string \<Rightarrow> nat" where
  "read_nat ds = foldl (\<lambda>a d. 10 * a + digit_val d) 0 ds"

datatype stoll_error = invalid_argument | out_of_range

definition i64_min :: int where "i64_min = - (2 ^ 63)"
definition i64_max :: int where "i64_max = 2 ^ 63 - 1"

text \<open>The value and the number of characters consumed.\<close>

definition stoll :: "string \<Rightarrow> stoll_error + (int \<times> nat)" where
  "stoll s =
     (let ws = takeWhile isspace s;
          s1 = dropWhile isspace s;
          sign = (case s1 of c # _ \<Rightarrow> if c = CHR ''-'' \<or> c = CHR ''+'' then [c] else [] | [] \<Rightarrow> []);
          s2 = drop (length sign) s1;
          ds = takeWhile is_digit s2;
          v = (if sign = ''-'' then - int (read_nat ds) else int (read_nat ds))
      in if ds = [] then Inl invalid_argument
         else if v < i64_min \<or> i64_max < v then Inl out_of_range
         else Inr (v, length ws + length sign + length ds))"

subsection \<open>Digits\<close>

lemma of_char_digit_char [simp]: "n < 10 \<Longrightarrow> of_char (digit_char n) = (48 + n :: nat)"
  by (simp add: digit_char_def)

lemma is_digit_digit_char [simp]: "n < 10 \<Longrightarrow> is_digit (digit_char n)"
  by (simp add: is_digit_def)

lemma digit_val_digit_char [simp]: "n < 10 \<Longrightarrow> digit_val (digit_char n) = n"
  by (simp add: digit_val_def)

lemma is_digit_not:
  "is_digit c \<Longrightarrow> \<not> isspace c \<and> c \<noteq> CHR ''-'' \<and> c \<noteq> CHR ''+'' \<and> c \<noteq> CR \<and> c \<noteq> LF \<and> c \<noteq> CHR '' ''"
  by (auto simp: is_digit_def isspace_def Let_def)

lemma show_nat_digits: "\<forall>c \<in> set (show_nat n). is_digit c"
proof (induction n rule: show_nat.induct)
  case (1 n)
  then show ?case by (subst show_nat.simps) auto
qed

lemma show_nat_not_Nil [simp]: "show_nat n \<noteq> []"
  by (subst show_nat.simps) simp

lemma read_nat_append [simp]: "read_nat (xs @ [d]) = 10 * read_nat xs + digit_val d"
  by (simp add: read_nat_def)

lemma read_show_nat [simp]: "read_nat (show_nat n) = n"
proof (induction n rule: show_nat.induct)
  case (1 n)
  show ?case
  proof (cases "n < 10")
    case True
    then show ?thesis by (subst show_nat.simps) (simp add: read_nat_def)
  next
    case False
    with 1 show ?thesis by (subst show_nat.simps) simp
  qed
qed

lemma show_nat_hd_digit: "is_digit (hd (show_nat n))"
  using show_nat_digits[of n] by (cases "show_nat n") auto

lemma takeWhile_show_nat [simp]: "takeWhile is_digit (show_nat n) = show_nat n"
  using show_nat_digits[of n] by (simp add: takeWhile_eq_all_conv)

subsection \<open>Printing and parsing a non-negative integer\<close>

lemma stoll_show_nat:
  assumes "int n \<le> i64_max"
  shows "stoll (show_nat n) = Inr (int n, length (show_nat n))"
proof -
  obtain c cs where s: "show_nat n = c # cs" and c: "is_digit c"
    using show_nat_hd_digit[of n] by (cases "show_nat n") auto
  have ns: "\<not> isspace c" and nm: "c \<noteq> CHR ''-''" "c \<noteq> CHR ''+''" using is_digit_not[OF c] by auto
  have tw: "takeWhile is_digit (c # cs) = c # cs" using takeWhile_show_nat[of n] s by simp
  have rd: "read_nat (c # cs) = n" using read_show_nat[of n] s by simp
  have lo: "\<not> int n < i64_min" by (simp add: i64_min_def)
  show ?thesis
    unfolding stoll_def s using ns nm tw rd lo assms by (simp add: Let_def)
qed

lemma stoll_to_string:
  assumes "0 \<le> i" and "i \<le> i64_max"
  shows "stoll (to_string i) = Inr (i, length (to_string i))"
  using stoll_show_nat[of "nat i"] assms by (simp add: to_string_def)

lemma stoll_range:
  assumes "stoll s = Inr (v, p)"
  shows "i64_min \<le> v \<and> v \<le> i64_max \<and> p \<le> length s"
proof -
  define s1 where "s1 = dropWhile isspace s"
  define sign where "sign = (case s1 of c # _ \<Rightarrow> if c = CHR ''-'' \<or> c = CHR ''+'' then [c] else [] | [] \<Rightarrow> [])"
  define ds where "ds = takeWhile is_digit (drop (length sign) s1)"
  have sl: "length sign \<le> length s1" unfolding sign_def by (auto split: list.splits)
  have "length ds \<le> length s1 - length sign"
    unfolding ds_def using length_takeWhile_le[of is_digit "drop (length sign) s1"] by simp
  moreover have "length (takeWhile isspace s) + length s1 = length s"
    unfolding s1_def by (metis length_append takeWhile_dropWhile_id)
  ultimately have len: "length (takeWhile isspace s) + length sign + length ds \<le> length s"
    using sl by simp
  from assms show ?thesis
    unfolding stoll_def Let_def s1_def[symmetric] sign_def[symmetric] ds_def[symmetric]
    using len by (auto split: if_splits)
qed

lemma to_string_nonneg_clean:
  assumes "0 \<le> i"
  shows "to_string i \<noteq> [] \<and> CR \<notin> set (to_string i) \<and> LF \<notin> set (to_string i) \<and> CHR '' '' \<notin> set (to_string i)"
  using assms show_nat_digits[of "nat i"] is_digit_not by (auto simp: to_string_def)

end
