(* ===== verification/Error_Codes.thy ===== *)
theory Error_Codes
  imports Std_Lib
begin

section \<open>Error codes\<close>

text \<open>
  \<open>core/error_code\<close>, \<open>net/tls_error\<close> and the error enumerations of the codec, the
  configuration loader and the database connector. An \<open>error_code\<close> is a domain and a 32-bit
  \<open>int\<close>; a TLS error packs its kind and an OpenSSL reason into one \<open>int\<close>. The texts that come
  from the C library and from OpenSSL (\<open>strerror\<close>, \<open>gai_strerror\<close>,
  \<open>X509_verify_cert_error_string\<close>, \<open>ERR_reason_error_string\<close>) are parameters.
\<close>

unbundle bit_operations_syntax

datatype error_domain =
  errno_domain | gai_domain | decode_domain | db_domain | config_domain | tls_domain

record error_code =
  domain :: error_domain
  code :: c_int

definition from_errno :: "c_int \<Rightarrow> error_code" where
  "from_errno ec = \<lparr>domain = errno_domain, code = ec\<rparr>"

definition from_gai :: "c_int \<Rightarrow> error_code" where
  "from_gai ec = \<lparr>domain = gai_domain, code = ec\<rparr>"

subsection \<open>The errno values the code names (Linux)\<close>

definition ENOENT :: c_int where "ENOENT = 2"
definition EINTR :: c_int where "EINTR = 4"
definition EIO :: c_int where "EIO = 5"
definition EBADF :: c_int where "EBADF = 9"
definition EAGAIN :: c_int where "EAGAIN = 11"
definition EEXIST :: c_int where "EEXIST = 17"
definition EINVAL :: c_int where "EINVAL = 22"
definition EPIPE :: c_int where "EPIPE = 32"
definition ECONNRESET :: c_int where "ECONNRESET = 104"
definition ENOTCONN :: c_int where "ENOTCONN = 107"

lemmas errno_defs =
  ENOENT_def EINTR_def EIO_def EBADF_def EAGAIN_def EEXIST_def EINVAL_def EPIPE_def
  ECONNRESET_def ENOTCONN_def

subsection \<open>Decode errors\<close>

datatype decode_error = empty_line | invalid_command | unexpected_argument

fun decode_error_value :: "decode_error \<Rightarrow> c_int" where
  "decode_error_value empty_line = 1"
| "decode_error_value invalid_command = 2"
| "decode_error_value unexpected_argument = 3"

definition from_decode :: "decode_error \<Rightarrow> error_code" where
  "from_decode ec = \<lparr>domain = decode_domain, code = decode_error_value ec\<rparr>"

definition decode_strerror :: "c_int \<Rightarrow> string" where
  "decode_strerror c =
     (if c = decode_error_value empty_line then ''empty_line''
      else if c = decode_error_value invalid_command then ''invalid_command''
      else if c = decode_error_value unexpected_argument then ''unexpected_argument''
      else ''unknown_decode_error'')"

subsection \<open>Configuration errors\<close>

datatype config_error =
  file_not_found | malformed_line | empty_key | duplicate_key | read_failed | missing_required_key

fun config_error_value :: "config_error \<Rightarrow> c_int" where
  "config_error_value file_not_found = 1"
| "config_error_value malformed_line = 2"
| "config_error_value empty_key = 3"
| "config_error_value duplicate_key = 4"
| "config_error_value read_failed = 5"
| "config_error_value missing_required_key = 6"

definition from_config :: "config_error \<Rightarrow> error_code" where
  "from_config ec = \<lparr>domain = config_domain, code = config_error_value ec\<rparr>"

definition config_strerror :: "c_int \<Rightarrow> string" where
  "config_strerror c =
     (if c = config_error_value file_not_found then ''config file not found''
      else if c = config_error_value malformed_line then ''config malformed line (expected key=value)''
      else if c = config_error_value empty_key then ''config key is empty''
      else if c = config_error_value duplicate_key then ''config duplicate key''
      else if c = config_error_value read_failed then ''config read failed''
      else if c = config_error_value missing_required_key then ''config missing required key''
      else ''unknown config error'')"

subsection \<open>Database errors\<close>

datatype db_error =
  unknown_exception | missing_password_env | broken_connection | sql_error | transaction_rollback
  | serialization_failure | deadlock_detected | in_doubt_error | permission_denied
  | unique_violation | foreign_key_violation | not_null_violation | check_violation

fun db_error_value :: "db_error \<Rightarrow> c_int" where
  "db_error_value unknown_exception = 1"
| "db_error_value missing_password_env = 2"
| "db_error_value broken_connection = 3"
| "db_error_value sql_error = 4"
| "db_error_value transaction_rollback = 5"
| "db_error_value serialization_failure = 6"
| "db_error_value deadlock_detected = 7"
| "db_error_value in_doubt_error = 8"
| "db_error_value permission_denied = 9"
| "db_error_value unique_violation = 10"
| "db_error_value foreign_key_violation = 11"
| "db_error_value not_null_violation = 12"
| "db_error_value check_violation = 13"

definition from_db :: "db_error \<Rightarrow> error_code" where
  "from_db ec = \<lparr>domain = db_domain, code = db_error_value ec\<rparr>"

definition db_strerror :: "c_int \<Rightarrow> string" where
  "db_strerror c =
     (if c = db_error_value unknown_exception then ''unknown_db_exception''
      else if c = db_error_value missing_password_env then ''missing_password_env''
      else if c = db_error_value broken_connection then ''broken_connection''
      else if c = db_error_value sql_error then ''sql_error''
      else if c = db_error_value transaction_rollback then ''transaction_rollback''
      else if c = db_error_value serialization_failure then ''serialization_failure''
      else if c = db_error_value deadlock_detected then ''deadlock_detected''
      else if c = db_error_value in_doubt_error then ''in_doubt_error''
      else if c = db_error_value permission_denied then ''permission_denied''
      else if c = db_error_value unique_violation then ''unique_violation''
      else if c = db_error_value foreign_key_violation then ''foreign_key_violation''
      else if c = db_error_value not_null_violation then ''not_null_violation''
      else if c = db_error_value check_violation then ''check_violation''
      else ''unknown_db_error'')"

subsection \<open>TLS errors\<close>

datatype tls_error =
  tls_unknown | openssl_init_failed | min_protocol_set_failed | ctx_create_failed
  | cert_chain_load_failed | private_key_load_failed | private_key_check_failed
  | default_verify_paths_failed | ca_load_failed | set_fd_failed | set_sni_failed
  | set_host_failed | handshake_failed | ssl_library_error | alert_received | protocol_error
  | shutdown_failed | verify_no_peer_cert | verify_failed | verify_hostname_mismatch
  | verify_cert_expired | verify_cert_not_yet_valid

definition tls_errors :: "tls_error list" where
  "tls_errors =
     [tls_unknown, openssl_init_failed, min_protocol_set_failed, ctx_create_failed,
      cert_chain_load_failed, private_key_load_failed, private_key_check_failed,
      default_verify_paths_failed, ca_load_failed, set_fd_failed, set_sni_failed,
      set_host_failed, handshake_failed, ssl_library_error, alert_received, protocol_error,
      shutdown_failed, verify_no_peer_cert, verify_failed, verify_hostname_mismatch,
      verify_cert_expired, verify_cert_not_yet_valid]"

text \<open>The enumerators count up from 1.\<close>

fun tls_error_value :: "tls_error \<Rightarrow> c_int" where
  "tls_error_value tls_unknown = 1"
| "tls_error_value openssl_init_failed = 2"
| "tls_error_value min_protocol_set_failed = 3"
| "tls_error_value ctx_create_failed = 4"
| "tls_error_value cert_chain_load_failed = 5"
| "tls_error_value private_key_load_failed = 6"
| "tls_error_value private_key_check_failed = 7"
| "tls_error_value default_verify_paths_failed = 8"
| "tls_error_value ca_load_failed = 9"
| "tls_error_value set_fd_failed = 10"
| "tls_error_value set_sni_failed = 11"
| "tls_error_value set_host_failed = 12"
| "tls_error_value handshake_failed = 13"
| "tls_error_value ssl_library_error = 14"
| "tls_error_value alert_received = 15"
| "tls_error_value protocol_error = 16"
| "tls_error_value shutdown_failed = 17"
| "tls_error_value verify_no_peer_cert = 18"
| "tls_error_value verify_failed = 19"
| "tls_error_value verify_hostname_mismatch = 20"
| "tls_error_value verify_cert_expired = 21"
| "tls_error_value verify_cert_not_yet_valid = 22"

text \<open>
  The enumerator with a given value; \<open>None\<close> for a value no enumerator has, which the C++ type
  can also hold.
\<close>

definition tls_error_of :: "c_int \<Rightarrow> tls_error option" where
  "tls_error_of v = List.find (\<lambda>k. tls_error_value k = v) tls_errors"

definition tls_kind_shift :: nat where "tls_kind_shift = 16"
definition tls_reason_mask :: c_int where "tls_reason_mask = 0xFFFF"

definition make_code :: "tls_error \<Rightarrow> c_int \<Rightarrow> c_int" where
  "make_code kind reason =
     push_bit tls_kind_shift (tls_error_value kind) OR (reason AND tls_reason_mask)"

definition kind_of :: "c_int \<Rightarrow> tls_error option" where
  "kind_of c =
     (if sint c \<le> 0 then Some tls_unknown
      else tls_error_of (signed_drop_bit tls_kind_shift c AND tls_reason_mask))"

definition reason_of :: "c_int \<Rightarrow> c_int" where
  "reason_of c = c AND tls_reason_mask"

definition from_tls_code :: "c_int \<Rightarrow> error_code" where
  "from_tls_code ec = \<lparr>domain = tls_domain, code = ec\<rparr>"

definition from_tls :: "tls_error \<Rightarrow> error_code" where
  "from_tls ec = from_tls_code (make_code ec 0)"

lemmas error_code_defs =
  from_errno_def from_gai_def from_decode_def from_config_def from_db_def from_tls_def
  from_tls_code_def

fun kind_name :: "tls_error \<Rightarrow> string" where
  "kind_name tls_unknown = ''tls.unknown''"
| "kind_name openssl_init_failed = ''tls.openssl_init_failed''"
| "kind_name min_protocol_set_failed = ''tls.min_protocol_set_failed''"
| "kind_name ctx_create_failed = ''tls.ctx_create_failed''"
| "kind_name cert_chain_load_failed = ''tls.cert_chain_load_failed''"
| "kind_name private_key_load_failed = ''tls.private_key_load_failed''"
| "kind_name private_key_check_failed = ''tls.private_key_check_failed''"
| "kind_name default_verify_paths_failed = ''tls.default_verify_paths_failed''"
| "kind_name ca_load_failed = ''tls.ca_load_failed''"
| "kind_name set_fd_failed = ''tls.set_fd_failed''"
| "kind_name set_sni_failed = ''tls.set_sni_failed''"
| "kind_name set_host_failed = ''tls.set_host_failed''"
| "kind_name handshake_failed = ''tls.handshake_failed''"
| "kind_name ssl_library_error = ''tls.ssl_library_error''"
| "kind_name alert_received = ''tls.alert_received''"
| "kind_name protocol_error = ''tls.protocol_error''"
| "kind_name shutdown_failed = ''tls.shutdown_failed''"
| "kind_name verify_no_peer_cert = ''tls.verify_no_peer_cert''"
| "kind_name verify_failed = ''tls.verify_failed''"
| "kind_name verify_hostname_mismatch = ''tls.verify_hostname_mismatch''"
| "kind_name verify_cert_expired = ''tls.verify_cert_expired''"
| "kind_name verify_cert_not_yet_valid = ''tls.verify_cert_not_yet_valid''"

definition kind_to_string :: "tls_error option \<Rightarrow> string" where
  "kind_to_string k = (case k of Some e \<Rightarrow> kind_name e | None \<Rightarrow> ''tls.unknown'')"

text \<open>The texts of the C library and of OpenSSL; \<open>None\<close> is a null pointer.\<close>

record message_texts =
  strerror :: "c_int \<Rightarrow> string"
  gai_strerror :: "c_int \<Rightarrow> string"
  x509_text :: "c_int \<Rightarrow> string option"
  err_reason_text :: "c_int \<Rightarrow> string option"

definition is_verify_kind :: "tls_error option \<Rightarrow> bool" where
  "is_verify_kind k \<longleftrightarrow>
     k \<in> {Some verify_failed, Some verify_hostname_mismatch, Some verify_cert_expired,
          Some verify_cert_not_yet_valid, Some verify_no_peer_cert}"

definition reason_to_string :: "message_texts \<Rightarrow> tls_error option \<Rightarrow> c_int \<Rightarrow> string" where
  "reason_to_string M kind reason =
     (if reason = 0 then []
      else
        let from_openssl =
              (case err_reason_text M reason of Some t \<Rightarrow> if t \<noteq> [] then t else [] | None \<Rightarrow> [])
        in if is_verify_kind kind
           then (case x509_text M reason of
                   Some t \<Rightarrow> if t \<noteq> [] then t else from_openssl
                 | None \<Rightarrow> from_openssl)
           else from_openssl)"

definition tls_strerror :: "message_texts \<Rightarrow> c_int \<Rightarrow> string" where
  "tls_strerror M c =
     (let kind = kind_of c; reason = reason_of c; out = kind_to_string kind;
          reason_str = reason_to_string M kind reason
      in if reason_str \<noteq> [] then out @ '' (reason: '' @ reason_str @ '')'' else out)"

definition error_to_string :: "message_texts \<Rightarrow> error_code \<Rightarrow> string" where
  "error_to_string M ec =
     (case domain ec of
        errno_domain \<Rightarrow> strerror M (code ec)
      | gai_domain \<Rightarrow> gai_strerror M (code ec)
      | decode_domain \<Rightarrow> decode_strerror (code ec)
      | db_domain \<Rightarrow> db_strerror (code ec)
      | config_domain \<Rightarrow> config_strerror (code ec)
      | tls_domain \<Rightarrow> tls_strerror M (code ec))"

subsection \<open>The packing of a TLS code is lossless\<close>

lemma tls_error_of_value [simp]: "tls_error_of (tls_error_value k) = Some k"
  by (cases k) (simp_all add: tls_error_of_def tls_errors_def)

lemma tls_error_value_bounds: "1 \<le> unat (tls_error_value k) \<and> unat (tls_error_value k) \<le> 22"
  by (cases k) simp_all

lemma mask16: "tls_reason_mask = mask 16"
  by (simp add: tls_reason_mask_def mask_eq_exp_minus_1)


lemma unat_make_code:
  "unat (make_code k r) = unat (tls_error_value k) * 65536 + unat r mod 65536"
proof -
  let ?v = "tls_error_value k"
  have "make_code k r = push_bit 16 ?v OR take_bit 16 r"
    by (simp add: make_code_def mask16 tls_kind_shift_def take_bit_eq_mask)
  also have "\<dots> = push_bit 16 ?v + take_bit 16 r"
    by (rule disjunctive_add[symmetric]) (auto simp: bit_simps)
  finally have e: "make_code k r = push_bit 16 ?v + take_bit 16 r" .
  have p: "unat (push_bit 16 ?v) = unat ?v * 65536"
    by (cases k) (simp_all add: push_bit_eq_mult)
  have t: "unat (take_bit 16 r) = unat r mod 65536"
    by (simp add: unsigned_take_bit_eq) (simp add: take_bit_eq_mod)
  have "unat ?v \<le> 22" "unat r mod 65536 < 65536" using tls_error_value_bounds by auto
  then show ?thesis unfolding e by (simp add: unat_word_ariths p t)
qed

lemma kind_of_make_code [simp]: "kind_of (make_code k r) = Some k"
proof -
  let ?c = "make_code k r"
  have b: "unat (tls_error_value k) \<le> 22" "1 \<le> unat (tls_error_value k)" "unat r mod 65536 < 65536" using tls_error_value_bounds by auto
  have u: "65536 \<le> unat ?c \<and> unat ?c < 2^31" unfolding unat_make_code using b by auto
  have "int (unat ?c) < int (2 ^ 31)" using u by (simp only: of_nat_less_iff)
  then have "uint ?c < 2 ^ 31" by simp
  then have s: "sint ?c = uint ?c"
    unfolding sint_uint by (intro signed_take_bit_int_eq_self) (simp_all add: order.trans[OF _ uint_ge_0])
  have d: "signed_drop_bit 16 ?c AND mask 16 = drop_bit 16 ?c AND mask 16" 
    by (rule bit_word_eqI) (auto simp: bit_simps)
  have "unat (drop_bit 16 ?c AND mask 16) = unat (tls_error_value k)"
    unfolding take_bit_eq_mask[symmetric] unsigned_take_bit_eq unsigned_drop_bit_eq 
    using b by (simp add: unat_make_code drop_bit_eq_div take_bit_eq_mod)
  then have m: "signed_drop_bit tls_kind_shift ?c AND tls_reason_mask = tls_error_value k"
    by (simp add: d mask16 tls_kind_shift_def unsigned_word_eqI)
  have "make_code k r \<noteq> 0" using u by auto
  then have "\<not> uint ?c \<le> 0" by (simp add: uint_0_iff antisym_conv)
  then show ?thesis by (simp add: kind_of_def m s)
qed

lemma reason_of_make_code [simp]: "reason_of (make_code k r) = r AND tls_reason_mask"
proof -
  have "unat (reason_of (make_code k r)) = unat (r AND tls_reason_mask)"
    unfolding reason_of_def mask16 take_bit_eq_mask[symmetric] unsigned_take_bit_eq
    by (simp add: unat_make_code take_bit_eq_mod)
  then show ?thesis by (rule unsigned_word_eqI)
qed

text \<open>
  A TLS error code carries its kind and its reason without loss: for every error kind and
  every OpenSSL reason, the packed 32-bit code decodes to the same kind (it is positive, so the
  guard of \<open>kind_of\<close> never misreads it) and to the low 16 bits of the reason.
\<close>

theorem tls_code_roundtrip:
  "kind_of (make_code k r) = Some k \<and> reason_of (make_code k r) = r AND 0xFFFF"
  using kind_of_make_code[of k r] reason_of_make_code[of k r] by (simp add: tls_reason_mask_def)

end
