(* ===== verification/Command_Codec.thy ===== *)
theory Command_Codec
  imports Error_Codes
begin

section \<open>The wire protocol: encoding and decoding commands\<close>

text \<open>
  \<open>protocol/command_codec\<close>. A command is one line: its name and its fields separated by
  carriage returns, ended by a line feed. \<open>decode_line\<close> is the source's index loop; it is shown
  to compute the non-empty fields of the line (\<open>fields_of\<close>), and \<open>decode\<close> is characterised by
  the fields it accepts. Both directions of the round trip follow.
\<close>

datatype command =
  cmd_say string string
  | cmd_nick string
  | cmd_response string
  | cmd_login string string
  | cmd_register string string
  | cmd_friend_request string
  | cmd_friend_accept string
  | cmd_friend_reject string
  | cmd_friend_remove string
  | cmd_list_friend
  | cmd_list_friend_request
  | cmd_create_room string
  | cmd_delete_room string
  | cmd_invite_room string string
  | cmd_leave_room string
  | cmd_list_room
  | cmd_history string string

record decode_info =
  cmd :: string
  args :: "string list"

definition erase_delimeter :: "string \<Rightarrow> string" where
  "erase_delimeter line = (if line \<noteq> [] \<and> last line = LF then butlast line else line)"

text \<open>What the loop does with a token: nothing when it is empty, else the first one is the command.\<close>

definition add_token :: "string \<Rightarrow> decode_info \<Rightarrow> decode_info" where
  "add_token token info =
     (if token = [] then info
      else if cmd info = [] then info\<lparr>cmd := token\<rparr>
      else info\<lparr>args := args info @ [token]\<rparr>)"

function decode_loop :: "string \<Rightarrow> nat \<Rightarrow> decode_info \<Rightarrow> decode_info" where
  "decode_loop line start info =
     (if start < length line then
        (case find_from CR line start of
           None \<Rightarrow> add_token (drop start line) info
         | Some pos \<Rightarrow>
             let token = substr line start (pos - start);
                 info' = add_token token info;
                 start' = pos + 1;
                 start'' = (if start' < length line \<and> line ! start' = LF then start' + 1 else start')
             in decode_loop line start'' info')
      else info)"
  by pat_completeness auto
termination
  by (relation "measure (\<lambda>(line, start, info). length line - start)")
     (auto simp: find_from_def dest!: find_char_bound)

declare decode_loop.simps [simp del]

definition decode_line :: "string \<Rightarrow> decode_info" where
  "decode_line line = decode_loop line 0 \<lparr>cmd = [], args = []\<rparr>"

fun encode :: "command \<Rightarrow> string" where
  "encode (cmd_nick nick) = ''nick'' @ [CR] @ nick @ [LF]"
| "encode (cmd_say room text) = ''say'' @ [CR] @ room @ [CR] @ text @ [LF]"
| "encode (cmd_response text) = ''response'' @ [CR] @ text @ [LF]"
| "encode (cmd_login uid pw) = ''login'' @ [CR] @ uid @ [CR] @ pw @ [LF]"
| "encode (cmd_register uid pw) = ''register'' @ [CR] @ uid @ [CR] @ pw @ [LF]"
| "encode (cmd_friend_request u) = ''friend_request'' @ [CR] @ u @ [LF]"
| "encode (cmd_friend_accept u) = ''friend_accept'' @ [CR] @ u @ [LF]"
| "encode (cmd_friend_reject u) = ''friend_reject'' @ [CR] @ u @ [LF]"
| "encode (cmd_friend_remove u) = ''friend_remove'' @ [CR] @ u @ [LF]"
| "encode cmd_list_friend = ''list_friend'' @ [LF]"
| "encode cmd_list_friend_request = ''list_friend_request'' @ [LF]"
| "encode (cmd_create_room name) = ''create_room'' @ [CR] @ name @ [LF]"
| "encode (cmd_delete_room room) = ''delete_room'' @ [CR] @ room @ [LF]"
| "encode (cmd_invite_room room u) = ''invite_room'' @ [CR] @ room @ [CR] @ u @ [LF]"
| "encode (cmd_leave_room room) = ''leave_room'' @ [CR] @ room @ [LF]"
| "encode cmd_list_room = ''list_room'' @ [LF]"
| "encode (cmd_history room limit) = ''history'' @ [CR] @ room @ [CR] @ limit @ [LF]"

definition decode :: "string \<Rightarrow> error_code + command" where
  "decode line0 =
     (let line = erase_delimeter line0 in
      if line = [] then Inl (from_decode empty_line)
      else
        let info = decode_line line; a = args info in
        if cmd info = [] then Inl (from_decode empty_line)
        else if cmd info = ''say'' then
          (if length a \<noteq> 2 then Inl (from_decode unexpected_argument) else Inr (cmd_say (a ! 0) (a ! 1)))
        else if cmd info = ''nick'' then
          (if length a \<noteq> 1 then Inl (from_decode unexpected_argument) else Inr (cmd_nick (a ! 0)))
        else if cmd info = ''response'' then
          (if length a \<noteq> 1 then Inl (from_decode unexpected_argument) else Inr (cmd_response (a ! 0)))
        else if cmd info = ''login'' then
          (if length a \<noteq> 2 then Inl (from_decode unexpected_argument) else Inr (cmd_login (a ! 0) (a ! 1)))
        else if cmd info = ''register'' then
          (if length a \<noteq> 2 then Inl (from_decode unexpected_argument) else Inr (cmd_register (a ! 0) (a ! 1)))
        else if cmd info = ''friend_request'' then
          (if length a \<noteq> 1 then Inl (from_decode unexpected_argument) else Inr (cmd_friend_request (a ! 0)))
        else if cmd info = ''friend_accept'' then
          (if length a \<noteq> 1 then Inl (from_decode unexpected_argument) else Inr (cmd_friend_accept (a ! 0)))
        else if cmd info = ''friend_reject'' then
          (if length a \<noteq> 1 then Inl (from_decode unexpected_argument) else Inr (cmd_friend_reject (a ! 0)))
        else if cmd info = ''friend_remove'' then
          (if length a \<noteq> 1 then Inl (from_decode unexpected_argument) else Inr (cmd_friend_remove (a ! 0)))
        else if cmd info = ''list_friend'' then
          (if a \<noteq> [] then Inl (from_decode unexpected_argument) else Inr cmd_list_friend)
        else if cmd info = ''list_friend_request'' then
          (if a \<noteq> [] then Inl (from_decode unexpected_argument) else Inr cmd_list_friend_request)
        else if cmd info = ''create_room'' then
          (if length a \<noteq> 1 then Inl (from_decode unexpected_argument) else Inr (cmd_create_room (a ! 0)))
        else if cmd info = ''delete_room'' then
          (if length a \<noteq> 1 then Inl (from_decode unexpected_argument) else Inr (cmd_delete_room (a ! 0)))
        else if cmd info = ''invite_room'' then
          (if length a \<noteq> 2 then Inl (from_decode unexpected_argument) else Inr (cmd_invite_room (a ! 0) (a ! 1)))
        else if cmd info = ''leave_room'' then
          (if length a \<noteq> 1 then Inl (from_decode unexpected_argument) else Inr (cmd_leave_room (a ! 0)))
        else if cmd info = ''list_room'' then
          (if a \<noteq> [] then Inl (from_decode unexpected_argument) else Inr cmd_list_room)
        else if cmd info = ''history'' then
          (if length a \<noteq> 2 then Inl (from_decode unexpected_argument) else Inr (cmd_history (a ! 0) (a ! 1)))
        else Inl (from_decode invalid_command))"

subsection \<open>The index loop computes the fields of the line\<close>

definition skip_lf :: "string \<Rightarrow> string" where
  "skip_lf s = (case s of c # cs \<Rightarrow> if c = LF then cs else s | [] \<Rightarrow> [])"

lemma length_skip_lf: "length (skip_lf s) \<le> length s"
  by (simp add: skip_lf_def split: list.splits)

function split_fields :: "string \<Rightarrow> string list" where
  "split_fields s =
     (case find_char CR s of
        None \<Rightarrow> [s]
      | Some i \<Rightarrow> take i s # split_fields (skip_lf (drop (Suc i) s)))"
  by pat_completeness auto
termination
proof (relation "measure length")
  fix s i assume "find_char CR s = Some i"
  then show "(skip_lf (drop (Suc i) s), s) \<in> measure length"
    using length_skip_lf[of "drop (Suc i) s"] by (auto dest!: find_char_bound)
qed simp

declare split_fields.simps [simp del]

definition fields_of :: "string \<Rightarrow> string list" where
  "fields_of s = filter (\<lambda>t. t \<noteq> []) (split_fields s)"

lemma skip_lf_drop:
  "skip_lf (drop n s) = drop (if n < length s \<and> s ! n = LF then n + 1 else n) s"
proof (cases "n < length s")
  case True
  then show ?thesis by (simp add: skip_lf_def Cons_nth_drop_Suc[symmetric])
qed (simp add: skip_lf_def)

lemma split_fields_Nil [simp]: "split_fields [] = [[]]"
  by (subst split_fields.simps) simp

lemma split_fields_no_CR: "CR \<notin> set s \<Longrightarrow> split_fields s = [s]"
  by (subst split_fields.simps) (simp add: find_char_None[THEN iffD2])

lemma split_fields_CR:
  "CR \<notin> set t \<Longrightarrow> split_fields (t @ CR # r) = t # split_fields (skip_lf r)"
  by (subst split_fields.simps) simp

lemma decode_loop_fold:
  "decode_loop line start info = fold add_token (split_fields (drop start line)) info"
proof (induction line start info rule: decode_loop.induct)
  case (1 line start info)
  show ?case
  proof (cases "start < length line")
    case False
    then show ?thesis by (subst decode_loop.simps) (simp add: add_token_def)
  next
    case lt: True
    show ?thesis
    proof (cases "find_char CR (drop start line)")
      case None
      then show ?thesis using lt
        by (subst decode_loop.simps, subst split_fields.simps) (simp add: find_from_def)
    next
      case (Some i)
      let ?s' = "if start + i + 1 < length line \<and> line ! (start + i + 1) = LF then start + i + 1 + 1 else start + i + 1"
      have ff: "find_from CR line start = Some (start + i)" by (simp add: find_from_def Some)
      have "decode_loop line start info = decode_loop line ?s' (add_token (substr line start i) info)"
        using lt ff by (subst decode_loop.simps) (simp add: Let_def)
      also have "\<dots> = fold add_token (split_fields (drop ?s' line)) (add_token (substr line start i) info)"
        using "1.IH"[OF lt ff refl refl refl refl] by simp
      also have "drop ?s' line = skip_lf (drop (Suc i) (drop start line))"
        using skip_lf_drop[of "start + i + 1" line] by (simp add: add.commute)
      finally show ?thesis
        by (subst split_fields.simps) (simp add: Some substr_def)
    qed
  qed
qed

lemma fold_add_token_filter: "fold add_token ts info = fold add_token (filter (\<lambda>t. t \<noteq> []) ts) info"
  by (induction ts arbitrary: info) (auto simp: add_token_def)

lemma fold_add_token_args:
  "cmd info \<noteq> [] \<Longrightarrow> \<forall>t \<in> set ts. t \<noteq> [] \<Longrightarrow>
   fold add_token ts info = info\<lparr>args := args info @ ts\<rparr>"
  by (induction ts arbitrary: info) (auto simp: add_token_def)

lemma decode_line_fields:
  "decode_line line =
     (case fields_of line of [] \<Rightarrow> \<lparr>cmd = [], args = []\<rparr> | t # ts \<Rightarrow> \<lparr>cmd = t, args = ts\<rparr>)"
proof -
  have "decode_line line = fold add_token (fields_of line) \<lparr>cmd = [], args = []\<rparr>"
    by (simp add: decode_line_def decode_loop_fold fields_of_def fold_add_token_filter[symmetric])
  moreover have "\<forall>t \<in> set (fields_of line). t \<noteq> []" by (simp add: fields_of_def)
  ultimately show ?thesis
    by (cases "fields_of line") (auto simp: add_token_def fold_add_token_args)
qed

subsection \<open>Joining fields and splitting them again\<close>

fun join_cr :: "string list \<Rightarrow> string" where
  "join_cr [] = []"
| "join_cr [f] = f"
| "join_cr (f # fs) = f @ CR # join_cr fs"

definition wf_field :: "string \<Rightarrow> bool" where
  "wf_field f \<longleftrightarrow> f \<noteq> [] \<and> CR \<notin> set f \<and> hd f \<noteq> LF"

lemma skip_lf_join: "wf_field f \<Longrightarrow> skip_lf (join_cr (f # fs)) = join_cr (f # fs)"
  by (cases f; cases fs) (auto simp: skip_lf_def wf_field_def)

lemma split_fields_join:
  "CR \<notin> set f \<Longrightarrow> \<forall>g \<in> set fs. wf_field g \<Longrightarrow> split_fields (join_cr (f # fs)) = f # fs"
proof (induction fs arbitrary: f)
  case Nil
  then show ?case by (simp add: split_fields_no_CR)
next
  case (Cons g fs)
  then have "CR \<notin> set g" by (simp add: wf_field_def)
  with Cons show ?case by (simp add: split_fields_CR skip_lf_join del: join_cr.simps(3)) (simp add: split_fields_CR skip_lf_join)
qed

lemma fields_of_props: "t \<in> set (fields_of s) \<Longrightarrow> t \<noteq> [] \<and> CR \<notin> set t"
proof (unfold fields_of_def, induction s rule: split_fields.induct)
  case (1 s)
  then show ?case
    by (subst (asm) (2) split_fields.simps)
      (auto simp: find_char_None find_char_Some split: option.splits)
qed

lemma fields_of_length:
  "sum_list (map length (fields_of s)) + length (fields_of s) \<le> Suc (length s)"
proof (unfold fields_of_def, induction s rule: split_fields.induct)
  case (1 s)
  show ?case
  proof (cases "find_char CR s")
    case None
    then show ?thesis by (subst (1 2) split_fields.simps) simp
  next
    case (Some i)
    have "i < length s" using Some by (rule find_char_bound)
    then show ?thesis using 1[OF Some] length_skip_lf[of "drop (Suc i) s"]
      by (subst (1 2) split_fields.simps) (auto simp: Some)
  qed
qed

lemma length_join: "fs \<noteq> [] \<Longrightarrow> Suc (length (join_cr fs)) = sum_list (map length fs) + length fs"
  by (induction fs rule: join_cr.induct) auto

text \<open>
  Splitting a join gives the fields back exactly when each is well formed: an empty field is
  dropped, one with a carriage return is cut, one that starts with a line feed loses it.
\<close>

lemma fields_of_join_iff:
  "n \<noteq> [] \<and> CR \<notin> set n \<Longrightarrow> fields_of (join_cr (n # fs)) = n # fs \<longleftrightarrow> (\<forall>f \<in> set fs. wf_field f)"
proof
  assume n: "n \<noteq> [] \<and> CR \<notin> set n" and "\<forall>f \<in> set fs. wf_field f"
  then show "fields_of (join_cr (n # fs)) = n # fs"
    by (auto simp: fields_of_def split_fields_join wf_field_def filter_id_conv)
next
  assume n: "n \<noteq> [] \<and> CR \<notin> set n" and eq: "fields_of (join_cr (n # fs)) = n # fs"
  have "n \<noteq> [] \<and> CR \<notin> set n \<Longrightarrow> fields_of (join_cr (n # fs)) = n # fs \<Longrightarrow> \<forall>f \<in> set fs. wf_field f"
  proof (induction fs arbitrary: n)
    case Nil
    then show ?case by simp
  next
    case (Cons g fs)
    have g: "g \<noteq> []" "CR \<notin> set g"
      using fields_of_props[of g "join_cr (n # g # fs)"] Cons.prems(2) by auto
    have rest: "fields_of (skip_lf (join_cr (g # fs))) = g # fs"
      using Cons.prems by (auto simp: fields_of_def split_fields_CR)
    have "hd g \<noteq> LF"
    proof
      assume "hd g = LF"
      then obtain g' where g': "g = LF # g'" using g by (cases g) auto
      then have "skip_lf (join_cr (g # fs)) = join_cr (g' # fs)"
        by (cases fs) (auto simp: skip_lf_def)
      with rest have "fields_of (join_cr (g' # fs)) = g # fs" by simp
      with fields_of_length[of "join_cr (g' # fs)"] length_join[of "g' # fs"] g' show False by simp
    qed
    then have wg: "wf_field g" using g by (simp add: wf_field_def)
    then have "fields_of (join_cr (g # fs)) = g # fs" using rest by (simp only: skip_lf_join)
    then show ?case using Cons.IH[of g] g wg by simp
  qed
  from this[OF n eq] show "\<forall>f \<in> set fs. wf_field f" .
qed

subsection \<open>Names and fields of commands\<close>

fun cmd_name :: "command \<Rightarrow> string" where
  "cmd_name (cmd_say _ _) = ''say''"
| "cmd_name (cmd_nick _) = ''nick''"
| "cmd_name (cmd_response _) = ''response''"
| "cmd_name (cmd_login _ _) = ''login''"
| "cmd_name (cmd_register _ _) = ''register''"
| "cmd_name (cmd_friend_request _) = ''friend_request''"
| "cmd_name (cmd_friend_accept _) = ''friend_accept''"
| "cmd_name (cmd_friend_reject _) = ''friend_reject''"
| "cmd_name (cmd_friend_remove _) = ''friend_remove''"
| "cmd_name cmd_list_friend = ''list_friend''"
| "cmd_name cmd_list_friend_request = ''list_friend_request''"
| "cmd_name (cmd_create_room _) = ''create_room''"
| "cmd_name (cmd_delete_room _) = ''delete_room''"
| "cmd_name (cmd_invite_room _ _) = ''invite_room''"
| "cmd_name (cmd_leave_room _) = ''leave_room''"
| "cmd_name cmd_list_room = ''list_room''"
| "cmd_name (cmd_history _ _) = ''history''"

fun cmd_fields :: "command \<Rightarrow> string list" where
  "cmd_fields (cmd_say r t) = [r, t]"
| "cmd_fields (cmd_nick n) = [n]"
| "cmd_fields (cmd_response t) = [t]"
| "cmd_fields (cmd_login u p) = [u, p]"
| "cmd_fields (cmd_register u p) = [u, p]"
| "cmd_fields (cmd_friend_request u) = [u]"
| "cmd_fields (cmd_friend_accept u) = [u]"
| "cmd_fields (cmd_friend_reject u) = [u]"
| "cmd_fields (cmd_friend_remove u) = [u]"
| "cmd_fields cmd_list_friend = []"
| "cmd_fields cmd_list_friend_request = []"
| "cmd_fields (cmd_create_room n) = [n]"
| "cmd_fields (cmd_delete_room r) = [r]"
| "cmd_fields (cmd_invite_room r u) = [r, u]"
| "cmd_fields (cmd_leave_room r) = [r]"
| "cmd_fields cmd_list_room = []"
| "cmd_fields (cmd_history r l) = [r, l]"

definition wf_command :: "command \<Rightarrow> bool" where
  "wf_command c \<longleftrightarrow> (\<forall>f \<in> set (cmd_fields c). wf_field f)"

definition known_names :: "string list" where
  "known_names =
     [''say'', ''nick'', ''response'', ''login'', ''register'', ''friend_request'', ''friend_accept'',
      ''friend_reject'', ''friend_remove'', ''list_friend'', ''list_friend_request'', ''create_room'',
      ''delete_room'', ''invite_room'', ''leave_room'', ''list_room'', ''history'']"

lemma encode_join: "encode c = join_cr (cmd_name c # cmd_fields c) @ [LF]"
  by (cases c) simp_all

lemma cmd_name_clean [simp]: "cmd_name c \<noteq> []" "CR \<notin> set (cmd_name c)" "LF \<notin> set (cmd_name c)"
  by (cases c, simp_all)+

lemma erase_encode: "erase_delimeter (encode c) = join_cr (cmd_name c # cmd_fields c)"
  by (simp add: encode_join erase_delimeter_def)

lemma length_le_2: "length xs = 2 \<longleftrightarrow> (\<exists>a b. xs = [a, b])" "length xs = Suc 0 \<longleftrightarrow> (\<exists>a. xs = [a])"
  by (auto simp: length_Suc_conv numeral_2_eq_2)

lemma decode_Nil: "fields_of (erase_delimeter line) = [] \<Longrightarrow> decode line = Inl (from_decode empty_line)"
  by (simp add: decode_def decode_line_fields Let_def)

lemma if_eqE:
  "(if b then x else y) = z \<Longrightarrow> (b \<Longrightarrow> x = z \<Longrightarrow> P) \<Longrightarrow> (\<not> b \<Longrightarrow> y = z \<Longrightarrow> P) \<Longrightarrow> P"
  by (simp split: if_splits)

lemma decode_InrD:
  assumes "decode line = Inr c"
  shows "fields_of (erase_delimeter line) = cmd_name c # cmd_fields c"
proof (cases "fields_of (erase_delimeter line)")
  case Nil
  then show ?thesis using assms by (simp add: decode_Nil)
next
  case (Cons t ts)
  then show ?thesis using assms
    unfolding decode_def Let_def decode_line_fields list.case decode_info.simps
    by (elim if_eqE; simp add: length_le_2; elim exE; hypsubst; simp; hypsubst; simp)
qed

lemma decode_InrI:
  assumes "fields_of (erase_delimeter line) = cmd_name c # cmd_fields c"
  shows "decode line = Inr c"
proof -
  have ne: "erase_delimeter line \<noteq> []"
    using assms by (auto simp: fields_of_def)
  show ?thesis using assms ne
    by (cases c) (simp_all add: decode_def Let_def decode_line_fields)
qed

lemma decode_unknown:
  assumes "fields_of (erase_delimeter line) = t # ts" and "t \<notin> set known_names"
  shows "decode line = Inl (from_decode invalid_command)"
proof -
  have "t \<noteq> []" using fields_of_props[of t "erase_delimeter line"] assms(1) by simp
  moreover have "erase_delimeter line \<noteq> []" using assms(1) by (auto simp: fields_of_def)
  ultimately show ?thesis using assms
    by (simp add: decode_def Let_def decode_line_fields known_names_def)
qed

lemma decode_known:
  assumes "fields_of (erase_delimeter line) = t # ts" and "t \<in> set known_names"
    and "decode line = Inl e"
  shows "e = from_decode unexpected_argument"
proof -
  have "t \<noteq> []" using fields_of_props[of t "erase_delimeter line"] assms(1) by simp
  moreover have "erase_delimeter line \<noteq> []" using assms(1) by (auto simp: fields_of_def)
  ultimately show ?thesis using assms
    unfolding decode_def Let_def decode_line_fields list.case decode_info.simps
    by (elim if_eqE; simp add: known_names_def)
qed

lemma cmd_name_known: "cmd_name c \<in> set known_names"
  by (cases c) (simp_all add: known_names_def)

lemma decode_Inr_iff:
  "decode line = Inr c \<longleftrightarrow> fields_of (erase_delimeter line) = cmd_name c # cmd_fields c"
  using decode_InrD decode_InrI by blast

lemma encode_ends: "encode c = butlast (encode c) @ [LF]"
  by (simp add: encode_join)

lemma LF_join: "LF \<in> set (join_cr fs) \<longleftrightarrow> (\<exists>f \<in> set fs. LF \<in> set f)"
  by (induction fs rule: join_cr.induct) auto

text \<open>The fields a command may carry on the wire: no line feed inside them either.\<close>

definition line_safe :: "command \<Rightarrow> bool" where
  "line_safe c \<longleftrightarrow> (\<forall>f \<in> set (cmd_fields c). LF \<notin> set f)"

lemma encode_one_line: "line_safe c \<Longrightarrow> LF \<notin> set (butlast (encode c))"
  by (auto simp: encode_join line_safe_def LF_join simp del: join_cr.simps)

lemma set_skip_lf: "set (skip_lf s) \<subseteq> set s"
  by (cases s) (auto simp: skip_lf_def)

lemma split_fields_subset: "t \<in> set (split_fields s) \<Longrightarrow> set t \<subseteq> set s"
proof (induction s rule: split_fields.induct)
  case (1 s)
  have sub: "set (skip_lf (drop (Suc i) s)) \<subseteq> set s" for i
    using set_skip_lf[of "drop (Suc i) s"] set_drop_subset[of "Suc i" s] by blast
  show ?case
  proof (cases "find_char CR s")
    case None
    then show ?thesis using "1.prems" by (subst (asm) split_fields.simps) simp
  next
    case (Some i)
    from "1.prems" consider "t = take i s" | "t \<in> set (split_fields (skip_lf (drop (Suc i) s)))"
      by (subst (asm) split_fields.simps) (auto simp: Some)
    then show ?thesis
      using "1.IH"[OF Some] sub[of i] set_take_subset[of i s] by cases auto
  qed
qed

lemma fields_of_LF: "LF \<notin> set s \<Longrightarrow> t \<in> set (fields_of s) \<Longrightarrow> LF \<notin> set t"
  using split_fields_subset[of t s] by (auto simp: fields_of_def)

lemma decode_fields_wf:
  assumes "decode line = Inr c" and "LF \<notin> set (erase_delimeter line)"
  shows "wf_command c \<and> line_safe c"
proof -
  have "fields_of (erase_delimeter line) = cmd_name c # cmd_fields c"
    using assms(1) by (rule decode_InrD)
  then have "f \<noteq> [] \<and> CR \<notin> set f \<and> LF \<notin> set f" if "f \<in> set (cmd_fields c)" for f
    using that fields_of_props[of f "erase_delimeter line"] fields_of_LF[OF assms(2), of f] by simp
  moreover have "hd f \<noteq> LF" if "f \<noteq> []" "LF \<notin> set f" for f
    using that by (cases f) auto
  ultimately show ?thesis by (auto simp: wf_command_def wf_field_def line_safe_def)
qed

lemma decode_encode_wf: "wf_command c \<Longrightarrow> decode (encode c) = Inr c"
  by (simp add: decode_Inr_iff erase_encode fields_of_join_iff wf_command_def)

text \<open>The line without its line feed, as \<open>parse_line\<close> hands it over, decodes the same way.\<close>

lemma decode_butlast_encode: "LF \<notin> set (butlast (encode c)) \<Longrightarrow> wf_command c \<Longrightarrow> decode (butlast (encode c)) = Inr c"
proof -
  assume lf: "LF \<notin> set (butlast (encode c))" and wf: "wf_command c"
  have ne: "butlast (encode c) \<noteq> []"
    by (cases "cmd_fields c") (simp_all add: encode_join butlast_append)
  have "last (butlast (encode c)) \<noteq> LF" using lf ne last_in_set by metis
  then have "erase_delimeter (butlast (encode c)) = butlast (encode c)"
    by (simp add: erase_delimeter_def)
  also have "\<dots> = erase_delimeter (encode c)" by (simp add: encode_join erase_delimeter_def)
  finally show ?thesis using decode_encode_wf[OF wf] by (simp add: decode_Inr_iff)
qed

subsection \<open>Properties\<close>

text \<open>
  C22. The command encoding round-trips exactly on commands whose fields are non-empty, contain no
  carriage return and do not start with a line feed: for every command, decoding its encoding
  gives the command back if and only if that holds (otherwise a field is dropped, cut or
  shortened, and decoding gives an error or another command).
\<close>

theorem codec_roundtrip: "decode (encode c) = Inr c \<longleftrightarrow> wf_command c"
proof -
  have "decode (encode c) = Inr c \<longleftrightarrow>
        fields_of (join_cr (cmd_name c # cmd_fields c)) = cmd_name c # cmd_fields c"
    by (simp add: decode_Inr_iff erase_encode)
  then show ?thesis by (simp add: fields_of_join_iff wf_command_def)
qed

text \<open>
  C23. The decoder accepts exactly the grammar: \<open>decode\<close>, with its index loop and its chain of
  seventeen comparisons, returns the command \<open>c\<close> if and only if the non-empty fields of the line
  (without a trailing line feed) are the command's name followed by its arguments, in number and
  order.
\<close>

theorem decode_accepts:
  "decode line = Inr c \<longleftrightarrow> fields_of (erase_delimeter line) = cmd_name c # cmd_fields c"
  by (rule decode_Inr_iff)

text \<open>
  Every rejected line is rejected with the right error: \<open>empty_line\<close> when the line has no
  non-empty field, \<open>invalid_command\<close> when its first field is not a known command name, and
  \<open>unexpected_argument\<close> when the name is known and no command has these arguments.
\<close>

theorem decode_rejects:
  "decode line = Inl e \<longleftrightarrow>
     (case fields_of (erase_delimeter line) of
        [] \<Rightarrow> e = from_decode empty_line
      | t # ts \<Rightarrow>
          if t \<notin> set known_names then e = from_decode invalid_command
          else e = from_decode unexpected_argument \<and> \<not> (\<exists>c. cmd_name c = t \<and> cmd_fields c = ts))"
proof (cases "fields_of (erase_delimeter line)")
  case Nil
  then show ?thesis by (auto simp: decode_Nil)
next
  case (Cons t ts)
  show ?thesis
  proof (cases "t \<in> set known_names")
    case False
    then show ?thesis using Cons by (auto simp: decode_unknown)
  next
    case True
    have "(\<exists>c. cmd_name c = t \<and> cmd_fields c = ts) \<longleftrightarrow> (\<exists>c. decode line = Inr c)"
      by (auto simp: decode_Inr_iff Cons)
    moreover have "decode line = Inl e \<Longrightarrow> e = from_decode unexpected_argument" for e
      using decode_known[OF Cons True] by simp
    ultimately show ?thesis using Cons True
      by (cases "decode line") auto
  qed
qed


end
