(* ===== verification/Io_Buffer.thy ===== *)
theory Io_Buffer
  imports Command_Codec
begin

section \<open>Offset buffers and the line parser\<close>

text \<open>
  The buffer classes of \<open>net/io_helper\<close> and \<open>protocol/line_parser\<close>. A buffer is a string and an
  offset: the bytes before the offset are consumed, those after it (\<open>pending\<close>) are the buffer's
  contents. Compaction and clearing change the representation only. The locale \<open>line_source\<close>
  states what a consumer of lines relies on; its lemmas say that the lines a consumer sees do
  not depend on how the stream was cut into chunks.
\<close>

record offset_buffer =
  buf :: string
  offset :: nat

definition empty_buffer :: offset_buffer where
  "empty_buffer = \<lparr>buf = [], offset = 0\<rparr>"

subsection \<open>Operations\<close>

definition clear_if_done :: "offset_buffer \<Rightarrow> bool \<times> offset_buffer" where
  "clear_if_done b =
     (if length (buf b) \<noteq> offset b then (False, b) else (True, b\<lparr>buf := [], offset := 0\<rparr>))"

definition compact_if_needed :: "offset_buffer \<Rightarrow> bool \<times> offset_buffer" where
  "compact_if_needed b =
     (if offset b < 8192 then (False, b)
      else if offset b * 2 < length (buf b) then (False, b)
      else (True, b\<lparr>buf := drop (offset b) (buf b), offset := 0\<rparr>))"

definition reset_offset :: "offset_buffer \<Rightarrow> offset_buffer" where
  "reset_offset b = b\<lparr>offset := 0\<rparr>"

definition has_pending :: "offset_buffer \<Rightarrow> bool" where
  "has_pending b \<longleftrightarrow> offset b < length (buf b)"

text \<open>The bytes from \<open>buf.data() + offset\<close> to the end of the string.\<close>

definition current_data :: "offset_buffer \<Rightarrow> string" where
  "current_data b = drop (offset b) (buf b)"

text \<open>A \<open>size_t\<close> difference: it wraps when the offset is past the end.\<close>

definition remaining :: "offset_buffer \<Rightarrow> nat" where
  "remaining b =
     (if offset b \<le> length (buf b) then length (buf b) - offset b
      else 2 ^ 64 - (offset b - length (buf b)))"

definition advance :: "nat \<Rightarrow> offset_buffer \<Rightarrow> offset_buffer" where
  "advance n b = b\<lparr>offset := offset b + n\<rparr>"

definition get_offset :: "offset_buffer \<Rightarrow> nat" where
  "get_offset b = offset b"

definition set_offset :: "nat \<Rightarrow> offset_buffer \<Rightarrow> offset_buffer" where
  "set_offset n b = b\<lparr>offset := n\<rparr>"

definition send_append :: "string \<Rightarrow> offset_buffer \<Rightarrow> bool \<times> offset_buffer" where
  "send_append sv b =
     (let was_pending = has_pending b; b' = b\<lparr>buf := buf b @ sv\<rparr>
      in (\<not> was_pending \<and> has_pending b', b'))"

definition send_append_cmd :: "command \<Rightarrow> offset_buffer \<Rightarrow> bool \<times> offset_buffer" where
  "send_append_cmd c = send_append (encode c)"

definition recv_append :: "string \<Rightarrow> offset_buffer \<Rightarrow> offset_buffer" where
  "recv_append p b = b\<lparr>buf := buf b @ p\<rparr>"

definition take_all :: "offset_buffer \<Rightarrow> string \<times> offset_buffer" where
  "take_all b = (buf b, reset_offset (b\<lparr>buf := []\<rparr>))"

definition has_line_view :: "string \<Rightarrow> bool" where
  "has_line_view s \<longleftrightarrow> find_from LF s 0 \<noteq> None"

definition has_line :: "offset_buffer \<Rightarrow> bool" where
  "has_line b \<longleftrightarrow> find_from LF (buf b) (get_offset b) \<noteq> None"

definition parse_line :: "offset_buffer \<Rightarrow> (string \<times> offset_buffer) option" where
  "parse_line b =
     (let start = get_offset b in
      case find_from LF (buf b) start of
        None \<Rightarrow> None
      | Some pos \<Rightarrow>
          let line = substr (buf b) start (pos - start);
              (done, b') = clear_if_done (set_offset (pos + 1) b)
          in Some (line, if done then b' else snd (compact_if_needed b')))"

subsection \<open>The abstract contents\<close>

definition pending :: "offset_buffer \<Rightarrow> string" where
  "pending b = drop (offset b) (buf b)"

definition buf_ok :: "offset_buffer \<Rightarrow> bool" where
  "buf_ok b \<longleftrightarrow> offset b \<le> length (buf b)"

lemma empty_buffer_ok [simp]: "buf_ok empty_buffer" "pending empty_buffer = []"
  by (simp_all add: empty_buffer_def buf_ok_def pending_def)

lemma has_pending_iff: "has_pending b \<longleftrightarrow> pending b \<noteq> []"
  by (auto simp: has_pending_def pending_def)

lemma current_data_pending [simp]: "current_data b = pending b"
  by (simp add: current_data_def pending_def)

lemma remaining_pending: "buf_ok b \<Longrightarrow> remaining b = length (pending b)"
  by (simp add: remaining_def buf_ok_def pending_def)

lemma clear_if_done_ok [simp]:
  "pending (snd (clear_if_done b)) = pending b" "buf_ok b \<Longrightarrow> buf_ok (snd (clear_if_done b))"
  by (auto simp: clear_if_done_def pending_def buf_ok_def)

lemma compact_if_needed_ok [simp]:
  "pending (snd (compact_if_needed b)) = pending b" "buf_ok b \<Longrightarrow> buf_ok (snd (compact_if_needed b))"
  by (auto simp: compact_if_needed_def pending_def buf_ok_def)

lemma advance_ok:
  "n \<le> length (pending b) \<Longrightarrow> buf_ok b \<Longrightarrow> buf_ok (advance n b)"
  by (auto simp: advance_def pending_def buf_ok_def)

lemma pending_advance [simp]: "pending (advance n b) = drop n (pending b)"
  by (simp add: advance_def pending_def add.commute)

lemma send_append_ok [simp]:
  "buf_ok b \<Longrightarrow> pending (snd (send_append s b)) = pending b @ s"
  "buf_ok b \<Longrightarrow> buf_ok (snd (send_append s b))"
  by (auto simp: send_append_def pending_def buf_ok_def Let_def)

lemma send_append_flag:
  "buf_ok b \<Longrightarrow> fst (send_append s b) \<longleftrightarrow> pending b = [] \<and> s \<noteq> []"
  by (auto simp: send_append_def has_pending_iff pending_def buf_ok_def Let_def)

lemma recv_append_ok [simp]:
  "buf_ok b \<Longrightarrow> pending (recv_append s b) = pending b @ s"
  "buf_ok b \<Longrightarrow> buf_ok (recv_append s b)"
  by (auto simp: recv_append_def pending_def buf_ok_def)

lemma encode_not_Nil [simp]: "encode c \<noteq> []"
  by (simp add: encode_join)

subsection \<open>The line parser\<close>

lemma has_line_iff: "has_line b \<longleftrightarrow> LF \<in> set (pending b)"
  by (simp add: has_line_def get_offset_def find_from_def pending_def find_char_None)

lemma parse_line_None: "parse_line b = None \<longleftrightarrow> LF \<notin> set (pending b)"
proof -
  have "parse_line b = None \<longleftrightarrow> find_char LF (pending b) = None"
    by (simp add: parse_line_def Let_def find_from_def get_offset_def pending_def case_prod_beta
        split: option.splits)
  then show ?thesis by (simp add: find_char_None)
qed

lemma parse_line_Some:
  assumes "parse_line b = Some (l, b')"
  shows "pending b = l @ LF # pending b'" and "LF \<notin> set l" and "buf_ok b'"
proof -
  from assms obtain i where i: "find_char LF (pending b) = Some i"
    and l: "l = take i (pending b)"
    and b': "b' = (let (done, b1) = clear_if_done (set_offset (offset b + i + 1) b)
                   in if done then b1 else snd (compact_if_needed b1))"
    by (auto simp: parse_line_def Let_def find_from_def get_offset_def pending_def substr_def
        split: option.splits prod.splits)
  have lt: "i < length (pending b)" using i by (rule find_char_bound)
  have ok: "buf_ok (set_offset (offset b + i + 1) b)"
    using lt by (simp add: buf_ok_def set_offset_def pending_def)
  have p: "pending (set_offset (offset b + i + 1) b) = drop (Suc i) (pending b)"
    by (simp add: set_offset_def pending_def add.commute)
  define c where "c = clear_if_done (set_offset (offset b + i + 1) b)"
  have b'': "b' = snd c \<or> b' = snd (compact_if_needed (snd c))"
    by (simp add: b' c_def Let_def case_prod_beta)
  have pb': "pending b' = drop (Suc i) (pending b)"
    using b'' p by (auto simp: c_def)
  show "buf_ok b'" using b'' ok by (auto simp: c_def)
  show "pending b = l @ LF # pending b'" using find_char_split(1)[OF i] by (simp add: l pb')
  show "LF \<notin> set l" using find_char_split(2)[OF i] by (simp add: l)
qed

text \<open>
  The loop \<open>while(auto line = parse_line(buf))\<close> that its consumers run (with the handling of the
  lines apart): it ends because each line takes at least its line feed from the buffer.
\<close>

function drain_lines :: "offset_buffer \<Rightarrow> string list \<times> offset_buffer" where
  "drain_lines b =
     (case parse_line b of
        None \<Rightarrow> ([], b)
      | Some (l, b') \<Rightarrow> (let (ls, b'') = drain_lines b' in (l # ls, b'')))"
  by pat_completeness auto
termination
  by (relation "measure (\<lambda>b. length (pending b))") (auto dest!: parse_line_Some(1))

declare drain_lines.simps [simp del]

text \<open>Receiving chunk after chunk, draining the complete lines after each.\<close>

fun feed :: "offset_buffer \<Rightarrow> string list \<Rightarrow> string list \<times> offset_buffer" where
  "feed b [] = ([], b)"
| "feed b (chunk # chunks) =
     (let (ls, b') = drain_lines (recv_append chunk b); (ls', b'') = feed b' chunks
      in (ls @ ls', b''))"

subsection \<open>Splitting a stream into lines, as a specification\<close>

fun split_lines :: "string \<Rightarrow> string list \<times> string" where
  "split_lines [] = ([], [])"
| "split_lines (c # cs) =
     (let (ls, r) = split_lines cs
      in if c = LF then ([] # ls, r)
         else case ls of [] \<Rightarrow> ([], c # r) | l # ls' \<Rightarrow> ((c # l) # ls', r))"

lemma split_lines_no_LF: "LF \<notin> set s \<Longrightarrow> split_lines s = ([], s)"
  by (induction s) auto

lemma split_lines_line:
  "LF \<notin> set l \<Longrightarrow> split_lines (l @ LF # s) = (l # fst (split_lines s), snd (split_lines s))"
  by (induction l) (auto split: prod.splits)

lemma split_lines_rest: "LF \<notin> set (snd (split_lines s))"
  by (induction s) (auto split: prod.splits list.splits)

lemma split_lines_append:
  "split_lines (s @ t) =
     (fst (split_lines s) @ fst (split_lines (snd (split_lines s) @ t)),
      snd (split_lines (snd (split_lines s) @ t)))"
proof (induction "length s" arbitrary: s rule: less_induct)
  case less
  show ?case
  proof (cases "find_char LF s")
    case None
    then show ?thesis by (simp add: find_char_None split_lines_no_LF)
  next
    case (Some i)
    let ?r = "drop (Suc i) s"
    have s: "s = take i s @ LF # ?r" and nl: "LF \<notin> set (take i s)"
      using find_char_split[OF Some] by simp_all
    have "length ?r < length s" using find_char_bound[OF Some] by simp
    then have IH: "split_lines (?r @ t) =
        (fst (split_lines ?r) @ fst (split_lines (snd (split_lines ?r) @ t)),
         snd (split_lines (snd (split_lines ?r) @ t)))" by (rule less)
    have "split_lines (s @ t) = (take i s # fst (split_lines (?r @ t)), snd (split_lines (?r @ t)))"
      using split_lines_line[OF nl, of "?r @ t"] s by (metis append.assoc append_Cons)
    moreover have "split_lines s = (take i s # fst (split_lines ?r), snd (split_lines ?r))"
      using split_lines_line[OF nl, of ?r] s by metis
    ultimately show ?thesis by (simp add: IH)
  qed
qed

subsection \<open>The interface of a line source\<close>

text \<open>
  What a consumer of lines uses: appending a chunk, taking a line, and the loop over them. The
  laws are about the abstract contents only, so they hide compaction.
\<close>

locale line_source =
  fixes view :: "'b \<Rightarrow> string"
    and ok :: "'b \<Rightarrow> bool"
    and push :: "string \<Rightarrow> 'b \<Rightarrow> 'b"
    and pop :: "'b \<Rightarrow> (string \<times> 'b) option"
    and drain :: "'b \<Rightarrow> string list \<times> 'b"
    and consume :: "'b \<Rightarrow> string list \<Rightarrow> string list \<times> 'b"
  assumes view_push: "ok b \<Longrightarrow> view (push s b) = view b @ s"
    and ok_push: "ok b \<Longrightarrow> ok (push s b)"
    and pop_None: "pop b = None \<Longrightarrow> LF \<notin> set (view b)"
    and pop_Some: "pop b = Some (l, b') \<Longrightarrow> view b = l @ LF # view b' \<and> LF \<notin> set l \<and> ok b'"
    and drain_unfold:
      "drain b = (case pop b of None \<Rightarrow> ([], b)
         | Some (l, b') \<Rightarrow> (let (ls, b'') = drain b' in (l # ls, b'')))"
    and consume_Nil: "consume b [] = ([], b)"
    and consume_Cons:
      "consume b (s # ss) =
         (let (ls, b') = drain (push s b); (ls', b'') = consume b' ss in (ls @ ls', b''))"
begin

lemma drain_view:
  "ok b \<Longrightarrow> fst (drain b) = fst (split_lines (view b)) \<and>
     view (snd (drain b)) = snd (split_lines (view b)) \<and> ok (snd (drain b))"
proof (induction "length (view b)" arbitrary: b rule: less_induct)
  case less
  show ?case
  proof (cases "pop b")
    case None
    then show ?thesis using less.prems pop_None[OF None]
      by (simp add: drain_unfold[of b] split_lines_no_LF)
  next
    case (Some p)
    obtain l b' where p: "p = (l, b')" by (cases p)
    have v: "view b = l @ LF # view b'" "LF \<notin> set l" "ok b'"
      using pop_Some Some p by auto
    have "length (view b') < length (view b)" by (simp add: v(1))
    from less.hyps[OF this v(3)] show ?thesis
      using split_lines_line[OF v(2), of "view b'"]
      by (simp add: drain_unfold[of b] Some p v(1) case_prod_beta)
  qed
qed

lemma consume_view:
  "ok b \<Longrightarrow> LF \<notin> set (view b) \<Longrightarrow>
   fst (consume b chunks) = fst (split_lines (view b @ concat chunks)) \<and>
   view (snd (consume b chunks)) = snd (split_lines (view b @ concat chunks)) \<and>
   ok (snd (consume b chunks))"
proof (induction chunks arbitrary: b)
  case Nil
  then show ?case by (simp add: consume_Nil split_lines_no_LF)
next
  case (Cons s ss)
  let ?d = "drain (push s b)"
  have d: "fst ?d = fst (split_lines (view b @ s))"
    "view (snd ?d) = snd (split_lines (view b @ s))" "ok (snd ?d)"
    using drain_view[OF ok_push[OF Cons.prems(1), of s]] by (simp_all add: view_push[OF Cons.prems(1)])
  have nl: "LF \<notin> set (view (snd ?d))" by (simp add: d(2) split_lines_rest)
  show ?case
    using Cons.IH[OF d(3) nl] split_lines_append[of "view b @ s" "concat ss"] d(1,2)
    by (simp add: consume_Cons case_prod_beta)
qed

lemma consume_chunking:
  "ok b \<Longrightarrow> LF \<notin> set (view b) \<Longrightarrow> concat chunks = concat chunks' \<Longrightarrow>
   fst (consume b chunks) = fst (consume b chunks')"
  by (simp add: consume_view)

end

interpretation rb: line_source pending buf_ok recv_append parse_line drain_lines feed
proof (unfold_locales, goal_cases)
  case (3 b)
  then show ?case by (simp add: parse_line_None)
next
  case (4 b l b')
  then show ?case using parse_line_Some by blast
next
  case (5 b)
  show ?case by (subst drain_lines.simps) simp
qed simp_all

subsection \<open>Properties\<close>

text \<open>
  C24. \<open>parse_line\<close> refines taking a line from a byte queue: for every buffer, it fails exactly
  when the unconsumed bytes hold no line feed; otherwise it returns the bytes before the first
  line feed, and what stays unconsumed (after clearing or compaction) is what follows it.
\<close>

theorem parse_line_refines:
  "map_option (\<lambda>(l, b'). (l, pending b')) (parse_line b) =
     (if LF \<in> set (pending b)
      then Some (takeWhile (\<lambda>c. c \<noteq> LF) (pending b), tl (dropWhile (\<lambda>c. c \<noteq> LF) (pending b)))
      else None)"
proof (cases "parse_line b")
  case None
  then show ?thesis by (simp add: parse_line_None)
next
  case (Some p)
  obtain l b' where p: "p = (l, b')" by (cases p)
  have v: "pending b = l @ LF # pending b'" "LF \<notin> set l"
    using parse_line_Some(1,2) Some p by auto
  then have "takeWhile (\<lambda>c. c \<noteq> LF) (pending b) = l" "dropWhile (\<lambda>c. c \<noteq> LF) (pending b) = LF # pending b'"
    by (auto simp: takeWhile_append takeWhile_eq_all_conv dropWhile_append)
  then show ?thesis by (simp add: Some p v(1))
qed

lemma compact_bound:
  "length (buf (snd (compact_if_needed b))) \<le> 2 * length (pending b) + 8191"
  by (auto simp: compact_if_needed_def pending_def)

text \<open>
  C25. Consumed bytes do not pile up: after every line taken, the stored string is at most twice
  the unconsumed bytes plus 8191.
\<close>

theorem parse_line_space_bound:
  assumes "parse_line b = Some (l, b')"
  shows "length (buf b') \<le> 2 * length (pending b') + 8191"
proof -
  from assms obtain pos where
    "b' = (let (done, b1) = clear_if_done (set_offset (pos + 1) b)
           in if done then b1 else snd (compact_if_needed b1))"
    by (auto simp: parse_line_def Let_def case_prod_beta split: option.splits)
  then show ?thesis
    using compact_bound[of "set_offset (pos + 1) b"]
    by (auto simp: clear_if_done_def split: if_splits)
qed

theorem parse_line_space_bound_witness:
  "\<exists>l b'. parse_line \<lparr>buf = ''ab'' @ [LF] @ ''c'', offset = 1\<rparr> = Some (l, b') \<and>
     length (buf b') \<le> 2 * length (pending b') + 8191"
proof -
  have "parse_line \<lparr>buf = ''ab'' @ [LF] @ ''c'', offset = 1\<rparr> =
      Some (''b'', \<lparr>buf = ''ab'' @ [LF] @ ''c'', offset = 3\<rparr>)"
    by (simp add: parse_line_def find_from_def get_offset_def set_offset_def clear_if_done_def
        compact_if_needed_def substr_def)
  from this parse_line_space_bound[OF this] show ?thesis by blast
qed

lemma split_lines_encode:
  "\<forall>c \<in> set cs. line_safe c \<Longrightarrow>
   split_lines (concat (map encode cs)) = (map (\<lambda>c. butlast (encode c)) cs, [])"
proof (induction cs)
  case Nil
  then show ?case by simp
next
  case (Cons c cs)
  then have "LF \<notin> set (butlast (encode c))" by (simp add: encode_one_line)
  from split_lines_line[OF this, of "concat (map encode cs)"] Cons show ?case
    by (subst list.map, subst concat.simps, subst encode_ends) simp
qed

text \<open>
  C26. End to end over the byte stream: however the encodings of a sequence of well-formed
  commands are cut into chunks by the transport, a receiver that appends each chunk to its
  buffer, takes the complete lines and decodes them obtains exactly that sequence of commands,
  in order, and nothing is left over.
\<close>

theorem wire_stream_delivery:
  assumes "\<forall>c \<in> set cs. wf_command c \<and> line_safe c"
    and "concat chunks = concat (map encode cs)"
  shows "map decode (fst (feed empty_buffer chunks)) = map Inr cs \<and>
         pending (snd (feed empty_buffer chunks)) = []"
proof -
  have "split_lines (concat chunks) = (map (\<lambda>c. butlast (encode c)) cs, [])"
    using assms by (simp add: split_lines_encode)
  then have "fst (feed empty_buffer chunks) = map (\<lambda>c. butlast (encode c)) cs"
    and "pending (snd (feed empty_buffer chunks)) = []"
    using rb.consume_view[of empty_buffer chunks] by simp_all
  then show ?thesis using assms(1)
    by (simp add: decode_butlast_encode encode_one_line)
qed

theorem wire_stream_delivery_witness:
  "map decode (fst (feed empty_buffer [''nick'' @ [CR] @ ''bo'', ''b'' @ [LF] @ ''list'', ''_room'' @ [LF]])) =
     map Inr [cmd_nick ''bob'', cmd_list_room]"
proof -
  have "\<forall>c \<in> set [cmd_nick ''bob'', cmd_list_room]. wf_command c \<and> line_safe c"
    by (simp add: wf_command_def line_safe_def wf_field_def)
  from wire_stream_delivery[OF this,
      of "[''nick'' @ [CR] @ ''bo'', ''b'' @ [LF] @ ''list'', ''_room'' @ [LF]]"]
  show ?thesis by simp
qed

end
