(* ===== verification/Tls_Session.thy ===== *)
theory Tls_Session
  imports Error_Codes
begin

section \<open>TLS sessions\<close>

text \<open>
  \<open>net/tls_session\<close>. OpenSSL is a parameter: an \<open>openssl\<close> value says what each library call
  reports and how it changes the opaque state \<open>'s\<close> of the \<open>SSL\<close> object. A report holds what the
  code looks at after the call: the return code, the byte count, \<open>SSL_get_error\<close>, \<open>errno\<close> and the
  last entry of the error queue. The session adds four flags to the object; the lemmas say when
  they change.
\<close>

unbundle bit_operations_syntax

record ssl_report =
  rc :: int
  byte :: nat
  ssl_error :: c_int
  sys_errno :: c_int
  last_error :: c_int

record 's openssl =
  do_handshake :: "'s \<Rightarrow> ssl_report \<times> 's"
  read_ex :: "'s \<Rightarrow> nat \<Rightarrow> (ssl_report \<times> string) \<times> 's"
  write_ex :: "'s \<Rightarrow> string \<Rightarrow> ssl_report \<times> 's"
  ssl_shutdown :: "'s \<Rightarrow> ssl_report \<times> 's"
  has_peer_certificate :: "'s \<Rightarrow> bool"
  verify_result :: "'s \<Rightarrow> c_int"
  err_get_reason :: "c_int \<Rightarrow> c_int"
  err_reason_string :: "c_int \<Rightarrow> string option"

definition SSL_ERROR_SSL :: c_int where "SSL_ERROR_SSL = 1"
definition SSL_ERROR_WANT_READ :: c_int where "SSL_ERROR_WANT_READ = 2"
definition SSL_ERROR_WANT_WRITE :: c_int where "SSL_ERROR_WANT_WRITE = 3"
definition SSL_ERROR_SYSCALL :: c_int where "SSL_ERROR_SYSCALL = 5"
definition SSL_ERROR_ZERO_RETURN :: c_int where "SSL_ERROR_ZERO_RETURN = 6"
definition SSL_R_CERTIFICATE_VERIFY_FAILED :: c_int where "SSL_R_CERTIFICATE_VERIFY_FAILED = 134"
definition X509_V_OK :: c_int where "X509_V_OK = 0"
definition X509_V_ERR_CERT_NOT_YET_VALID :: c_int where "X509_V_ERR_CERT_NOT_YET_VALID = 9"
definition X509_V_ERR_CERT_HAS_EXPIRED :: c_int where "X509_V_ERR_CERT_HAS_EXPIRED = 10"
definition X509_V_ERR_HOSTNAME_MISMATCH :: c_int where "X509_V_ERR_HOSTNAME_MISMATCH = 62"

lemmas ssl_constants =
  SSL_ERROR_SSL_def SSL_ERROR_WANT_READ_def SSL_ERROR_WANT_WRITE_def SSL_ERROR_SYSCALL_def
  SSL_ERROR_ZERO_RETURN_def

lemmas x509_constants =
  X509_V_OK_def X509_V_ERR_CERT_NOT_YET_VALID_def X509_V_ERR_CERT_HAS_EXPIRED_def
  X509_V_ERR_HOSTNAME_MISMATCH_def

subsection \<open>Classifying a library error\<close>

definition tls_session_last_reason :: "'s openssl \<Rightarrow> ssl_report \<Rightarrow> c_int" where
  "tls_session_last_reason L r = (if last_error r = 0 then 0 else err_get_reason L (last_error r))"

definition tolower :: "char \<Rightarrow> char" where
  "tolower c = (let n = (of_char c :: nat) in if 65 \<le> n \<and> n \<le> 90 then char_of (n + 32) else c)"

definition tls_session_to_lower :: "string \<Rightarrow> string" where
  "tls_session_to_lower s = map tolower s"

fun starts_with :: "string \<Rightarrow> string \<Rightarrow> bool" where
  "starts_with [] s = True"
| "starts_with (p # ps) [] = False"
| "starts_with (p # ps) (c # s) = (p = c \<and> starts_with ps s)"

text \<open>\<open>s.find(p) != npos\<close>\<close>

fun contains :: "string \<Rightarrow> string \<Rightarrow> bool" where
  "contains p [] = starts_with p []"
| "contains p (c # s) = (starts_with p (c # s) \<or> contains p s)"

definition classify_ssl_reason :: "'s openssl \<Rightarrow> c_int \<Rightarrow> tls_error" where
  "classify_ssl_reason L reason =
     (if reason = 0 then ssl_library_error
      else if reason = SSL_R_CERTIFICATE_VERIFY_FAILED then verify_failed
      else case err_reason_string L reason of
          None \<Rightarrow> ssl_library_error
        | Some reason_text \<Rightarrow>
            (let lowered = tls_session_to_lower reason_text in
             if contains ''hostname'' lowered then verify_hostname_mismatch
             else if contains ''certificate'' lowered \<or> contains ''cert'' lowered then verify_failed
             else if contains ''verify'' lowered then verify_failed
             else if contains ''handshake'' lowered then handshake_failed
             else if contains ''alert'' lowered then alert_received
             else if contains ''protocol'' lowered \<or> contains ''version'' lowered then protocol_error
             else ssl_library_error))"

definition make_tls_session_error :: "'s openssl \<Rightarrow> ssl_report \<Rightarrow> tls_error \<Rightarrow> error_code" where
  "make_tls_session_error L r kind = from_tls_code (make_code kind (tls_session_last_reason L r))"

definition make_tls_verify_error :: "tls_error \<Rightarrow> c_int \<Rightarrow> error_code" where
  "make_tls_verify_error kind verify_rc = from_tls_code (make_code kind verify_rc)"

subsection \<open>Sessions\<close>

record tls_io_result =
  io_byte :: nat
  closed :: bool
  io_want_read :: bool
  io_want_write :: bool

definition no_io :: tls_io_result where
  "no_io = \<lparr>io_byte = 0, closed = False, io_want_read = False, io_want_write = False\<rparr>"

record 's tls_session =
  ssl :: "'s option"
  handshake_done :: bool
  want_read :: bool
  want_write :: bool
  peer_closed :: bool

definition from_ssl_error :: "'s openssl \<Rightarrow> ssl_report \<Rightarrow> nat \<Rightarrow> error_code + tls_io_result" where
  "from_ssl_error L r n =
     (if ssl_error r = SSL_ERROR_WANT_READ then
        Inr \<lparr>io_byte = n, closed = False, io_want_read = True, io_want_write = False\<rparr>
      else if ssl_error r = SSL_ERROR_WANT_WRITE then
        Inr \<lparr>io_byte = n, closed = False, io_want_read = False, io_want_write = True\<rparr>
      else if ssl_error r = SSL_ERROR_ZERO_RETURN then
        Inr \<lparr>io_byte = n, closed = True, io_want_read = False, io_want_write = False\<rparr>
      else if ssl_error r = SSL_ERROR_SYSCALL then
        (let ec = sys_errno r in
         if ec = 0 \<or> ec = ECONNRESET \<or> ec = EPIPE \<or> ec = ENOTCONN
         then Inr \<lparr>io_byte = n, closed = True, io_want_read = False, io_want_write = False\<rparr>
         else Inl (from_errno ec))
      else if ssl_error r = SSL_ERROR_SSL then
        (let reason = tls_session_last_reason L r; kind = classify_ssl_reason L reason
         in Inl (from_tls_code (make_code kind reason)))
      else Inl (make_tls_session_error L r protocol_error))"

definition apply_state :: "tls_io_result \<Rightarrow> 's tls_session \<Rightarrow> 's tls_session" where
  "apply_state io t =
     (let t' = t\<lparr>want_read := io_want_read io, want_write := io_want_write io\<rparr>
      in if closed io then t'\<lparr>peer_closed := True\<rparr> else t')"

definition apply_result ::
  "error_code + tls_io_result \<Rightarrow> 's tls_session \<Rightarrow> 's tls_session" where
  "apply_result io_exp t = (case io_exp of Inr io \<Rightarrow> apply_state io t | Inl _ \<Rightarrow> t)"

definition handshake ::
  "'s openssl \<Rightarrow> 's tls_session \<Rightarrow> (error_code + tls_io_result) \<times> 's tls_session" where
  "handshake L t =
     (case ssl t of
        None \<Rightarrow> (Inl (from_errno EINVAL), t)
      | Some s \<Rightarrow>
          if handshake_done t then (Inr no_io, apply_state no_io t)
          else
            (let (r, s') = do_handshake L s; t1 = t\<lparr>ssl := Some s'\<rparr> in
             if rc r = 1 then (Inr no_io, apply_state no_io (t1\<lparr>handshake_done := True\<rparr>))
             else
               (let io_exp = from_ssl_error L r 0 in (io_exp, apply_result io_exp t1))))"

text \<open>\<open>tls_read\<close> also returns the bytes that the call put into \<open>dst\<close>.\<close>

definition tls_read ::
  "'s openssl \<Rightarrow> nat \<Rightarrow> 's tls_session \<Rightarrow>
     (error_code + tls_io_result) \<times> string \<times> 's tls_session" where
  "tls_read L cap t =
     (case ssl t of
        None \<Rightarrow> (Inl (from_errno EINVAL), [], t)
      | Some s \<Rightarrow>
          if cap = 0 then (Inr no_io, [], apply_state no_io t)
          else
            (let ((r, dst), s') = read_ex L s cap; t1 = t\<lparr>ssl := Some s'\<rparr> in
             if rc r = 1 then (let io = no_io\<lparr>io_byte := byte r\<rparr> in (Inr io, dst, apply_state io t1))
             else
               (let io_exp = from_ssl_error L r (byte r) in (io_exp, dst, apply_result io_exp t1))))"

definition tls_write ::
  "'s openssl \<Rightarrow> string \<Rightarrow> 's tls_session \<Rightarrow>
     (error_code + tls_io_result) \<times> 's tls_session" where
  "tls_write L src t =
     (case ssl t of
        None \<Rightarrow> (Inl (from_errno EINVAL), t)
      | Some s \<Rightarrow>
          if length src = 0 then (Inr no_io, apply_state no_io t)
          else
            (let (r, s') = write_ex L s src; t1 = t\<lparr>ssl := Some s'\<rparr> in
             if rc r = 1 then (let io = no_io\<lparr>io_byte := byte r\<rparr> in (Inr io, apply_state io t1))
             else
               (let io_exp = from_ssl_error L r (byte r) in (io_exp, apply_result io_exp t1))))"

definition tls_shutdown ::
  "'s openssl \<Rightarrow> 's tls_session \<Rightarrow> (error_code + unit) \<times> 's tls_session" where
  "tls_shutdown L t =
     (case ssl t of
        None \<Rightarrow> (Inr (), t)
      | Some s \<Rightarrow>
          (let (r, s') = ssl_shutdown L s; t1 = t\<lparr>ssl := Some s'\<rparr> in
           if rc r = 1 then (Inr (), t1)
           else if rc r = 0 then (Inr (), t1)
           else if ssl_error r = SSL_ERROR_WANT_READ \<or> ssl_error r = SSL_ERROR_WANT_WRITE then (Inr (), t1)
           else if ssl_error r = SSL_ERROR_ZERO_RETURN then (Inr (), t1)
           else if ssl_error r = SSL_ERROR_SYSCALL then
             (let ec = sys_errno r in if ec = 0 then (Inr (), t1) else (Inl (from_errno ec), t1))
           else if ssl_error r = SSL_ERROR_SSL then
             (let reason = tls_session_last_reason L r
              in (Inl (from_tls_code (make_code shutdown_failed reason)), t1))
           else (Inl (make_tls_session_error L r shutdown_failed), t1)))"

definition verify_peer :: "'s openssl \<Rightarrow> 's tls_session \<Rightarrow> error_code + unit" where
  "verify_peer L t =
     (case ssl t of
        None \<Rightarrow> Inl (from_errno EINVAL)
      | Some s \<Rightarrow>
          if \<not> has_peer_certificate L s then Inl (make_tls_verify_error verify_no_peer_cert 0)
          else
            (let verify_rc = verify_result L s in
             if verify_rc \<noteq> X509_V_OK then
               (if verify_rc = X509_V_ERR_HOSTNAME_MISMATCH
                then Inl (make_tls_verify_error verify_hostname_mismatch verify_rc)
                else if verify_rc = X509_V_ERR_CERT_HAS_EXPIRED
                then Inl (make_tls_verify_error verify_cert_expired verify_rc)
                else if verify_rc = X509_V_ERR_CERT_NOT_YET_VALID
                then Inl (make_tls_verify_error verify_cert_not_yet_valid verify_rc)
                else Inl (make_tls_verify_error verify_failed verify_rc))
             else Inr ()))"

definition is_handshake_done :: "'s tls_session \<Rightarrow> bool" where
  "is_handshake_done t = handshake_done t"

definition needs_read :: "'s tls_session \<Rightarrow> bool" where "needs_read t = want_read t"
definition needs_write :: "'s tls_session \<Rightarrow> bool" where "needs_write t = want_write t"
definition tls_is_closed :: "'s tls_session \<Rightarrow> bool" where "tls_is_closed t = peer_closed t"

lemmas tls_accessors [simp] =
  is_handshake_done_def needs_read_def needs_write_def tls_is_closed_def

subsection \<open>Properties\<close>

definition exclusive_io :: "tls_io_result \<Rightarrow> bool" where
  "exclusive_io io \<longleftrightarrow>
     \<not> (closed io \<and> io_want_read io) \<and> \<not> (closed io \<and> io_want_write io) \<and>
     \<not> (io_want_read io \<and> io_want_write io)"

text \<open>What a result says about the session it leaves behind.\<close>

definition io_recorded ::
  "error_code + tls_io_result \<Rightarrow> 's tls_session \<Rightarrow> 's tls_session \<Rightarrow> bool" where
  "io_recorded res t t' \<longleftrightarrow>
     (case res of
        Inr io \<Rightarrow> exclusive_io io \<and> want_read t' = io_want_read io \<and> want_write t' = io_want_write io \<and>
          (peer_closed t' \<longleftrightarrow> peer_closed t \<or> closed io)
      | Inl _ \<Rightarrow> want_read t' = want_read t \<and> want_write t' = want_write t \<and>
          peer_closed t' = peer_closed t)"

lemma exclusive_no_io [simp]: "exclusive_io no_io" "exclusive_io (no_io\<lparr>io_byte := n\<rparr>)"
  by (simp_all add: exclusive_io_def no_io_def)

lemma from_ssl_error_exclusive: "from_ssl_error L r n = Inr io \<Longrightarrow> exclusive_io io \<and> io_byte io = n"
  by (auto simp: from_ssl_error_def exclusive_io_def Let_def split: if_splits)

lemma apply_state_simps [simp]:
  "want_read (apply_state io t) = io_want_read io"
  "want_write (apply_state io t) = io_want_write io"
  "peer_closed (apply_state io t) \<longleftrightarrow> peer_closed t \<or> closed io"
  "handshake_done (apply_state io t) = handshake_done t"
  "ssl (apply_state io t) = ssl t"
  by (simp_all add: apply_state_def Let_def)

lemma apply_result_simps [simp]:
  "handshake_done (apply_result res t) = handshake_done t"
  "ssl (apply_result res t) = ssl t"
  by (simp_all add: apply_result_def split: sum.splits)

lemma io_recorded_ssl_error:
  "io_recorded (from_ssl_error L r n) t (apply_result (from_ssl_error L r n) (t\<lparr>ssl := s\<rparr>))"
  using from_ssl_error_exclusive[of L r n]
  by (auto simp: io_recorded_def apply_result_def split: sum.splits)

lemma io_recorded_no_io:
  "io_recorded (Inr (no_io\<lparr>io_byte := n\<rparr>)) t (apply_state (no_io\<lparr>io_byte := n\<rparr>) (t\<lparr>ssl := s\<rparr>))"
  "io_recorded (Inr no_io) t (apply_state no_io t)"
  "io_recorded (Inr no_io) t (apply_state no_io (t\<lparr>ssl := s, handshake_done := d\<rparr>))"
  by (auto simp: io_recorded_def no_io_def exclusive_io_def)

lemma io_recorded_refl: "io_recorded (Inl e) t t"
  by (simp add: io_recorded_def)

lemmas io_recorded_intros = io_recorded_ssl_error io_recorded_no_io io_recorded_refl

text \<open>
  Every TLS operation leaves the session's flags in step with what it reports: a result
  asks for at most one of reading, writing or closing; the want flags of the session are
  exactly those of the result; the peer-closed flag is set by a closing result and never reset;
  an error changes none of them.
\<close>

theorem tls_flags_follow_results:
  "io_recorded (fst (handshake L t)) t (snd (handshake L t)) \<and>
   io_recorded (fst (tls_read L cap t)) t (snd (snd (tls_read L cap t))) \<and>
   io_recorded (fst (tls_write L src t)) t (snd (tls_write L src t))"
  by (auto simp: handshake_def tls_read_def tls_write_def Let_def case_prod_beta
      intro: io_recorded_intros split: option.splits)

text \<open>
  The handshake flag is set only by the library reporting a completed handshake, and once set
  no operation clears it: after \<open>handshake\<close> it holds if and only if it held before or this call
  of \<open>SSL_do_handshake\<close> returned 1, and reading, writing and shutting down leave it alone.
\<close>

theorem handshake_done_only_by_library:
  "(handshake_done (snd (handshake L t)) \<longleftrightarrow>
      handshake_done t \<or> (\<exists>s. ssl t = Some s \<and> rc (fst (do_handshake L s)) = 1)) \<and>
   handshake_done (snd (snd (tls_read L cap t))) = handshake_done t \<and>
   handshake_done (snd (tls_write L src t)) = handshake_done t \<and>
   handshake_done (snd (tls_shutdown L t)) = handshake_done t"
  by (auto simp: handshake_def tls_read_def tls_write_def tls_shutdown_def Let_def case_prod_beta
      split: option.splits)

definition expected_verify_error :: "'s openssl \<Rightarrow> 's \<Rightarrow> tls_error option" where
  "expected_verify_error L s =
     (if \<not> has_peer_certificate L s then Some verify_no_peer_cert
      else if verify_result L s = 0 then None
      else if verify_result L s = 62 then Some verify_hostname_mismatch
      else if verify_result L s = 10 then Some verify_cert_expired
      else if verify_result L s = 9 then Some verify_cert_not_yet_valid
      else Some verify_failed)"

text \<open>
  The peer is accepted only with a verified certificate: \<open>verify_peer\<close> succeeds if and only if
  the session has an SSL object, the peer presented a certificate and the library's verification
  result is \<open>X509_V_OK\<close>; otherwise its error names the reason.
\<close>

theorem verify_peer_sound:
  "case ssl t of
     None \<Rightarrow> verify_peer L t = Inl (from_errno EINVAL)
   | Some s \<Rightarrow>
       (case expected_verify_error L s of
          None \<Rightarrow> verify_peer L t = Inr ()
        | Some k \<Rightarrow> (\<exists>ec. verify_peer L t = Inl ec \<and> domain ec = tls_domain \<and> kind_of (code ec) = Some k))"
  by (simp add: verify_peer_def expected_verify_error_def make_tls_verify_error_def
      from_tls_code_def Let_def x509_constants split: option.splits)

end
