(* ===== verification/Io_Helper.thy ===== *)
theory Io_Helper
  imports Io_Buffer Tls_Session
begin

section \<open>Sockets: sending and receiving over TLS\<close>

text \<open>
  The per-connection record \<open>socket_info\<close> and the two transfer loops of \<open>net/io_helper\<close>. The
  sending loop always ends, because each turn that goes on has advanced the offset; the receiving
  loop goes on as long as the library delivers bytes, so it is a partial function, and ends
  whenever only finitely many bytes can be read without blocking. What is assumed of OpenSSL for
  the delivery theorems is stated as \<open>write_contract\<close> and \<open>read_contract\<close>.
\<close>

record endpoint =
  ep_ip :: string
  ep_port :: string

definition endpoint_to_string :: "endpoint \<Rightarrow> string" where
  "endpoint_to_string e = ep_ip e @ '':'' @ ep_port e"

record 's socket_info =
  recv :: offset_buffer
  send :: offset_buffer
  tls :: "'s tls_session"
  is_closed :: bool
  interest :: u32
  ufd :: fd
  ep :: endpoint
  user_id :: string
  nickname :: string
  joined_room_ids :: "i64 list"

record recv_info =
  ri_byte :: nat
  ri_closed :: bool

definition BUF_SIZE :: nat where "BUF_SIZE = 4096"

subsection \<open>Sending\<close>

function flush_loop ::
  "'s openssl \<Rightarrow> nat \<Rightarrow> 's socket_info \<Rightarrow> (error_code + nat) \<times> 's socket_info" where
  "flush_loop L send_byte si =
     (if \<not> has_pending (send si) then (Inr send_byte, si\<lparr>send := snd (clear_if_done (send si))\<rparr>)
      else
        (case tls_write L (take (remaining (send si)) (current_data (send si))) (tls si) of
           (Inl e, t) \<Rightarrow> (Inl e, si\<lparr>tls := t\<rparr>)
         | (Inr wr, t) \<Rightarrow>
             (let si1 = si\<lparr>tls := t\<rparr>;
                  si2 = (if io_byte wr > 0 then si1\<lparr>send := advance (io_byte wr) (send si1)\<rparr> else si1);
                  send_byte' = (if io_byte wr > 0 then send_byte + io_byte wr else send_byte)
              in if closed wr then (Inl (from_errno EPIPE), si2)
                 else if io_want_read wr \<or> io_want_write wr
                 then (Inr send_byte', si2\<lparr>send := snd (compact_if_needed (send si2))\<rparr>)
                 else if io_byte wr = 0 then (Inl (from_tls protocol_error), si2)
                 else flush_loop L send_byte' si2)))"
  by pat_completeness auto
termination
  by (relation "measure (\<lambda>(L, n, si). length (buf (send si)) - offset (send si))")
     (auto simp: has_pending_def advance_def)

declare flush_loop.simps [simp del]

definition flush_send :: "'s openssl \<Rightarrow> 's socket_info \<Rightarrow> (error_code + nat) \<times> 's socket_info" where
  "flush_send L si =
     (if ssl (tls si) = None then (Inl (from_errno EINVAL), si) else flush_loop L 0 si)"

subsection \<open>Receiving\<close>

partial_function (option) drain_loop ::
  "'s openssl \<Rightarrow> recv_info \<Rightarrow> 's socket_info \<Rightarrow> ((error_code + recv_info) \<times> 's socket_info) option"
where
  "drain_loop L ret si =
     (let (res, tmp, t) = tls_read L BUF_SIZE (tls si); si1 = si\<lparr>tls := t\<rparr> in
      case res of
        Inl e \<Rightarrow> Some (Inl e, si1)
      | Inr rd \<Rightarrow>
          if io_byte rd > 0 then
            (let si2 = si1\<lparr>recv := recv_append (take (io_byte rd) tmp) (recv si1)\<rparr>;
                 ret2 = ret\<lparr>ri_byte := ri_byte ret + io_byte rd\<rparr>
             in if io_want_read rd \<or> io_want_write rd then Some (Inr ret2, si2)
                else drain_loop L ret2 si2)
          else if closed rd then Some (Inr (ret\<lparr>ri_closed := True\<rparr>), si1)
          else Some (Inr ret, si1))"

definition drain_recv ::
  "'s openssl \<Rightarrow> 's socket_info \<Rightarrow> ((error_code + recv_info) \<times> 's socket_info) option" where
  "drain_recv L si =
     (if ssl (tls si) = None then Some (Inl (from_errno EINVAL), si)
      else drain_loop L \<lparr>ri_byte = 0, ri_closed = False\<rparr> si)"

subsection \<open>What OpenSSL promises\<close>

text \<open>
  \<open>SSL_write_ex\<close>: \<open>sent s\<close> is the plaintext the object has accepted. A call accepts a prefix of
  its argument, of the reported length, and an unsuccessful call accepts nothing.
\<close>

definition write_contract :: "'s openssl \<Rightarrow> ('s \<Rightarrow> string) \<Rightarrow> bool" where
  "write_contract L sent \<longleftrightarrow>
     (\<forall>s src r s'. write_ex L s src = (r, s') \<longrightarrow>
        byte r \<le> length src \<and> sent s' = sent s @ take (byte r) src \<and> (rc r \<noteq> 1 \<longrightarrow> byte r = 0))"

text \<open>
  \<open>SSL_read_ex\<close>: \<open>got s\<close> is the plaintext the object has delivered. A call delivers the reported
  number of bytes, at most \<open>cap\<close>, and an unsuccessful call delivers nothing.
\<close>

definition read_contract :: "'s openssl \<Rightarrow> ('s \<Rightarrow> string) \<Rightarrow> bool" where
  "read_contract L got \<longleftrightarrow>
     (\<forall>s cap r dst s'. read_ex L s cap = ((r, dst), s') \<longrightarrow>
        byte r \<le> cap \<and> length dst = byte r \<and> got s' = got s @ dst \<and> (rc r \<noteq> 1 \<longrightarrow> byte r = 0))"

text \<open>Only finitely much can be read without blocking: a measure drops with each delivery.\<close>

definition read_progress :: "'s openssl \<Rightarrow> ('s \<Rightarrow> nat) \<Rightarrow> bool" where
  "read_progress L left \<longleftrightarrow>
     (\<forall>s cap r dst s'. read_ex L s cap = ((r, dst), s') \<longrightarrow> byte r > 0 \<longrightarrow> left s' < left s)"

subsection \<open>Sending loses, repeats and reorders nothing\<close>

lemma tls_write_contract:
  assumes "write_contract L sent" and "ssl t = Some s" and "tls_write L src t = (res, t')"
  shows "\<exists>s'. ssl t' = Some s' \<and>
    (case res of Inr io \<Rightarrow> io_byte io \<le> length src \<and> sent s' = sent s @ take (io_byte io) src
     | Inl _ \<Rightarrow> sent s' = sent s)"
proof (cases "length src = 0")
  case True
  then show ?thesis using assms(2,3) by (auto simp: tls_write_def no_io_def)
next
  case False
  obtain r s' where w: "write_ex L s src = (r, s')" by (cases "write_ex L s src")
  have c: "byte r \<le> length src" "sent s' = sent s @ take (byte r) src" "rc r \<noteq> 1 \<Longrightarrow> byte r = 0"
    using assms(1) w unfolding write_contract_def by blast+
  show ?thesis using assms(2,3) False c from_ssl_error_exclusive[of L r "byte r"]
    by (auto simp: tls_write_def w Let_def no_io_def split: if_splits sum.splits)
qed

lemma flush_loop_exact:
  "write_contract L sent \<Longrightarrow> buf_ok (send si) \<Longrightarrow> ssl (tls si) = Some s \<Longrightarrow> flush_loop L n si = (res, si') \<Longrightarrow>
    \<exists>s'. ssl (tls si') = Some s' \<and> buf_ok (send si') \<and>
      sent s' @ pending (send si') = sent s @ pending (send si) \<and>
      (\<forall>m. res = Inr m \<longrightarrow> length (sent s') + n = length (sent s) + m)"
proof (induction L n si arbitrary: s res si' rule: flush_loop.induct)
  case (1 L n si)
  let ?src = "take (remaining (send si)) (current_data (send si))"
  show ?case
  proof (cases "has_pending (send si)")
    case False
    then show ?thesis using 1(3-5)
      by (auto simp: flush_loop.simps[of L n si] has_pending_iff)
  next
    case hp: True
    obtain wres t where w: "tls_write L ?src (tls si) = (wres, t)" by (cases "tls_write L ?src (tls si)")
    have src: "?src = pending (send si)" using 1(3) by (simp add: remaining_pending)
    from tls_write_contract[OF 1(2) 1(4) w] obtain s1 where s1: "ssl t = Some s1"
      and io: "case wres of Inr io \<Rightarrow> io_byte io \<le> length (pending (send si)) \<and>
          sent s1 = sent s @ take (io_byte io) (pending (send si)) | Inl _ \<Rightarrow> sent s1 = sent s"
      unfolding src by blast
    show ?thesis
    proof (cases wres)
      case (Inl e)
      then show ?thesis using 1(3,5) hp w s1 io by (auto simp: flush_loop.simps[of L n si])
    next
      case (Inr wr)
      let ?b = "io_byte wr"
      let ?si2 = "si\<lparr>tls := t, send := advance ?b (send si)\<rparr>"
      have b: "?b \<le> length (pending (send si))" "sent s1 = sent s @ take ?b (pending (send si))"
        using io Inr by simp_all
      have ok2: "buf_ok (send ?si2)" "pending (send ?si2) = drop ?b (pending (send si))" "ssl (tls ?si2) = Some s1"
        using advance_ok[OF b(1) 1(3)] s1 by simp_all
      have acc: "sent s1 @ pending (send ?si2) = sent s @ pending (send si)" by (simp add: b(2))
      have len: "length (sent s1) = length (sent s) + ?b" by (simp add: b)
      have step: "flush_loop L n si =
          (if closed wr then (Inl (from_errno EPIPE), ?si2)
           else if io_want_read wr \<or> io_want_write wr
           then (Inr (n + ?b), ?si2\<lparr>send := snd (compact_if_needed (send ?si2))\<rparr>)
           else if ?b = 0 then (Inl (from_tls protocol_error), ?si2)
           else flush_loop L (n + ?b) ?si2)"
        using hp w Inr by (simp add: flush_loop.simps[of L n si] advance_def Let_def)
      show ?thesis
      proof (cases "closed wr \<or> io_want_read wr \<or> io_want_write wr \<or> ?b = 0")
        case True
        then show ?thesis using 1(5) step ok2 acc len by (auto split: if_splits)
      next
        case False
        then have "flush_loop L (n + ?b) ?si2 = (res, si')" using 1(5) step by simp
        with 1(1)[OF _ w[symmetric] Inr refl refl refl _ _ _ 1(2), of s1 res si'] hp False ok2
        show ?thesis using acc len by (auto simp: advance_def)
      qed
    qed
  qed
qed

subsection \<open>Receiving loses, repeats and reorders nothing\<close>

lemma tls_read_contract:
  assumes "read_contract L got" and "ssl t = Some s" and "0 < cap" and "tls_read L cap t = (res, dst, t')"
  shows "\<exists>s'. ssl t' = Some s' \<and> got s' = got s @ dst \<and> length dst \<le> cap \<and>
    (case res of Inr io \<Rightarrow> io_byte io = length dst | Inl _ \<Rightarrow> dst = [])"
proof -
  obtain r d s' where w: "read_ex L s cap = ((r, d), s')" by (metis prod.exhaust)
  have c: "byte r \<le> cap" "length d = byte r" "got s' = got s @ d" "rc r \<noteq> 1 \<Longrightarrow> byte r = 0"
    using assms(1) w unfolding read_contract_def by blast+
  show ?thesis using assms(2-4) c from_ssl_error_exclusive[of L r "byte r"]
    by (auto simp: tls_read_def w Let_def no_io_def split: if_splits sum.splits)
qed

text \<open>From \<open>si\<close> to \<open>si'\<close> exactly the bytes \<open>d\<close> moved from the library to the receive buffer.\<close>

definition received :: "('s \<Rightarrow> string) \<Rightarrow> string \<Rightarrow> 's socket_info \<Rightarrow> 's socket_info \<Rightarrow> bool" where
  "received got d si si' \<longleftrightarrow>
     (\<exists>s s'. ssl (tls si) = Some s \<and> ssl (tls si') = Some s' \<and> got s' = got s @ d) \<and>
     pending (recv si') = pending (recv si) @ d \<and> buf_ok (recv si') \<and> send si' = send si"

lemma received_trans:
  "received got d si si1 \<Longrightarrow> received got e si1 si2 \<Longrightarrow> received got (d @ e) si si2"
  by (auto simp: received_def)

lemma received_step:
  assumes "read_contract L got" and "buf_ok (recv si)" and "ssl (tls si) \<noteq> None"
    and "tls_read L BUF_SIZE (tls si) = (res, tmp, t)"
  shows "case res of
      Inr io \<Rightarrow> io_byte io = length tmp \<and>
        received got tmp si (si\<lparr>tls := t, recv := recv_append tmp (recv si)\<rparr>) \<and>
        (tmp = [] \<longrightarrow> received got [] si (si\<lparr>tls := t\<rparr>))
    | Inl _ \<Rightarrow> received got [] si (si\<lparr>tls := t\<rparr>)"
proof -
  from assms(3) obtain s where s: "ssl (tls si) = Some s" by blast
  from tls_read_contract[OF assms(1) s _ assms(4)] s assms(2) show ?thesis
    by (auto simp: received_def BUF_SIZE_def split: sum.splits)
qed

text \<open>What one call of the loop promises, and that one turn keeps the promise.\<close>

definition drains ::
  "('s \<Rightarrow> string) \<Rightarrow> recv_info \<Rightarrow> 's socket_info \<Rightarrow> (error_code + recv_info) \<times> 's socket_info \<Rightarrow> bool" where
  "drains got ret si out \<longleftrightarrow>
     (\<exists>d. received got d si (snd out) \<and> (\<forall>ri. fst out = Inr ri \<longrightarrow> ri_byte ri = ri_byte ret + length d))"

lemma drains_more:
  assumes "received got tmp si si2" and "drains got (ret\<lparr>ri_byte := ri_byte ret + length tmp\<rparr>) si2 out"
  shows "drains got ret si out"
proof -
  obtain d where d: "received got d si2 (snd out)"
    and n: "\<forall>ri. fst out = Inr ri \<longrightarrow> ri_byte ri = ri_byte ret + length tmp + length d"
    using assms(2) by (auto simp: drains_def)
  have "received got (tmp @ d) si (snd out)" by (rule received_trans[OF assms(1) d])
  moreover have "\<forall>ri. fst out = Inr ri \<longrightarrow> ri_byte ri = ri_byte ret + length (tmp @ d)"
    using n unfolding length_append add.assoc .
  ultimately show ?thesis unfolding drains_def by (intro exI conjI)
qed

lemma drain_turn:
  assumes c: "read_contract L got" and ok: "buf_ok (recv si)" and s: "ssl (tls si) \<noteq> None"
    and rest: "\<And>ret2 si2. buf_ok (recv si2) \<Longrightarrow> ssl (tls si2) \<noteq> None \<Longrightarrow> f L ret2 si2 = Some out \<Longrightarrow>
      drains got ret2 si2 out"
    and eq: "(let (res, tmp, t) = tls_read L BUF_SIZE (tls si); si1 = si\<lparr>tls := t\<rparr> in
        case res of
          Inl e \<Rightarrow> Some (Inl e, si1)
        | Inr rd \<Rightarrow>
            if io_byte rd > 0 then
              (let si2 = si1\<lparr>recv := recv_append (take (io_byte rd) tmp) (recv si1)\<rparr>;
                   ret2 = ret\<lparr>ri_byte := ri_byte ret + io_byte rd\<rparr>
               in if io_want_read rd \<or> io_want_write rd then Some (Inr ret2, si2)
                  else f L ret2 si2)
            else if closed rd then Some (Inr (ret\<lparr>ri_closed := True\<rparr>), si1)
            else Some (Inr ret, si1)) = Some out"
  shows "drains got ret si out"
proof -
  obtain rres tmp t where rd: "tls_read L BUF_SIZE (tls si) = (rres, tmp, t)" by (metis prod.exhaust)
  note step = received_step[OF c ok s rd]
  show ?thesis
  proof (cases rres)
    case (Inl e)
    then have "out = (Inl e, si\<lparr>tls := t\<rparr>)" using eq by (simp add: rd Let_def)
    then show ?thesis using step Inl by (auto simp: drains_def)
  next
    case (Inr io)
    let ?si2 = "si\<lparr>tls := t, recv := recv_append tmp (recv si)\<rparr>"
    let ?ret2 = "ret\<lparr>ri_byte := ri_byte ret + length tmp\<rparr>"
    have len: "io_byte io = length tmp" and r: "received got tmp si ?si2"
      and r0: "tmp = [] \<longrightarrow> received got [] si (si\<lparr>tls := t\<rparr>)" using step Inr by simp_all
    have si2: "buf_ok (recv ?si2)" "ssl (tls ?si2) \<noteq> None" using ok r by (simp, unfold received_def, blast)
    consider "tmp = []" | "tmp \<noteq> []" "io_want_read io \<or> io_want_write io"
      | "tmp \<noteq> []" "\<not> (io_want_read io \<or> io_want_write io)" by blast
    then show ?thesis
    proof cases
      case 1
      then have "snd out = si\<lparr>tls := t\<rparr> \<and> fst out \<in> {Inr (ret\<lparr>ri_closed := True\<rparr>), Inr ret}"
        using eq len Inr by (auto simp: rd Let_def split: if_split_asm)
      then show ?thesis using r0 1 by (auto simp: drains_def intro!: exI[of _ "[]"])
    next
      case 2
      then have "out = (Inr ?ret2, ?si2)" using eq len Inr by (simp add: rd Let_def)
      then show ?thesis using r by (auto simp: drains_def)
    next
      case 3
      then have "f L ?ret2 ?si2 = Some out" using eq len Inr by (simp add: rd Let_def)
      then show ?thesis using drains_more[OF r] rest[OF si2] by blast
    qed
  qed
qed

lemma drain_loop_exact:
  fixes si :: "'s socket_info"
  assumes ret: "drain_loop L ret si = Some (res, si')" and "read_contract L got"
    and "buf_ok (recv si)" and "ssl (tls si) \<noteq> None"
  shows "\<exists>d. received got d si si' \<and> (\<forall>ri. res = Inr ri \<longrightarrow> ri_byte ri = ri_byte ret + length d)"
proof -
  define P :: "'s openssl \<Rightarrow> recv_info \<Rightarrow> 's socket_info \<Rightarrow>
      ((error_code + recv_info) \<times> 's socket_info) \<Rightarrow> bool"
    where "P L ret si out \<longleftrightarrow>
      (read_contract L got \<longrightarrow> buf_ok (recv si) \<longrightarrow> ssl (tls si) \<noteq> None \<longrightarrow> drains got ret si out)" for L ret si out
  have "P L ret si (res, si')"
  proof (rule drain_loop.raw_induct[where P = P, OF _ ret], goal_cases)
    case (1 f L ret si out)
    show ?case unfolding P_def
    proof (intro impI)
      assume c: "read_contract L got" and "buf_ok (recv si)" "ssl (tls si) \<noteq> None"
      moreover have "drains got ret2 si2 out"
        if "buf_ok (recv si2)" "ssl (tls si2) \<noteq> None" "f L ret2 si2 = Some out" for ret2 si2
        using 1(1)[OF that(3)] that(1,2) c by (simp add: P_def)
      ultimately show "drains got ret si out" using 1(2) by (rule drain_turn)
    qed
  qed
  then show ?thesis using assms by (simp add: P_def drains_def)
qed

lemma drain_loop_total:
  assumes "read_contract L got" and "read_progress L left" and "ssl (tls si) = Some s"
  shows "\<exists>out. drain_loop L ret si = Some out"
  using assms(3)
proof (induction "left s" arbitrary: s si ret rule: less_induct)
  case less
  obtain rres tmp t where rd: "tls_read L BUF_SIZE (tls si) = (rres, tmp, t)" by (metis prod.exhaust)
  show ?case
  proof (cases "\<exists>io. rres = Inr io \<and> 0 < io_byte io \<and> \<not> io_want_read io \<and> \<not> io_want_write io")
    case True
    then obtain io where io: "rres = Inr io" "0 < io_byte io" "\<not> io_want_read io" "\<not> io_want_write io"
      by blast
    obtain s' where s': "ssl t = Some s'" and "io_byte io = length tmp"
      using tls_read_contract[OF assms(1) less.prems _ rd] io by (auto simp: BUF_SIZE_def)
    have "left s' < left s"
    proof -
      obtain r d s1 where w: "read_ex L s BUF_SIZE = ((r, d), s1)" by (metis prod.exhaust)
      have "s1 = s'" using rd less.prems s' w
        by (auto simp: tls_read_def Let_def BUF_SIZE_def split: if_splits)
      moreover have "byte r > 0" using rd less.prems io w from_ssl_error_exclusive[of L r "byte r" io]
        by (auto simp: tls_read_def Let_def BUF_SIZE_def no_io_def split: if_splits)
      ultimately show ?thesis using assms(2) w unfolding read_progress_def by blast
    qed
    then show ?thesis
      using less.hyps[of s' "si\<lparr>tls := t, recv := recv_append (take (io_byte io) tmp) (recv si)\<rparr>"] s' io
      by (subst drain_loop.simps) (simp add: rd Let_def)
  next
    case False
    then show ?thesis by (subst drain_loop.simps) (auto simp: rd Let_def split: sum.splits)
  qed
qed

subsection \<open>Properties\<close>

text \<open>
  A concrete library for the witnesses: its state is the plaintext still to be delivered, the
  plaintext delivered and the plaintext accepted; a write accepts at most three bytes.
\<close>

definition pipe_report :: "int \<Rightarrow> nat \<Rightarrow> ssl_report" where
  "pipe_report r n =
     \<lparr>rc = r, byte = n, ssl_error = SSL_ERROR_WANT_READ, sys_errno = 0, last_error = 0\<rparr>"

definition pipe_ssl :: "(string \<times> string \<times> string) openssl" where
  "pipe_ssl =
     \<lparr>do_handshake = (\<lambda>s. (pipe_report 1 0, s)),
      read_ex = (\<lambda>(i, g, out) cap. let d = take cap i in
        ((pipe_report (if d = [] then 0 else 1) (length d), d), (drop cap i, g @ d, out))),
      write_ex = (\<lambda>(i, g, out) src.
        (pipe_report (if src = [] then 0 else 1) (min 3 (length src)), (i, g, out @ take 3 src))),
      ssl_shutdown = (\<lambda>s. (pipe_report 1 0, s)),
      has_peer_certificate = (\<lambda>_. True), verify_result = (\<lambda>_. 0),
      err_get_reason = (\<lambda>_. 0), err_reason_string = (\<lambda>_. None)\<rparr>"

definition pipe_session :: "string \<Rightarrow> (string \<times> string \<times> string) tls_session" where
  "pipe_session inp =
     \<lparr>ssl = Some (inp, [], []), handshake_done = True, want_read = False, want_write = False,
      peer_closed = False\<rparr>"

definition pipe_socket :: "string \<Rightarrow> string \<Rightarrow> (string \<times> string \<times> string) socket_info" where
  "pipe_socket inp outp =
     \<lparr>recv = empty_buffer, send = \<lparr>buf = outp, offset = 0\<rparr>, tls = pipe_session inp,
      is_closed = False, interest = 1, ufd = 5, ep = \<lparr>ep_ip = [], ep_port = []\<rparr>,
      user_id = [], nickname = ''guest'', joined_room_ids = []\<rparr>"

lemma pipe_write_contract: "write_contract pipe_ssl (snd \<circ> snd)"
  by (auto simp: write_contract_def pipe_ssl_def pipe_report_def min_def)

lemma pipe_read_contract: "read_contract pipe_ssl (fst \<circ> snd)"
  by (auto simp: read_contract_def pipe_ssl_def pipe_report_def Let_def)

lemma pipe_read_progress: "read_progress pipe_ssl (length \<circ> fst)"
  by (auto simp: read_progress_def pipe_ssl_def pipe_report_def Let_def)

text \<open>
  C27. Flushing a socket's send buffer loses, repeats and reorders nothing, on every outcome: the
  loop always ends; if OpenSSL accepts a prefix of what it is given, the bytes accepted so far
  followed by the bytes still pending are the same before and after, also when the flush stops
  because the connection would block, is closed or fails; and a successful flush reports exactly
  the number of bytes accepted.
\<close>

theorem flush_send_exact:
  assumes "write_contract L sent" and "buf_ok (send si)" and "ssl (tls si) = Some s"
    and "flush_send L si = (res, si')"
  shows "\<exists>s'. ssl (tls si') = Some s' \<and> buf_ok (send si') \<and>
    sent s' @ pending (send si') = sent s @ pending (send si) \<and>
    (\<forall>m. res = Inr m \<longrightarrow> length (sent s') = length (sent s) + m)"
  using flush_loop_exact[OF assms(1-3), of 0 res si'] assms(3,4) by (simp add: flush_send_def)

theorem flush_send_exact_witness:
  "\<exists>res si' s'. flush_send pipe_ssl (pipe_socket [] ''hello'') = (res, si') \<and>
     ssl (tls si') = Some s' \<and> snd (snd s') @ pending (send si') = ''hello''"
proof -
  obtain res si' where f: "flush_send pipe_ssl (pipe_socket [] ''hello'') = (res, si')"
    by (metis prod.exhaust)
  have h: "buf_ok (send (pipe_socket [] ''hello''))"
      "ssl (tls (pipe_socket [] ''hello'')) = Some ([], [], [])"
    by (simp_all add: pipe_socket_def pipe_session_def buf_ok_def)
  from flush_send_exact[OF pipe_write_contract h f] show ?thesis
    using f by (auto simp: pipe_socket_def pending_def)
qed

text \<open>
  C28. Draining a socket returns and takes over exactly what the library delivers: if reads deliver
  what they report and only finitely much can be read without blocking, \<open>drain_recv\<close> returns; the
  bytes delivered in the call are appended to the receive buffer once, in order, on success and on
  error; a successful drain reports their number; the send buffer is untouched.
\<close>

theorem drain_recv_exact:
  assumes "read_contract L got" and "read_progress L left" and "buf_ok (recv si)"
    and "ssl (tls si) = Some s"
  shows "\<exists>res si' d. drain_recv L si = Some (res, si') \<and> received got d si si' \<and>
    (\<forall>ri. res = Inr ri \<longrightarrow> ri_byte ri = length d)"
proof -
  let ?r0 = "\<lparr>ri_byte = 0, ri_closed = False\<rparr>"
  obtain res si' where out: "drain_loop L ?r0 si = Some (res, si')"
    using drain_loop_total[OF assms(1,2,4), of ?r0] by auto
  from drain_loop_exact[OF out assms(1,3)] assms(4) out show ?thesis
    by (auto simp: drain_recv_def)
qed

theorem drain_recv_exact_witness:
  "\<exists>res si' d. drain_recv pipe_ssl (pipe_socket ''abc'' []) = Some (res, si') \<and>
     received (fst \<circ> snd) d (pipe_socket ''abc'' []) si' \<and> (\<forall>ri. res = Inr ri \<longrightarrow> ri_byte ri = length d)"
proof -
  have h: "buf_ok (recv (pipe_socket ''abc'' []))"
      "ssl (tls (pipe_socket ''abc'' [])) = Some (''abc'', [], [])"
    by (simp_all add: pipe_socket_def pipe_session_def)
  from drain_recv_exact[OF pipe_read_contract pipe_read_progress h] show ?thesis .
qed

end
