(* ===== verification/Logger.thy ===== *)
theory Logger
  imports Io_Helper
begin

section \<open>Logging\<close>

text \<open>
  \<open>core/logger\<close>: a global threshold and the lines written to \<open>std::clog\<close>. The threshold is an
  atomic \<open>int\<close>, initially \<open>info\<close>. The other theories leave the log lines out of their states; the
  threshold matters there only because a suppressed log call does not read its arguments.
\<close>

datatype log_level = level_debug | level_info | level_warn | level_error

fun log_level_value :: "log_level \<Rightarrow> int" where
  "log_level_value level_debug = 0"
| "log_level_value level_info = 1"
| "log_level_value level_warn = 2"
| "log_level_value level_error = 3"

text \<open>Levels are compared by their values.\<close>

instantiation log_level :: linorder
begin

definition less_eq_log_level :: "log_level \<Rightarrow> log_level \<Rightarrow> bool" where
  "less_eq_log_level a b \<longleftrightarrow> log_level_value a \<le> log_level_value b"

definition less_log_level :: "log_level \<Rightarrow> log_level \<Rightarrow> bool" where
  "less_log_level a b \<longleftrightarrow> log_level_value a < log_level_value b"

instance
proof
  fix a b :: log_level
  show "a \<le> b \<Longrightarrow> b \<le> a \<Longrightarrow> a = b"
    by (cases a; cases b) (simp_all add: less_eq_log_level_def)
qed (auto simp: less_eq_log_level_def less_log_level_def)

end

record logger =
  g_log_level :: log_level
  clog :: "string list"

definition logger_init :: logger where
  "logger_init = \<lparr>g_log_level = level_info, clog = []\<rparr>"

definition should_log :: "log_level \<Rightarrow> log_level \<Rightarrow> bool" where
  "should_log threshold level \<longleftrightarrow> threshold \<le> level"

definition set_log_level :: "log_level \<Rightarrow> logger \<Rightarrow> logger" where
  "set_log_level level lg = lg\<lparr>g_log_level := level\<rparr>"

definition get_log_level :: "logger \<Rightarrow> log_level" where
  "get_log_level lg = g_log_level lg"

text \<open>The overloads of \<open>log_line\<close>, each as the line it writes (without the final newline).\<close>

definition bracket :: "string \<Rightarrow> string" where
  "bracket s = ''['' @ s @ ''] ''"

definition line_msg :: "string \<Rightarrow> string \<Rightarrow> string" where
  "line_msg name msg = bracket name @ msg"

definition line_ec :: "message_texts \<Rightarrow> string \<Rightarrow> error_code \<Rightarrow> string" where
  "line_ec M name ec = bracket name @ error_to_string M ec"

definition line_location :: "string \<Rightarrow> string \<Rightarrow> string \<Rightarrow> string \<Rightarrow> string" where
  "line_location name location function_name msg =
     bracket name @ bracket (location @ ''::'' @ function_name) @ msg"

definition line_msg_ec :: "message_texts \<Rightarrow> string \<Rightarrow> string \<Rightarrow> string \<Rightarrow> error_code \<Rightarrow> string" where
  "line_msg_ec M name msg function_name ec =
     bracket name @ bracket function_name @ msg @ '' '' @ error_to_string M ec"

definition line_msg_fn_ep :: "string \<Rightarrow> string \<Rightarrow> string \<Rightarrow> 's socket_info \<Rightarrow> string" where
  "line_msg_fn_ep name msg function_name si =
     bracket name @ bracket function_name @ bracket (endpoint_to_string (ep si)) @ msg"

definition line_msg_ep :: "string \<Rightarrow> string \<Rightarrow> 's socket_info \<Rightarrow> string" where
  "line_msg_ep name msg si = bracket name @ bracket (endpoint_to_string (ep si)) @ msg"

definition line_msg_ep_ec ::
  "message_texts \<Rightarrow> string \<Rightarrow> string \<Rightarrow> string \<Rightarrow> 's socket_info \<Rightarrow> error_code \<Rightarrow> string" where
  "line_msg_ep_ec M name msg function_name si ec =
     bracket name @ bracket function_name @ bracket (endpoint_to_string (ep si)) @ msg @ '' '' @
     error_to_string M ec"

definition write_at :: "log_level \<Rightarrow> string \<Rightarrow> logger \<Rightarrow> logger" where
  "write_at level line lg =
     (if should_log (g_log_level lg) level then lg\<lparr>clog := clog lg @ [line]\<rparr> else lg)"

definition log_debug :: "string \<Rightarrow> logger \<Rightarrow> logger" where
  "log_debug msg = write_at level_debug (line_msg ''DEBUG'' msg)"

definition log_debug_at :: "string \<Rightarrow> string \<Rightarrow> string \<Rightarrow> logger \<Rightarrow> logger" where
  "log_debug_at location function_name msg =
     write_at level_debug (line_location ''DEBUG'' location function_name msg)"

definition log_debug_si :: "string \<Rightarrow> string \<Rightarrow> 's socket_info \<Rightarrow> logger \<Rightarrow> logger" where
  "log_debug_si msg function_name si = write_at level_debug (line_msg_fn_ep ''DEBUG'' msg function_name si)"

definition log_info :: "string \<Rightarrow> logger \<Rightarrow> logger" where
  "log_info msg = write_at level_info (line_msg ''INFO'' msg)"

definition log_info_si :: "string \<Rightarrow> 's socket_info \<Rightarrow> logger \<Rightarrow> logger" where
  "log_info_si msg si = write_at level_info (line_msg_ep ''INFO'' msg si)"

definition log_warn :: "message_texts \<Rightarrow> error_code \<Rightarrow> logger \<Rightarrow> logger" where
  "log_warn M ec = write_at level_warn (line_ec M ''WARN'' ec)"

definition log_warn_msg :: "message_texts \<Rightarrow> string \<Rightarrow> string \<Rightarrow> error_code \<Rightarrow> logger \<Rightarrow> logger" where
  "log_warn_msg M msg function_name ec = write_at level_warn (line_msg_ec M ''WARN'' msg function_name ec)"

definition log_warn_si ::
  "message_texts \<Rightarrow> string \<Rightarrow> string \<Rightarrow> 's socket_info \<Rightarrow> error_code \<Rightarrow> logger \<Rightarrow> logger" where
  "log_warn_si M msg function_name si ec =
     write_at level_warn (line_msg_ep_ec M ''WARN'' msg function_name si ec)"

definition log_error :: "message_texts \<Rightarrow> error_code \<Rightarrow> logger \<Rightarrow> logger" where
  "log_error M ec = write_at level_error (line_ec M ''ERROR'' ec)"

definition log_error_msg :: "message_texts \<Rightarrow> string \<Rightarrow> string \<Rightarrow> error_code \<Rightarrow> logger \<Rightarrow> logger" where
  "log_error_msg M msg function_name ec = write_at level_error (line_msg_ec M ''ERROR'' msg function_name ec)"

definition log_error_si ::
  "message_texts \<Rightarrow> string \<Rightarrow> string \<Rightarrow> 's socket_info \<Rightarrow> error_code \<Rightarrow> logger \<Rightarrow> logger" where
  "log_error_si M msg function_name si ec =
     write_at level_error (line_msg_ep_ec M ''ERROR'' msg function_name si ec)"

lemmas log_defs =
  log_debug_def log_debug_at_def log_debug_si_def log_info_def log_info_si_def log_warn_def
  log_warn_msg_def log_warn_si_def log_error_def log_error_msg_def log_error_si_def

lemma should_log_mono:
  "should_log t l \<Longrightarrow> l \<le> l' \<Longrightarrow> should_log t l'"
  by (simp add: should_log_def)

lemma write_at_level [simp]: "g_log_level (write_at l x lg) = g_log_level lg"
  by (simp add: write_at_def)

lemma clog_write_at:
  "clog (write_at l x lg) = clog lg @ (if should_log (g_log_level lg) l then [x] else [])"
  by (simp add: write_at_def)

text \<open>
  Log lines are filtered by the threshold and never lost or altered: an error is written at
  every threshold; a warning is written unless the threshold is \<open>error\<close>, an informational line
  only at \<open>debug\<close> and \<open>info\<close>, a debug line only at \<open>debug\<close>; in each case what was written before
  stays and the threshold is unchanged.
\<close>

theorem log_filtering:
  "clog (log_error M ec lg) = clog lg @ [''[ERROR] '' @ error_to_string M ec] \<and>
   clog (log_warn M ec lg) =
     clog lg @ (if g_log_level lg = level_error then [] else [''[WARN] '' @ error_to_string M ec]) \<and>
   clog (log_info msg lg) =
     clog lg @ (if g_log_level lg \<in> {level_debug, level_info} then [''[INFO] '' @ msg] else []) \<and>
   clog (log_debug msg lg) =
     clog lg @ (if g_log_level lg = level_debug then [''[DEBUG] '' @ msg] else [])"
  by (cases "g_log_level lg")
     (simp_all add: log_defs clog_write_at should_log_def less_eq_log_level_def line_ec_def line_msg_def bracket_def)

end
