(* ===== verification/Os_Env.thy ===== *)
theory Os_Env
  imports Logger
begin

section \<open>The operating system, and the wakeup descriptor\<close>

text \<open>
  The system calls of the server are parameters: an \<open>env\<close> says for each call what it returns and
  how it changes the opaque state \<open>'k\<close> of the kernel. \<open>Inl e\<close> is the return value -1 with \<open>errno\<close>
  set to \<open>e\<close>. It also holds the OpenSSL library, the allocation of \<open>SSL\<close> objects and the log
  threshold, which the server never changes. On top of it stand the helpers of
  \<open>reactor/epoll_utility\<close>, \<open>reactor/epoll_wakeup\<close>, \<open>net/fd_helper\<close> and the creation of TLS sessions.
\<close>

unbundle bit_operations_syntax

record ('k, 's) env =
  k_epoll_create :: "'k \<Rightarrow> (c_int + fd) \<times> 'k"
  k_eventfd :: "'k \<Rightarrow> (c_int + fd) \<times> 'k"
  k_fcntl_getfl :: "fd \<Rightarrow> 'k \<Rightarrow> (c_int + c_int) \<times> 'k"
  k_fcntl_setfl :: "fd \<Rightarrow> c_int \<Rightarrow> 'k \<Rightarrow> (c_int + unit) \<times> 'k"
  k_getpeername :: "fd \<Rightarrow> 'k \<Rightarrow> (c_int + string) \<times> 'k"
  k_getnameinfo :: "string \<Rightarrow> 'k \<Rightarrow> (c_int + string \<times> string) \<times> 'k"
  k_epoll_add :: "fd \<Rightarrow> fd \<Rightarrow> u32 \<Rightarrow> 'k \<Rightarrow> (c_int + unit) \<times> 'k"
  k_epoll_mod :: "fd \<Rightarrow> fd \<Rightarrow> u32 \<Rightarrow> 'k \<Rightarrow> (c_int + unit) \<times> 'k"
  k_epoll_del :: "fd \<Rightarrow> fd \<Rightarrow> 'k \<Rightarrow> (c_int + unit) \<times> 'k"
  k_close :: "fd \<Rightarrow> 'k \<Rightarrow> 'k"
  k_eventfd_write :: "fd \<Rightarrow> 'k \<Rightarrow> (c_int + nat) \<times> 'k"
  k_eventfd_read :: "fd \<Rightarrow> 'k \<Rightarrow> (c_int + nat) \<times> 'k"
  k_so_error :: "fd \<Rightarrow> 'k \<Rightarrow> (c_int + c_int) \<times> 'k"
  k_ssl_new :: "'k \<Rightarrow> ('s option \<times> ssl_report) \<times> 'k"
  k_ssl_set_fd :: "'s \<Rightarrow> fd \<Rightarrow> 'k \<Rightarrow> (ssl_report \<times> 's) \<times> 'k"
  ssl_set_accept_state :: "'s \<Rightarrow> 's"
  lib :: "'s openssl"
  log_threshold :: log_level

definition O_NONBLOCK :: c_int where "O_NONBLOCK = 0x800"
definition EPOLLIN :: u32 where "EPOLLIN = 0x1"
definition EPOLLOUT :: u32 where "EPOLLOUT = 0x4"
definition EPOLLERR :: u32 where "EPOLLERR = 0x8"
definition EPOLLHUP :: u32 where "EPOLLHUP = 0x10"
definition EPOLLRDHUP :: u32 where "EPOLLRDHUP = 0x2000"

lemmas epoll_constants = EPOLLIN_def EPOLLOUT_def EPOLLERR_def EPOLLHUP_def EPOLLRDHUP_def

subsection \<open>\<open>unique_fd\<close>\<close>

text \<open>
  An owned descriptor is its number, -1 for none. The operations that close return the new kernel
  state; a move also returns what is left in the source.
\<close>

definition close_fd :: "('k, 's) env \<Rightarrow> fd \<Rightarrow> 'k \<Rightarrow> 'k" where
  "close_fd E f k = (if f \<noteq> - 1 then k_close E f k else k)"

definition ufd_reset :: "('k, 's) env \<Rightarrow> fd \<Rightarrow> fd \<Rightarrow> 'k \<Rightarrow> fd \<times> 'k" where
  "ufd_reset E new_fd f k = (new_fd, close_fd E f k)"

definition ufd_move_construct :: "fd \<Rightarrow> fd \<times> fd" where
  "ufd_move_construct other = (other, - 1)"

text \<open>\<open>*this = std::move(other)\<close> for two different objects; self-assignment does nothing.\<close>

definition ufd_move_assign :: "('k, 's) env \<Rightarrow> fd \<Rightarrow> fd \<Rightarrow> 'k \<Rightarrow> (fd \<times> fd) \<times> 'k" where
  "ufd_move_assign E this other k = (let (_, k1) = ufd_reset E (- 1) this k in ((other, - 1), k1))"

definition ufd_destroy :: "('k, 's) env \<Rightarrow> fd \<Rightarrow> 'k \<Rightarrow> 'k" where
  "ufd_destroy E f k = snd (ufd_reset E (- 1) f k)"

definition ufd_bool :: "fd \<Rightarrow> bool" where "ufd_bool f \<longleftrightarrow> f \<noteq> - 1"

lemma ufd_destroy_close [simp]: "ufd_destroy E f k = close_fd E f k"
  by (simp add: ufd_destroy_def ufd_reset_def)

subsection \<open>\<open>epoll_utility\<close>\<close>

definition set_nonblocking ::
  "('k, 's) env \<Rightarrow> fd \<Rightarrow> 'k \<Rightarrow> (error_code + unit) \<times> 'k" where
  "set_nonblocking E f k =
     (case k_fcntl_getfl E f k of
        (Inl ec, k1) \<Rightarrow> (Inl (from_errno ec), k1)
      | (Inr flags, k1) \<Rightarrow>
          (case k_fcntl_setfl E f (flags OR O_NONBLOCK) k1 of
             (Inl ec, k2) \<Rightarrow> (Inl (from_errno ec), k2)
           | (Inr _, k2) \<Rightarrow> (Inr (), k2)))"

definition lift_errno :: "(c_int + unit) \<times> 'k \<Rightarrow> (error_code + unit) \<times> 'k" where
  "lift_errno p = (case p of (Inl ec, k) \<Rightarrow> (Inl (from_errno ec), k) | (Inr u, k) \<Rightarrow> (Inr u, k))"

definition add_fd :: "('k, 's) env \<Rightarrow> fd \<Rightarrow> fd \<Rightarrow> u32 \<Rightarrow> 'k \<Rightarrow> (error_code + unit) \<times> 'k" where
  "add_fd E epf f i k = lift_errno (k_epoll_add E epf f i k)"

definition del_fd :: "('k, 's) env \<Rightarrow> fd \<Rightarrow> fd \<Rightarrow> 'k \<Rightarrow> (error_code + unit) \<times> 'k" where
  "del_fd E epf f k = lift_errno (k_epoll_del E epf f k)"

text \<open>The interest is stored in the socket before the kernel is asked, and stays on failure.\<close>

definition update_interest ::
  "('k, 's) env \<Rightarrow> fd \<Rightarrow> 's socket_info \<Rightarrow> u32 \<Rightarrow> 'k \<Rightarrow> (error_code + unit) \<times> 's socket_info \<times> 'k"
where
  "update_interest E epf si i k =
     (let f = ufd si; si' = si\<lparr>interest := i\<rparr>; (res, k') = lift_errno (k_epoll_mod E epf f i k)
      in (res, si', k'))"

subsection \<open>\<open>epoll_wakeup\<close>\<close>

text \<open>On failure the descriptors opened so far are closed by their owners' destructors.\<close>

definition wakeup_create :: "('k, 's) env \<Rightarrow> 'k \<Rightarrow> (error_code + fd \<times> fd) \<times> 'k" where
  "wakeup_create E k =
     (case k_epoll_create E k of
        (Inl ec, k1) \<Rightarrow> (Inl (from_errno ec), k1)
      | (Inr epf, k1) \<Rightarrow>
          (case k_eventfd E k1 of
             (Inl ec, k2) \<Rightarrow> (Inl (from_errno ec), close_fd E epf k2)
           | (Inr wfd, k2) \<Rightarrow>
               (case k_epoll_add E epf wfd EPOLLIN k2 of
                  (Inl ec, k3) \<Rightarrow> (Inl (from_errno ec), close_fd E epf (close_fd E wfd k3))
                | (Inr _, k3) \<Rightarrow> (Inr (epf, wfd), k3))))"

definition request_wakeup :: "('k, 's) env \<Rightarrow> fd \<Rightarrow> 'k \<Rightarrow> 'k" where
  "request_wakeup E wfd k = snd (k_eventfd_write E wfd k)"

text \<open>Reads until the descriptor reports an error (\<open>EAGAIN\<close> when it is drained) or end of file.\<close>

partial_function (option) consume_wakeup :: "('k, 's) env \<Rightarrow> fd \<Rightarrow> 'k \<Rightarrow> 'k option" where
  "consume_wakeup E wfd k =
     (case k_eventfd_read E wfd k of
        (Inl ec, k1) \<Rightarrow> Some k1
      | (Inr n, k1) \<Rightarrow> if n = 0 then Some k1 else consume_wakeup E wfd k1)"

text \<open>What a non-blocking event counter promises: it can be read only finitely often in a row.\<close>

definition eventfd_progress :: "('k, 's) env \<Rightarrow> ('k \<Rightarrow> nat) \<Rightarrow> bool" where
  "eventfd_progress E left \<longleftrightarrow>
     (\<forall>wfd k n k1. k_eventfd_read E wfd k = (Inr n, k1) \<longrightarrow> n > 0 \<longrightarrow> left k1 < left k)"

lemma consume_wakeup_total: "eventfd_progress E left \<Longrightarrow> \<exists>k'. consume_wakeup E wfd k = Some k'"
proof (induction "left k" arbitrary: k rule: less_induct)
  case less
  obtain r k1 where r: "k_eventfd_read E wfd k = (r, k1)" by (cases "k_eventfd_read E wfd k")
  show ?case
  proof (cases "\<exists>n. r = Inr n \<and> n > 0")
    case True
    then have "left k1 < left k" using less.prems r unfolding eventfd_progress_def by blast
    with less True r show ?thesis by (subst consume_wakeup.simps) auto
  next
    case False
    then show ?thesis using r by (subst consume_wakeup.simps) (auto split: sum.splits)
  qed
qed

text \<open>What a read of the counter leaves alone, the whole call leaves alone.\<close>

lemma consume_wakeup_keeps:
  assumes "\<And>f k n k1. k_eventfd_read E f k = (n, k1) \<Longrightarrow> view k1 = view k"
    and "consume_wakeup E w k = Some k'"
  shows "view k' = view k"
proof -
  define P :: "('a, 'b) env \<Rightarrow> fd \<Rightarrow> 'a \<Rightarrow> 'a \<Rightarrow> bool"
    where "P E' w k out \<longleftrightarrow> (E' = E \<longrightarrow> view out = view k)" for E' w k out
  have "P E w k k'"
  proof (rule consume_wakeup.raw_induct[where P = P, OF _ assms(2)])
    fix g E' w k out
    assume IH: "\<And>E w k out. g E w k = Some out \<Longrightarrow> P E w k out"
      and eq: "(case k_eventfd_read E' w k of
        (Inl ec, k1) \<Rightarrow> Some k1
      | (Inr n, k1) \<Rightarrow> if n = 0 then Some k1 else g E' w k1) = Some out"
    obtain q k1 where q: "k_eventfd_read E' w k = (q, k1)" by fastforce
    show "P E' w k out"
    proof (cases "\<exists>n. q = Inr n \<and> n \<noteq> 0")
      case True
      then have "P E' w k1 out" using eq q IH by auto
      then show ?thesis using assms(1) q unfolding P_def by metis
    next
      case False
      then have "out = k1" using eq q by (cases q) (auto split: if_splits)
      then show ?thesis using assms(1) q unfolding P_def by metis
    qed
  qed
  then show ?thesis by (simp add: P_def)
qed

subsection \<open>\<open>fd_helper\<close>\<close>

text \<open>\<open>getpeername\<close> is retried while it is interrupted.\<close>

partial_function (option) make_peer_endpoint ::
  "('k, 's) env \<Rightarrow> fd \<Rightarrow> 'k \<Rightarrow> ((error_code + string) \<times> 'k) option" where
  "make_peer_endpoint E f k =
     (case k_getpeername E f k of
        (Inr sa, k1) \<Rightarrow> Some (Inr sa, k1)
      | (Inl ec, k1) \<Rightarrow>
          if ec = EINTR then make_peer_endpoint E f k1 else Some (Inl (from_errno ec), k1))"

definition init_string ::
  "('k, 's) env \<Rightarrow> string \<Rightarrow> 'k \<Rightarrow> (error_code + endpoint) \<times> 'k" where
  "init_string E sa k =
     (case k_getnameinfo E sa k of
        (Inl ec, k1) \<Rightarrow> (Inl (from_gai ec), k1)
      | (Inr (ip, port), k1) \<Rightarrow> (Inr \<lparr>ep_ip = ip, ep_port = port\<rparr>, k1))"

definition getpeername_progress :: "('k, 's) env \<Rightarrow> ('k \<Rightarrow> nat) \<Rightarrow> bool" where
  "getpeername_progress E left \<longleftrightarrow>
     (\<forall>f k k1. k_getpeername E f k = (Inl EINTR, k1) \<longrightarrow> left k1 < left k)"

lemma make_peer_endpoint_total:
  "getpeername_progress E left \<Longrightarrow> \<exists>out. make_peer_endpoint E f k = Some out"
proof (induction "left k" arbitrary: k rule: less_induct)
  case less
  obtain r k1 where r: "k_getpeername E f k = (r, k1)" by (cases "k_getpeername E f k")
  show ?case
  proof (cases "r = Inl EINTR")
    case True
    then have "left k1 < left k" using less.prems r unfolding getpeername_progress_def by blast
    with less True r show ?thesis by (subst make_peer_endpoint.simps) auto
  next
    case False
    then show ?thesis using r by (subst make_peer_endpoint.simps) (auto split: sum.splits)
  qed
qed

subsection \<open>Creating a server-side TLS session\<close>

definition create_server_session ::
  "('k, 's) env \<Rightarrow> bool \<Rightarrow> fd \<Rightarrow> 'k \<Rightarrow> (error_code + 's tls_session) \<times> 'k" where
  "create_server_session E is_server f k =
     (if f < 0 \<or> \<not> is_server then (Inl (from_errno EINVAL), k)
      else
        (case k_ssl_new E k of
           ((None, r), k1) \<Rightarrow> (Inl (make_tls_session_error (lib E) r ctx_create_failed), k1)
         | ((Some raw, _), k1) \<Rightarrow>
             (let ((r, s), k2) = k_ssl_set_fd E raw f k1 in
              if rc r \<noteq> 1 then (Inl (make_tls_session_error (lib E) r set_fd_failed), k2)
              else
                (Inr \<lparr>ssl = Some (ssl_set_accept_state E s), handshake_done = False,
                      want_read = False, want_write = False, peer_closed = False\<rparr>, k2))))"

subsection \<open>What the kernel promises about one epoll instance\<close>

text \<open>
  \<open>reg k\<close> is the interest list of the epoll instance \<open>e\<close>: \<open>EPOLL_CTL_ADD\<close> extends it,
  \<open>EPOLL_CTL_DEL\<close> and closing a descriptor shrink it, \<open>EPOLL_CTL_MOD\<close> succeeds on its members, and
  no other call changes it.
\<close>

definition epoll_contract :: "('k, 's) env \<Rightarrow> fd \<Rightarrow> ('k \<Rightarrow> fd set) \<Rightarrow> bool" where
  "epoll_contract E e reg \<longleftrightarrow>
     (\<forall>f k. reg (snd (k_fcntl_getfl E f k)) = reg k) \<and>
     (\<forall>f fl k. reg (snd (k_fcntl_setfl E f fl k)) = reg k) \<and>
     (\<forall>f k. reg (snd (k_getpeername E f k)) = reg k) \<and>
     (\<forall>sa k. reg (snd (k_getnameinfo E sa k)) = reg k) \<and>
     (\<forall>f i k. reg (snd (k_epoll_add E e f i k)) =
        (if isl (fst (k_epoll_add E e f i k)) then reg k else insert f (reg k))) \<and>
     (\<forall>f i k. reg (snd (k_epoll_mod E e f i k)) = reg k) \<and>
     (\<forall>f i k. f \<in> reg k \<longrightarrow> fst (k_epoll_mod E e f i k) = Inr ()) \<and>
     (\<forall>f k. reg k - {f} \<subseteq> reg (snd (k_epoll_del E e f k))) \<and>
     (\<forall>f k. reg (k_close E f k) = reg k - {f}) \<and>
     (\<forall>f k. reg (snd (k_eventfd_write E f k)) = reg k) \<and>
     (\<forall>f k. reg (snd (k_eventfd_read E f k)) = reg k) \<and>
     (\<forall>f k. reg (snd (k_so_error E f k)) = reg k) \<and>
     (\<forall>k. reg (snd (k_ssl_new E k)) = reg k) \<and>
     (\<forall>s f k. reg (snd (k_ssl_set_fd E s f k)) = reg k)"

text \<open>A kernel for the witnesses: the interest list and the value of the event counter.\<close>

definition quiet_env :: "(fd set \<times> nat, string \<times> string \<times> string) env" where
  "quiet_env =
     \<lparr>k_epoll_create = (\<lambda>k. (Inr 3, k)), k_eventfd = (\<lambda>k. (Inr 4, k)),
      k_fcntl_getfl = (\<lambda>f k. (Inr 2, k)), k_fcntl_setfl = (\<lambda>f fl k. (Inr (), k)),
      k_getpeername = (\<lambda>f k. (Inr ''peer'', k)),
      k_getnameinfo = (\<lambda>sa k. (Inr (''127.0.0.1'', ''4000''), k)),
      k_epoll_add = (\<lambda>e f i (r, n). (Inr (), (insert f r, n))),
      k_epoll_mod = (\<lambda>e f i (r, n). (if f \<in> r then Inr () else Inl ENOENT, (r, n))),
      k_epoll_del = (\<lambda>e f (r, n). (if f \<in> r then Inr () else Inl ENOENT, (r - {f}, n))),
      k_close = (\<lambda>f (r, n). (r - {f}, n)),
      k_eventfd_write = (\<lambda>f (r, n). (Inr 8, (r, Suc n))),
      k_eventfd_read = (\<lambda>f (r, n). (if n = 0 then Inl EAGAIN else Inr 8, (r, 0))),
      k_so_error = (\<lambda>f k. (Inr 0, k)),
      k_ssl_new = (\<lambda>k. ((Some ([], [], []), pipe_report 1 0), k)),
      k_ssl_set_fd = (\<lambda>s f k. ((pipe_report 1 0, s), k)),
      ssl_set_accept_state = (\<lambda>s. s), lib = pipe_ssl, log_threshold = level_info\<rparr>"

lemma quiet_env_contract: "epoll_contract quiet_env e fst"
  by (auto simp: epoll_contract_def quiet_env_def)

lemma quiet_env_eventfd: "eventfd_progress quiet_env snd"
  by (auto simp: eventfd_progress_def quiet_env_def split: if_splits)

lemma quiet_env_getpeername: "getpeername_progress quiet_env snd"
  by (auto simp: getpeername_progress_def quiet_env_def)

end
