(* ===== verification/Fd_Index.thy ===== *)
theory Fd_Index
  imports Os_Env
begin

section \<open>Reverse indexes from keys to descriptors\<close>

text \<open>
  The registry keeps two maps from a key (a room, a user) to the set of connected descriptors
  that have it, next to the sessions that say which keys a descriptor has. An entry is created on
  the first insertion and erased with its last descriptor. The locale \<open>fd_index\<close> states what the
  registry relies on; its lemmas say that removing a descriptor's old keys and inserting the new
  ones keeps an index the mirror image of the sessions.
\<close>

type_synonym 'k index = "('k \<times> fd list) list"

text \<open>\<open>index[k].insert(f)\<close>\<close>

definition index_insert :: "'k \<Rightarrow> fd \<Rightarrow> 'k index \<Rightarrow> 'k index" where
  "index_insert k f m =
     map_put k (set_insert f (case map_of m k of None \<Rightarrow> [] | Some s \<Rightarrow> s)) m"

text \<open>
  Find the entry, erase the descriptor from it, and erase the entry when it is empty.
\<close>

definition index_erase :: "'k \<Rightarrow> fd \<Rightarrow> 'k index \<Rightarrow> 'k index" where
  "index_erase k f m =
     (case map_of m k of
        None \<Rightarrow> m
      | Some s \<Rightarrow> (let s' = removeAll f s in if s' = [] then map_erase k m else map_put k s' m))"

definition index_lookup :: "'k index \<Rightarrow> 'k \<Rightarrow> fd set" where
  "index_lookup m k = (case map_of m k of None \<Rightarrow> {} | Some s \<Rightarrow> set s)"

definition index_wf :: "'k index \<Rightarrow> bool" where
  "index_wf m \<longleftrightarrow> distinct (keys m) \<and> (\<forall>k s. map_of m k = Some s \<longrightarrow> s \<noteq> [] \<and> distinct s)"

lemma index_wf_Nil [simp]: "index_wf []"
  by (simp add: index_wf_def)

lemma index_lookup_Nil [simp]: "index_lookup [] k = {}"
  by (simp add: index_lookup_def)

lemma index_lookup_Some: "map_of m k = Some s \<Longrightarrow> index_lookup m k = set s"
  by (simp add: index_lookup_def)

lemma index_lookup_None: "index_wf m \<Longrightarrow> map_of m k = None \<longleftrightarrow> index_lookup m k = {}"
  by (auto simp: index_lookup_def index_wf_def split: option.splits)

text \<open>What a client of an index uses.\<close>

locale fd_index =
  fixes lookup :: "'m \<Rightarrow> 'k \<Rightarrow> fd set"
    and ins :: "'k \<Rightarrow> fd \<Rightarrow> 'm \<Rightarrow> 'm"
    and del :: "'k \<Rightarrow> fd \<Rightarrow> 'm \<Rightarrow> 'm"
    and wf :: "'m \<Rightarrow> bool"
  assumes wf_ins: "wf m \<Longrightarrow> wf (ins k f m)"
    and wf_del: "wf m \<Longrightarrow> wf (del k f m)"
    and lookup_ins: "lookup (ins k f m) = (lookup m)(k := insert f (lookup m k))"
    and lookup_del: "lookup (del k f m) = (lookup m)(k := lookup m k - {f})"
begin

lemma wf_fold_ins: "wf m \<Longrightarrow> wf (fold (\<lambda>k. ins k f) ks m)"
  by (induction ks arbitrary: m) (simp_all add: wf_ins)

lemma wf_fold_del: "wf m \<Longrightarrow> wf (fold (\<lambda>k. del k f) ks m)"
  by (induction ks arbitrary: m) (simp_all add: wf_del)

lemma lookup_fold_ins:
  "lookup (fold (\<lambda>k. ins k f) ks m) k' = lookup m k' \<union> (if k' \<in> set ks then {f} else {})"
  by (induction ks arbitrary: m) (auto simp: lookup_ins)

lemma lookup_fold_del:
  "lookup (fold (\<lambda>k. del k f) ks m) k' = lookup m k' - (if k' \<in> set ks then {f} else {})"
  by (induction ks arbitrary: m) (auto simp: lookup_del)

text \<open>
  The index mirrors \<open>g\<close>, the keys of each descriptor: exchanging the keys of one descriptor in
  both keeps it so.
\<close>

lemma mirror_exchange:
  assumes "\<And>k f. f \<in> lookup m k \<longleftrightarrow> k \<in> g f" and "g h = set old"
  shows "f \<in> lookup (fold (\<lambda>k. ins k h) new (fold (\<lambda>k. del k h) old m)) k \<longleftrightarrow>
    k \<in> (g(h := set new)) f"
  using assms by (auto simp: lookup_fold_ins lookup_fold_del)

lemma mirror_drop:
  assumes "\<And>k f. f \<in> lookup m k \<longleftrightarrow> k \<in> g f" and "g h = set old"
  shows "f \<in> lookup (fold (\<lambda>k. del k h) old m) k \<longleftrightarrow> k \<in> (g(h := {})) f"
  using mirror_exchange[OF assms, of f "[]" k] by simp

end

lemma index_wf_erase: "index_wf m \<Longrightarrow> index_wf (index_erase k f m)"
  by (auto simp: index_erase_def index_wf_def Let_def distinct_removeAll split: option.splits if_splits)

lemma index_wf_insert: "index_wf m \<Longrightarrow> index_wf (index_insert k f m)"
  by (auto simp: index_insert_def index_wf_def split: option.splits if_splits)

interpretation ix: fd_index index_lookup index_insert index_erase index_wf
proof unfold_locales
  fix k f and m :: "'a index"
  show "index_lookup (index_insert k f m) = (index_lookup m)(k := insert f (index_lookup m k))"
    by (auto simp: index_lookup_def index_insert_def fun_eq_iff split: option.splits)
  show "index_lookup (index_erase k f m) = (index_lookup m)(k := index_lookup m k - {f})"
    by (auto simp: index_lookup_def index_erase_def fun_eq_iff Let_def removeAll_filter_not_eq
        filter_empty_conv split: option.splits)
qed (simp_all add: index_wf_erase index_wf_insert)

end
