(* ===== verification/Epoll_Registry.thy ===== *)
theory Epoll_Registry
  imports Fd_Index
begin

section \<open>The registry of connected clients\<close>

text \<open>
  \<open>reactor/epoll_registry\<close>: the sessions by descriptor, the two reverse indexes, the number of
  clients, and the queue of commands that other threads fill and the event loop runs. Handlers
  take the environment and return the new registry; those that may touch an erased session
  return an option, \<open>None\<close> being the undefined behaviour. The kernel state is part of the
  record, so a handler's system calls are part of its effect. Maps and sets are iterated in
  insertion order.
\<close>

datatype reg_command =
  register_command fd u32
  | unregister_command fd
  | send_one_command fd command
  | broadcast_command fd command
  | change_nickname_command fd string
  | set_user_id_command fd string
  | set_joined_rooms_command fd "i64 list"
  | set_joined_rooms_for_user_command string "i64 list"
  | send_friend_list_command fd "string list"
  | room_broadcast_command fd i64 command

record ('k, 's) registry =
  cmd_q :: "reg_command list"
  infos :: "(fd \<times> 's socket_info) list"
  room_online_fds :: "i64 index"
  user_online_fds :: "string index"
  connected_client_count :: nat
  tls_ctx_is_server :: bool
  epfd :: fd
  wake_fd :: fd
  kst :: 'k

definition registry_init :: "fd \<Rightarrow> fd \<Rightarrow> bool \<Rightarrow> 'k \<Rightarrow> ('k, 's) registry" where
  "registry_init epf wfd is_server k =
     \<lparr>cmd_q = [], infos = [], room_online_fds = [], user_online_fds = [],
      connected_client_count = 0, tls_ctx_is_server = is_server, epfd = epf, wake_fd = wfd, kst = k\<rparr>"

text \<open>The session at a key, through the reference into the map.\<close>

abbreviation info :: "('k, 's) registry \<Rightarrow> fd \<Rightarrow> 's socket_info option" where
  "info R f \<equiv> map_of (infos R) f"

definition put_info :: "fd \<Rightarrow> 's socket_info \<Rightarrow> ('k, 's) registry \<Rightarrow> ('k, 's) registry" where
  "put_info f si R = R\<lparr>infos := map_put f si (infos R)\<rparr>"

definition new_socket :: "'s tls_session \<Rightarrow> u32 \<Rightarrow> fd \<Rightarrow> endpoint \<Rightarrow> 's socket_info" where
  "new_socket t i f e =
     \<lparr>recv = empty_buffer, send = empty_buffer, tls = t, is_closed = False, interest = i, ufd = f,
      ep = e, user_id = [], nickname = ''guest'', joined_room_ids = []\<rparr>"

subsection \<open>The indexes\<close>

definition remove_fd_from_room_index ::
  "'s socket_info \<Rightarrow> ('k, 's) registry \<Rightarrow> 's socket_info \<times> ('k, 's) registry" where
  "remove_fd_from_room_index si R =
     (si\<lparr>joined_room_ids := []\<rparr>,
      R\<lparr>room_online_fds :=
          fold (\<lambda>room_id. index_erase room_id (ufd si)) (joined_room_ids si) (room_online_fds R)\<rparr>)"

definition remove_fd_from_user_index ::
  "'s socket_info \<Rightarrow> ('k, 's) registry \<Rightarrow> ('k, 's) registry" where
  "remove_fd_from_user_index si R =
     (if user_id si = [] then R
      else R\<lparr>user_online_fds := index_erase (user_id si) (ufd si) (user_online_fds R)\<rparr>)"

definition join_room ::
  "i64 \<Rightarrow> 's socket_info \<times> ('k, 's) registry \<Rightarrow> 's socket_info \<times> ('k, 's) registry" where
  "join_room room_id p =
     (let (si, R) = p in
      if room_id \<le> 0 then (si, R)
      else (si\<lparr>joined_room_ids := set_insert room_id (joined_room_ids si)\<rparr>,
            R\<lparr>room_online_fds := index_insert room_id (ufd si) (room_online_fds R)\<rparr>))"

definition set_fd_joined_rooms ::
  "'s socket_info \<Rightarrow> i64 list \<Rightarrow> ('k, 's) registry \<Rightarrow> 's socket_info \<times> ('k, 's) registry" where
  "set_fd_joined_rooms si room_ids R = fold join_room room_ids (remove_fd_from_room_index si R)"

subsection \<open>Registering and unregistering\<close>

text \<open>A fallible step: an error is returned to the caller, a value goes to the next step.\<close>

definition try_step ::
  "(error_code + 'a) \<times> 'k \<Rightarrow> ('a \<Rightarrow> 'k \<Rightarrow> ((error_code + 'b) \<times> 'k) option) \<Rightarrow>
     ((error_code + 'b) \<times> 'k) option" where
  "try_step p next =
     (case p of (Inl e, k) \<Rightarrow> Some (Inl e, k) | (Inr a, k) \<Rightarrow> next a k)"

text \<open>The system calls of \<open>register_fd\<close>, up to the first that fails.\<close>

definition register_setup ::
  "('k, 's) env \<Rightarrow> fd \<Rightarrow> bool \<Rightarrow> fd \<Rightarrow> u32 \<Rightarrow> 'k \<Rightarrow>
     ((error_code + endpoint \<times> 's tls_session) \<times> 'k) option" where
  "register_setup E epf is_server f i k =
     try_step (set_nonblocking E f k) (\<lambda>_ k1. do {
       peer \<leftarrow> make_peer_endpoint E f k1;
       try_step peer (\<lambda>sa k2.
       try_step (init_string E sa k2) (\<lambda>e k3.
       try_step (add_fd E epf f i k3) (\<lambda>_ k4.
       try_step (create_server_session E is_server f k4) (\<lambda>t k5.
         Some (Inr (e, t), k5)))))
     })"

text \<open>
  \<open>register_fd\<close> owns the descriptor: every return before the insertion closes it, the one for a
  descriptor that is already registered included.
\<close>

definition register_fd ::
  "('k, 's) env \<Rightarrow> fd \<Rightarrow> u32 \<Rightarrow> ('k, 's) registry \<Rightarrow> ((error_code + fd) \<times> ('k, 's) registry) option"
where
  "register_fd E f i R =
     (let fail = (\<lambda>e k. (Inl e, R\<lparr>kst := close_fd E f k\<rparr>)) in
      if f = - 1 then Some (fail (from_errno EINVAL) (kst R))
      else if f \<in> set (keys (infos R)) then Some (fail (from_errno EEXIST) (kst R))
      else do {
        (res, k) \<leftarrow> register_setup E (epfd R) (tls_ctx_is_server R) f i (kst R);
        Some (case res of
                Inl e \<Rightarrow> fail e k
              | Inr (e, t) \<Rightarrow>
                  (let R1 = R\<lparr>infos := infos R @ [(f, new_socket t i f e)], kst := k\<rparr>
                   in (Inr f, R1\<lparr>connected_client_count := length (infos R1)\<rparr>)))
      })"

text \<open>A failing \<open>EPOLL_CTL_DEL\<close> is only logged. Erasing the session closes its descriptor.\<close>

definition unregister_fd ::
  "('k, 's) env \<Rightarrow> fd \<Rightarrow> ('k, 's) registry \<Rightarrow> (error_code + unit) \<times> ('k, 's) registry" where
  "unregister_fd E f R =
     (if f = - 1 then (Inl (from_errno EINVAL), R)
      else
        (case info R f of
           None \<Rightarrow> (Inr (), R)
         | Some si \<Rightarrow>
             (let (_, k1) = del_fd E (epfd R) f (kst R);
                  (si1, R1) = remove_fd_from_room_index si (R\<lparr>kst := k1\<rparr>);
                  R2 = remove_fd_from_user_index si1 R1;
                  R3 = R2\<lparr>infos := map_erase f (infos R2), kst := close_fd E (ufd si1) (kst R2)\<rparr>
              in (Inr (), R3\<lparr>connected_client_count := length (infos R3)\<rparr>))))"

subsection \<open>Appending to a send buffer\<close>

text \<open>\<open>f\<close> is the key under which the referenced session \<open>si\<close> is stored.\<close>

definition sync_interest ::
  "('k, 's) env \<Rightarrow> fd \<Rightarrow> 's socket_info \<Rightarrow> ('k, 's) registry \<Rightarrow>
     (error_code + unit) \<times> ('k, 's) registry" where
  "sync_interest E f si R =
     (let own = ufd si;
          (mod_exp, si1, k1) = update_interest E (epfd R) si (interest si) (kst R);
          R1 = put_info f si1 (R\<lparr>kst := k1\<rparr>)
      in case mod_exp of
           Inl e \<Rightarrow> (Inl e, snd (unregister_fd E own R1))
         | Inr _ \<Rightarrow> (Inr (), R1))"

text \<open>
  When the interest cannot be synchronised the session has been erased, and the warning that is
  then logged reads it, unless warnings are suppressed.
\<close>

definition append_send ::
  "('k, 's) env \<Rightarrow> fd \<Rightarrow> command \<Rightarrow> ('k, 's) registry \<Rightarrow>
     ((error_code + unit) \<times> ('k, 's) registry) option" where
  "append_send E f c R =
     (case info R f of
        None \<Rightarrow> None
      | Some si \<Rightarrow>
          (let (need_sync, b) = send_append_cmd c (send si); si1 = si\<lparr>send := b\<rparr> in
           if \<not> need_sync then Some (Inr (), put_info f si1 R)
           else
             (let si2 = si1\<lparr>interest := interest si1 OR EPOLLOUT\<rparr>;
                  (sync_exp, R1) = sync_interest E f si2 R
              in case sync_exp of
                   Inl e \<Rightarrow>
                     if should_log (log_threshold E) level_warn \<and> info R1 f = None then None
                     else Some (Inl e, R1)
                 | Inr _ \<Rightarrow> Some (Inr (), R1))))"

subsection \<open>Requests from other threads\<close>

definition request :: "('k, 's) env \<Rightarrow> reg_command \<Rightarrow> ('k, 's) registry \<Rightarrow> ('k, 's) registry" where
  "request E c R = R\<lparr>cmd_q := cmd_q R @ [c], kst := request_wakeup E (wake_fd R) (kst R)\<rparr>"

definition request_register :: "('k, 's) env \<Rightarrow> fd \<Rightarrow> u32 \<Rightarrow> ('k, 's) registry \<Rightarrow> ('k, 's) registry" where
  "request_register E f i = request E (register_command f i)"

definition request_unregister :: "('k, 's) env \<Rightarrow> fd \<Rightarrow> ('k, 's) registry \<Rightarrow> ('k, 's) registry" where
  "request_unregister E f = request E (unregister_command f)"

definition request_send :: "('k, 's) env \<Rightarrow> fd \<Rightarrow> command \<Rightarrow> ('k, 's) registry \<Rightarrow> ('k, 's) registry" where
  "request_send E f c = request E (send_one_command f c)"

definition request_broadcast :: "('k, 's) env \<Rightarrow> fd \<Rightarrow> command \<Rightarrow> ('k, 's) registry \<Rightarrow> ('k, 's) registry" where
  "request_broadcast E f c = request E (broadcast_command f c)"

definition request_change_nickname :: "('k, 's) env \<Rightarrow> fd \<Rightarrow> string \<Rightarrow> ('k, 's) registry \<Rightarrow> ('k, 's) registry" where
  "request_change_nickname E f nick = request E (change_nickname_command f nick)"

definition request_set_user_id :: "('k, 's) env \<Rightarrow> fd \<Rightarrow> string \<Rightarrow> ('k, 's) registry \<Rightarrow> ('k, 's) registry" where
  "request_set_user_id E f uid = request E (set_user_id_command f uid)"

definition request_set_joined_rooms :: "('k, 's) env \<Rightarrow> fd \<Rightarrow> i64 list \<Rightarrow> ('k, 's) registry \<Rightarrow> ('k, 's) registry" where
  "request_set_joined_rooms E f rooms = request E (set_joined_rooms_command f rooms)"

definition request_set_joined_rooms_for_user ::
  "('k, 's) env \<Rightarrow> string \<Rightarrow> i64 list \<Rightarrow> ('k, 's) registry \<Rightarrow> ('k, 's) registry" where
  "request_set_joined_rooms_for_user E uid rooms = request E (set_joined_rooms_for_user_command uid rooms)"

definition request_send_friend_list ::
  "('k, 's) env \<Rightarrow> fd \<Rightarrow> string list \<Rightarrow> ('k, 's) registry \<Rightarrow> ('k, 's) registry" where
  "request_send_friend_list E f ids = request E (send_friend_list_command f ids)"

definition request_room_broadcast ::
  "('k, 's) env \<Rightarrow> fd \<Rightarrow> i64 \<Rightarrow> command \<Rightarrow> ('k, 's) registry \<Rightarrow> ('k, 's) registry" where
  "request_room_broadcast E f room c = request E (room_broadcast_command f room c)"

lemmas request_defs =
  request_register_def request_unregister_def request_send_def request_broadcast_def
  request_change_nickname_def request_set_user_id_def request_set_joined_rooms_def
  request_set_joined_rooms_for_user_def request_send_friend_list_def request_room_broadcast_def

subsection \<open>The handlers\<close>

definition handle_register ::
  "('k, 's) env \<Rightarrow> fd \<Rightarrow> u32 \<Rightarrow> ('k, 's) registry \<Rightarrow> ('k, 's) registry option" where
  "handle_register E f i R = map_option snd (register_fd E f i R)"

definition handle_unregister :: "('k, 's) env \<Rightarrow> fd \<Rightarrow> ('k, 's) registry \<Rightarrow> ('k, 's) registry option" where
  "handle_unregister E f R = Some (snd (unregister_fd E f R))"

definition handle_send_one ::
  "('k, 's) env \<Rightarrow> fd \<Rightarrow> command \<Rightarrow> ('k, 's) registry \<Rightarrow> ('k, 's) registry option" where
  "handle_send_one E f c R =
     (case info R f of None \<Rightarrow> Some R | Some _ \<Rightarrow> map_option snd (append_send E f c R))"

text \<open>
  The range-based loop over the sessions: after the body the iterator is advanced, which is
  undefined when its element has been erased.
\<close>

fun broadcast_loop ::
  "('k, 's) env \<Rightarrow> command \<Rightarrow> fd list \<Rightarrow> ('k, 's) registry \<Rightarrow> ('k, 's) registry option" where
  "broadcast_loop E c [] R = Some R"
| "broadcast_loop E c (f # fs) R = do {
     (_, R1) \<leftarrow> append_send E f c R;
     if info R1 f = None then None else broadcast_loop E c fs R1
   }"

definition sender_nickname :: "fd \<Rightarrow> ('k, 's) registry \<Rightarrow> string" where
  "sender_nickname f R =
     (case info R f of
        None \<Rightarrow> ''guest''
      | Some si \<Rightarrow> if nickname si \<noteq> [] then nickname si else ''guest'')"

definition named_payload :: "fd \<Rightarrow> command \<Rightarrow> ('k, 's) registry \<Rightarrow> command" where
  "named_payload f c R =
     (case c of cmd_response txt \<Rightarrow> cmd_response (sender_nickname f R @ '': '' @ txt) | _ \<Rightarrow> c)"

definition handle_broadcast ::
  "('k, 's) env \<Rightarrow> fd \<Rightarrow> command \<Rightarrow> ('k, 's) registry \<Rightarrow> ('k, 's) registry option" where
  "handle_broadcast E f c R =
     (case c of
        cmd_response txt \<Rightarrow> broadcast_loop E (named_payload f c R) (keys (infos R)) R
      | _ \<Rightarrow> broadcast_loop E c (keys (infos R)) R)"

definition handle_change_nickname ::
  "fd \<Rightarrow> string \<Rightarrow> ('k, 's) registry \<Rightarrow> ('k, 's) registry option" where
  "handle_change_nickname f nick R =
     Some (case info R f of None \<Rightarrow> R | Some si \<Rightarrow> put_info f (si\<lparr>nickname := nick\<rparr>) R)"

definition handle_set_user_id ::
  "fd \<Rightarrow> string \<Rightarrow> ('k, 's) registry \<Rightarrow> ('k, 's) registry option" where
  "handle_set_user_id f uid R =
     Some (case info R f of
        None \<Rightarrow> R
      | Some si \<Rightarrow>
          (let R1 = remove_fd_from_user_index si R;
               (si2, R2) = set_fd_joined_rooms si [] R1;
               si3 = si2\<lparr>user_id := uid\<rparr>;
               R3 = put_info f si3 R2
           in if user_id si3 \<noteq> []
              then R3\<lparr>user_online_fds := index_insert (user_id si3) (ufd si3) (user_online_fds R3)\<rparr>
              else R3))"

definition set_rooms_at :: "i64 list \<Rightarrow> fd \<Rightarrow> ('k, 's) registry \<Rightarrow> ('k, 's) registry" where
  "set_rooms_at room_ids f R =
     (case info R f of
        None \<Rightarrow> R
      | Some si \<Rightarrow> (let (si1, R1) = set_fd_joined_rooms si room_ids R in put_info f si1 R1))"

definition handle_set_joined_rooms ::
  "fd \<Rightarrow> i64 list \<Rightarrow> ('k, 's) registry \<Rightarrow> ('k, 's) registry option" where
  "handle_set_joined_rooms f room_ids R = Some (set_rooms_at room_ids f R)"

definition handle_set_joined_rooms_for_user ::
  "string \<Rightarrow> i64 list \<Rightarrow> ('k, 's) registry \<Rightarrow> ('k, 's) registry option" where
  "handle_set_joined_rooms_for_user uid room_ids R =
     Some (case map_of (user_online_fds R) uid of
        None \<Rightarrow> R
      | Some fds \<Rightarrow> fold (set_rooms_at room_ids) fds R)"

definition friend_line :: "string \<Rightarrow> ('k, 's) registry \<Rightarrow> command" where
  "friend_line friend_id R =
     (let is_online = map_of (user_online_fds R) friend_id \<noteq> None
      in cmd_response (''friend: '' @ friend_id @ '' ('' @
           (if is_online then ''online'' else ''offline'') @ '')''))"

text \<open>A failed append is skipped, but the next turn goes through the same iterator again.\<close>

fun friend_loop ::
  "('k, 's) env \<Rightarrow> fd \<Rightarrow> string list \<Rightarrow> ('k, 's) registry \<Rightarrow> ('k, 's) registry option" where
  "friend_loop E f [] R = Some R"
| "friend_loop E f (friend_id # ids) R = do {
     (_, R1) \<leftarrow> append_send E f (friend_line friend_id R) R;
     friend_loop E f ids R1
   }"

definition handle_send_friend_list ::
  "('k, 's) env \<Rightarrow> fd \<Rightarrow> string list \<Rightarrow> ('k, 's) registry \<Rightarrow> ('k, 's) registry option" where
  "handle_send_friend_list E f friend_ids R =
     (case info R f of
        None \<Rightarrow> Some R
      | Some _ \<Rightarrow> do {
          (header_exp, R1) \<leftarrow>
            append_send E f (cmd_response (''friends: '' @ to_string (int (length friend_ids)))) R;
          (case header_exp of Inl _ \<Rightarrow> Some R1 | Inr _ \<Rightarrow> friend_loop E f friend_ids R1)
        })"

text \<open>The loop over the copied set of targets looks each one up again.\<close>

fun targets_loop ::
  "('k, 's) env \<Rightarrow> command \<Rightarrow> fd list \<Rightarrow> ('k, 's) registry \<Rightarrow> ('k, 's) registry option" where
  "targets_loop E c [] R = Some R"
| "targets_loop E c (f # fs) R =
     (case info R f of
        None \<Rightarrow> targets_loop E c fs R
      | Some _ \<Rightarrow> do { (_, R1) \<leftarrow> append_send E f c R; targets_loop E c fs R1 })"

definition handle_room_broadcast ::
  "('k, 's) env \<Rightarrow> fd \<Rightarrow> i64 \<Rightarrow> command \<Rightarrow> ('k, 's) registry \<Rightarrow> ('k, 's) registry option" where
  "handle_room_broadcast E sender_fd room_id c R =
     (case map_of (room_online_fds R) room_id of
        None \<Rightarrow> Some R
      | Some targets \<Rightarrow> targets_loop E (named_payload sender_fd c R) targets R)"

fun handle_command ::
  "('k, 's) env \<Rightarrow> reg_command \<Rightarrow> ('k, 's) registry \<Rightarrow> ('k, 's) registry option" where
  "handle_command E (register_command f i) R = handle_register E f i R"
| "handle_command E (unregister_command f) R = handle_unregister E f R"
| "handle_command E (send_one_command f c) R = handle_send_one E f c R"
| "handle_command E (broadcast_command f c) R = handle_broadcast E f c R"
| "handle_command E (change_nickname_command f nick) R = handle_change_nickname f nick R"
| "handle_command E (set_user_id_command f uid) R = handle_set_user_id f uid R"
| "handle_command E (set_joined_rooms_command f rooms) R = handle_set_joined_rooms f rooms R"
| "handle_command E (set_joined_rooms_for_user_command uid rooms) R =
     handle_set_joined_rooms_for_user uid rooms R"
| "handle_command E (send_friend_list_command f ids) R = handle_send_friend_list E f ids R"
| "handle_command E (room_broadcast_command f room c) R = handle_room_broadcast E f room c R"

fun run_commands ::
  "('k, 's) env \<Rightarrow> reg_command list \<Rightarrow> ('k, 's) registry \<Rightarrow> ('k, 's) registry option" where
  "run_commands E [] R = Some R"
| "run_commands E (c # cs) R = do { R1 \<leftarrow> handle_command E c R; run_commands E cs R1 }"

text \<open>
  The queue is swapped with an empty one under the lock, so commands that arrive while the batch
  runs wait for the next call.
\<close>

definition work :: "('k, 's) env \<Rightarrow> ('k, 's) registry \<Rightarrow> ('k, 's) registry option" where
  "work E R = do {
     k1 \<leftarrow> consume_wakeup E (wake_fd R) (kst R);
     let pending_cmd = cmd_q R;
     run_commands E pending_cmd (R\<lparr>kst := k1, cmd_q := []\<rparr>)
   }"

end
