(* ===== verification/Work_Queue.thy ===== *)
theory Work_Queue
  imports Epoll_Registry "HOL-Library.Multiset"
begin

section \<open>Worker queues\<close>

text \<open>
  The three producer/consumer queues of the program: \<open>core/thread_pool\<close>, the queue of
  \<open>database/db_executor\<close>, and the client's \<open>chat_executor\<close>. What a worker does under the lock
  when its \<open>cv.wait\<close> returns is one step, \<open>wait_outcome\<close>: it goes back to sleep, leaves, or takes
  the first task. The locale \<open>worker_queue\<close> states the interface; its lemmas say that tasks are
  taken in the order in which they were accepted, none is lost or duplicated, and a worker leaves
  only when nothing is left. The second part puts sleeping workers and notifications around a
  pool and shows that no wakeup is lost.
\<close>

datatype 't wait_outcome = keep_waiting | leave_loop | take_task 't

subsection \<open>The pools\<close>

record 't pool =
  tasks :: "'t list"
  run :: bool

definition pool_init :: "'t pool" where
  "pool_init = \<lparr>tasks = [], run = True\<rparr>"

text \<open>The number of workers a pool of requested size starts.\<close>

definition pool_size :: "nat \<Rightarrow> nat" where
  "pool_size sz = (if sz = 0 then 1 else sz)"

definition pool_push :: "'t \<Rightarrow> 't pool \<Rightarrow> bool \<times> 't pool" where
  "pool_push t q = (if \<not> run q then (False, q) else (True, q\<lparr>tasks := tasks q @ [t]\<rparr>))"

text \<open>\<open>stop\<close> up to the notification; the result says whether this call goes on to join.\<close>

definition pool_stop :: "'t pool \<Rightarrow> bool \<times> 't pool" where
  "pool_stop q = (if \<not> run q then (False, q) else (True, q\<lparr>run := False\<rparr>))"

definition pool_wait :: "bool \<Rightarrow> 't pool \<Rightarrow> 't wait_outcome \<times> 't pool" where
  "pool_wait stop_requested q =
     (if \<not> (\<not> run q \<or> stop_requested \<or> tasks q \<noteq> []) then (keep_waiting, q)
      else if (\<not> run q \<or> stop_requested) \<and> tasks q = [] then (leave_loop, q)
      else (take_task (hd (tasks q)), q\<lparr>tasks := tl (tasks q)\<rparr>))"

subsection \<open>\<open>thread_pool\<close>\<close>

record pool_task =
  p_cmd :: command
  p_fd :: fd

definition is_pool_command :: "command \<Rightarrow> bool" where
  "is_pool_command c = False"

definition thread_pool_enqueue :: "command \<Rightarrow> fd \<Rightarrow> pool_task pool \<Rightarrow> bool \<times> pool_task pool" where
  "thread_pool_enqueue c f = pool_push \<lparr>p_cmd = c, p_fd = f\<rparr>"

definition thread_pool_enqueue_si :: "command \<Rightarrow> 's socket_info \<Rightarrow> pool_task pool \<Rightarrow> bool \<times> pool_task pool" where
  "thread_pool_enqueue_si c si = thread_pool_enqueue c (ufd si)"

text \<open>The requests a task makes of the registry.\<close>

definition thread_pool_execute :: "pool_task \<Rightarrow> reg_command list" where
  "thread_pool_execute t =
     (case p_cmd t of
        cmd_say room txt \<Rightarrow> [broadcast_command (p_fd t) (cmd_response txt)]
      | cmd_nick n \<Rightarrow> [change_nickname_command (p_fd t) n]
      | _ \<Rightarrow> [])"

subsection \<open>The queue of \<open>db_executor\<close>\<close>

record db_task =
  t_cmd :: command
  t_fd :: fd
  t_user_id :: string

fun is_db_command :: "command \<Rightarrow> bool" where
  "is_db_command (cmd_login _ _) = True"
| "is_db_command (cmd_register _ _) = True"
| "is_db_command (cmd_say _ _) = True"
| "is_db_command (cmd_nick _) = True"
| "is_db_command (cmd_friend_request _) = True"
| "is_db_command (cmd_friend_accept _) = True"
| "is_db_command (cmd_friend_reject _) = True"
| "is_db_command (cmd_friend_remove _) = True"
| "is_db_command cmd_list_friend = True"
| "is_db_command cmd_list_friend_request = True"
| "is_db_command (cmd_create_room _) = True"
| "is_db_command (cmd_delete_room _) = True"
| "is_db_command (cmd_invite_room _ _) = True"
| "is_db_command (cmd_leave_room _) = True"
| "is_db_command cmd_list_room = True"
| "is_db_command (cmd_history _ _) = True"
| "is_db_command _ = False"

definition db_enqueue :: "command \<Rightarrow> fd \<Rightarrow> db_task pool \<Rightarrow> bool \<times> db_task pool" where
  "db_enqueue c f q =
     (if \<not> is_db_command c then (False, q)
      else pool_push \<lparr>t_cmd = c, t_fd = f, t_user_id = []\<rparr> q)"

text \<open>The user of the session is copied into the task when the command is queued.\<close>

definition db_enqueue_si :: "command \<Rightarrow> 's socket_info \<Rightarrow> db_task pool \<Rightarrow> bool \<times> db_task pool" where
  "db_enqueue_si c si q =
     (if \<not> is_db_command c then (False, q)
      else pool_push \<lparr>t_cmd = c, t_fd = ufd si, t_user_id = user_id si\<rparr> q)"

subsection \<open>The client's \<open>chat_executor\<close>\<close>

record chat_queue =
  execute_q :: "command list"
  stop_requested :: bool

definition request_execute :: "command \<Rightarrow> chat_queue \<Rightarrow> chat_queue" where
  "request_execute c q = q\<lparr>execute_q := execute_q q @ [c]\<rparr>"

definition chat_wait :: "chat_queue \<Rightarrow> command wait_outcome \<times> chat_queue" where
  "chat_wait q =
     (if \<not> (stop_requested q \<or> execute_q q \<noteq> []) then (keep_waiting, q)
      else if stop_requested q \<and> execute_q q = [] then (leave_loop, q)
      else (take_task (hd (execute_q q)), q\<lparr>execute_q := tl (execute_q q)\<rparr>))"

subsection \<open>The interface\<close>

datatype 't queue_event = push_event 't | wait_event

locale worker_queue =
  fixes content :: "'q \<Rightarrow> 't list"
    and push :: "'t \<Rightarrow> 'q \<Rightarrow> bool \<times> 'q"
    and wait :: "'q \<Rightarrow> 't wait_outcome \<times> 'q"
    and stopping :: "'q \<Rightarrow> bool"
    and play :: "'t queue_event list \<Rightarrow> 'q \<Rightarrow> 't list \<times> 't list \<times> 'q"
  assumes push_content: "push t q = (b, q') \<Longrightarrow> content q' = (if b then content q @ [t] else content q)"
    and wait_keeps: "wait q = (keep_waiting, q') \<Longrightarrow> q' = q \<and> content q = [] \<and> \<not> stopping q"
    and wait_leaves: "wait q = (leave_loop, q') \<Longrightarrow> q' = q \<and> content q = [] \<and> stopping q"
    and wait_takes: "wait q = (take_task t, q') \<Longrightarrow> content q = t # content q'"
    and play_Nil: "play [] q = ([], [], q)"
    and play_push: "play (push_event t # es) q =
      (let (b, q1) = push t q; (acc, out, q2) = play es q1 in (if b then t # acc else acc, out, q2))"
    and play_wait: "play (wait_event # es) q =
      (let (w, q1) = wait q; (acc, out, q2) = play es q1
       in (acc, (case w of take_task t \<Rightarrow> t # out | _ \<Rightarrow> out), q2))"
begin

lemma fifo: "play es q = (acc, out, q') \<Longrightarrow> content q @ acc = out @ content q'"
proof (induction es arbitrary: q acc out q')
  case Nil
  then show ?case by (simp add: play_Nil)
next
  case (Cons e es)
  show ?case
  proof (cases e)
    case (push_event t)
    obtain b q1 where p: "push t q = (b, q1)" by fastforce
    obtain acc1 out1 q2 where r: "play es q1 = (acc1, out1, q2)" by (metis prod_cases3)
    show ?thesis using Cons.prems Cons.IH[OF r] push_content[OF p]
      by (auto simp: push_event play_push p r split: if_splits)
  next
    case wait_event
    obtain w q1 where p: "wait q = (w, q1)" by fastforce
    obtain acc1 out1 q2 where r: "play es q1 = (acc1, out1, q2)" by (metis prod_cases3)
    have "content q = (case w of take_task t \<Rightarrow> [t] | _ \<Rightarrow> []) @ content q1"
      using wait_keeps[of q q1] wait_leaves[of q q1] wait_takes[of q _ q1] p
      by (cases w) auto
    then show ?thesis using Cons.prems Cons.IH[OF r]
      by (auto simp: wait_event play_wait p r split: wait_outcome.splits)
  qed
qed

text \<open>When a worker leaves the loop, every accepted task has been taken, in order.\<close>

lemma drained_when_leaving:
  assumes "play es q = (acc, out, q')" and "content q = []" and "wait q' = (leave_loop, q'')"
  shows "out = acc"
  using fifo[OF assms(1)] wait_leaves[OF assms(3)] assms(2) by simp

end

fun pool_play :: "bool \<Rightarrow> 't queue_event list \<Rightarrow> 't pool \<Rightarrow> 't list \<times> 't list \<times> 't pool" where
  "pool_play st [] q = ([], [], q)"
| "pool_play st (push_event t # es) q =
     (let (b, q1) = pool_push t q; (acc, out, q2) = pool_play st es q1
      in (if b then t # acc else acc, out, q2))"
| "pool_play st (wait_event # es) q =
     (let (w, q1) = pool_wait st q; (acc, out, q2) = pool_play st es q1
      in (acc, (case w of take_task t \<Rightarrow> t # out | _ \<Rightarrow> out), q2))"

fun chat_play :: "command queue_event list \<Rightarrow> chat_queue \<Rightarrow> command list \<times> command list \<times> chat_queue" where
  "chat_play [] q = ([], [], q)"
| "chat_play (push_event t # es) q =
     (let (acc, out, q2) = chat_play es (request_execute t q) in (t # acc, out, q2))"
| "chat_play (wait_event # es) q =
     (let (w, q1) = chat_wait q; (acc, out, q2) = chat_play es q1
      in (acc, (case w of take_task t \<Rightarrow> t # out | _ \<Rightarrow> out), q2))"

interpretation pool_queue: worker_queue tasks pool_push "pool_wait st"
  "\<lambda>q. \<not> run q \<or> st" "pool_play st" for st
  by unfold_locales (auto simp: pool_push_def pool_wait_def split: if_splits)

interpretation chat_queue: worker_queue execute_q "\<lambda>t q. (True, request_execute t q)" chat_wait
  stop_requested chat_play
  by unfold_locales (auto simp: request_execute_def chat_wait_def split: if_splits)

subsection \<open>Workers that sleep\<close>

text \<open>
  Around a pool: each worker is awake (about to evaluate the predicate of \<open>cv.wait\<close> under the lock),
  asleep in \<open>cv.wait\<close>, executing a task, or gone. \<open>notify_one\<close> and \<open>notify_all\<close> are pending until
  they are delivered, after the lock was released. A notification for which nobody sleeps is lost,
  and workers may wake up spuriously. \<open>accepted\<close>, \<open>taken\<close> and \<open>finished\<close> record what happened.
\<close>

datatype 't worker = awake | asleep | executing 't | exited

record 't pool_system =
  pool :: "'t pool"
  workers :: "'t worker list"
  waking :: nat
  all_note :: bool
  accepted :: "'t list"
  taken :: "'t list"
  finished :: "'t list"

definition pool_system_init :: "nat \<Rightarrow> 't pool_system" where
  "pool_system_init sz =
     \<lparr>pool = pool_init, workers = replicate (pool_size sz) awake, waking = 0, all_note = False,
      accepted = [], taken = [], finished = []\<rparr>"

text \<open>What the pool does by itself, and what its users do to it.\<close>

inductive worker_step :: "'t pool_system \<Rightarrow> 't pool_system \<Rightarrow> bool" where
  deliver: "waking s = Suc n \<Longrightarrow> i < length (workers s) \<Longrightarrow> workers s ! i = asleep \<Longrightarrow>
     worker_step s (s\<lparr>waking := n, workers := (workers s)[i := awake]\<rparr>)"
| deliver_nobody: "waking s = Suc n \<Longrightarrow> asleep \<notin> set (workers s) \<Longrightarrow> worker_step s (s\<lparr>waking := n\<rparr>)"
| deliver_all: "all_note s \<Longrightarrow> worker_step s
     (s\<lparr>all_note := False, workers := map (\<lambda>w. if w = asleep then awake else w) (workers s)\<rparr>)"
| sleep: "i < length (workers s) \<Longrightarrow> workers s ! i = awake \<Longrightarrow>
     pool_wait False (pool s) = (keep_waiting, q') \<Longrightarrow>
     worker_step s (s\<lparr>workers := (workers s)[i := asleep]\<rparr>)"
| take: "i < length (workers s) \<Longrightarrow> workers s ! i = awake \<Longrightarrow>
     pool_wait False (pool s) = (take_task t, q') \<Longrightarrow>
     worker_step s (s\<lparr>pool := q', workers := (workers s)[i := executing t], taken := taken s @ [t]\<rparr>)"
| leave: "i < length (workers s) \<Longrightarrow> workers s ! i = awake \<Longrightarrow>
     pool_wait False (pool s) = (leave_loop, q') \<Longrightarrow>
     worker_step s (s\<lparr>workers := (workers s)[i := exited]\<rparr>)"
| finish: "i < length (workers s) \<Longrightarrow> workers s ! i = executing t \<Longrightarrow>
     worker_step s (s\<lparr>workers := (workers s)[i := awake], finished := finished s @ [t]\<rparr>)"

inductive user_step :: "'t pool_system \<Rightarrow> 't pool_system \<Rightarrow> bool" where
  submit: "pool_push t (pool s) = (True, q') \<Longrightarrow>
     user_step s (s\<lparr>pool := q', waking := Suc (waking s), accepted := accepted s @ [t]\<rparr>)"
| refused: "pool_push t (pool s) = (False, q') \<Longrightarrow> user_step s s"
| stop: "pool_stop (pool s) = (True, q') \<Longrightarrow> user_step s (s\<lparr>pool := q', all_note := True\<rparr>)"
| spurious: "i < length (workers s) \<Longrightarrow> workers s ! i = asleep \<Longrightarrow>
     user_step s (s\<lparr>workers := (workers s)[i := awake]\<rparr>)"

inductive pool_reachable :: "nat \<Rightarrow> 't pool_system \<Rightarrow> bool" for sz where
  init: "pool_reachable sz (pool_system_init sz)"
| by_worker: "pool_reachable sz s \<Longrightarrow> worker_step s s' \<Longrightarrow> pool_reachable sz s'"
| by_user: "pool_reachable sz s \<Longrightarrow> user_step s s' \<Longrightarrow> pool_reachable sz s'"

definition task_of :: "'t worker \<Rightarrow> 't list" where
  "task_of w = (case w of executing t \<Rightarrow> [t] | _ \<Rightarrow> [])"

definition in_hand :: "'t worker list \<Rightarrow> 't multiset" where
  "in_hand ws = mset (concat (map task_of ws))"

definition pool_inv :: "'t pool_system \<Rightarrow> bool" where
  "pool_inv s \<longleftrightarrow>
     workers s \<noteq> [] \<and> accepted s = taken s @ tasks (pool s) \<and>
     mset (taken s) = mset (finished s) + in_hand (workers s) \<and>
     (tasks (pool s) \<noteq> [] \<longrightarrow> waking s > 0 \<or> all_note s \<or> (\<exists>w \<in> set (workers s). w \<noteq> asleep)) \<and>
     (\<not> run (pool s) \<longrightarrow> all_note s \<or> asleep \<notin> set (workers s)) \<and>
     (exited \<in> set (workers s) \<longrightarrow> \<not> run (pool s) \<and> tasks (pool s) = [])"

lemma in_hand_upd:
  "i < length ws \<Longrightarrow>
   in_hand (ws[i := w]) + mset (task_of (ws ! i)) = in_hand ws + mset (task_of w)"
  unfolding in_hand_def
  by (induction ws arbitrary: i) (auto simp: nth_Cons' split: nat.splits)

lemma task_of_simps [simp]:
  "task_of awake = []" "task_of asleep = []" "task_of exited = []" "task_of (executing t) = [t]"
  by (simp_all add: task_of_def)

lemma in_hand_wake: "in_hand (map (\<lambda>w. if w = asleep then awake else w) ws) = in_hand ws"
  unfolding in_hand_def by (induction ws) auto

lemma set_upd: "i < length ws \<Longrightarrow> x \<in> set (ws[i := w]) \<Longrightarrow> x = w \<or> x \<in> set ws"
  using set_update_subset_insert[of ws i w] by blast

lemma upd_mem: "i < length ws \<Longrightarrow> w \<in> set (ws[i := w])"
  by (simp add: set_update_memI)

lemma wait_cases:
  "pool_wait False q = (keep_waiting, q') \<longleftrightarrow> q' = q \<and> run q \<and> tasks q = []"
  "pool_wait False q = (leave_loop, q') \<longleftrightarrow> q' = q \<and> \<not> run q \<and> tasks q = []"
  "pool_wait False q = (take_task t, q') \<longleftrightarrow> (\<exists>ts. tasks q = t # ts \<and> q' = q\<lparr>tasks := ts\<rparr>)"
  by (cases "tasks q"; auto simp: pool_wait_def)+

lemma worker_step_inv:
  assumes "worker_step s s'" and "pool_inv s"
  shows "pool_inv s'"
  using assms
proof (induction rule: worker_step.induct)
  case (deliver s n i)
  then show ?case using in_hand_upd[OF deliver(2), of awake] upd_mem[OF deliver(2), of awake]
    by (auto simp: pool_inv_def dest: set_upd[OF deliver(2)])
next
  case (deliver_nobody s n)
  then have "hd (workers s) \<in> set (workers s)" by (simp add: pool_inv_def)
  then have "\<exists>w \<in> set (workers s). w \<noteq> asleep" using deliver_nobody(2) by metis
  with deliver_nobody show ?case by (auto simp: pool_inv_def)
next
  case (deliver_all s)
  have "\<exists>w \<in> set (map (\<lambda>w. if w = asleep then awake else w) (workers s)). w \<noteq> asleep"
    using deliver_all(2) by (cases "workers s") (auto simp: pool_inv_def)
  then show ?case using deliver_all(2) by (auto simp: pool_inv_def in_hand_wake split: if_splits)
next
  case (sleep i s q')
  then show ?case using in_hand_upd[OF sleep(1), of asleep]
    by (auto simp: pool_inv_def wait_cases dest: set_upd[OF sleep(1)])
next
  case (take i s t q')
  then show ?case using in_hand_upd[OF take(1), of "executing t"] upd_mem[OF take(1), of "executing t"]
    by (auto simp: pool_inv_def wait_cases dest: set_upd[OF take(1)])
next
  case (leave i s q')
  then show ?case using in_hand_upd[OF leave(1), of exited]
    by (auto simp: pool_inv_def wait_cases dest: set_upd[OF leave(1)])
next
  case (finish i s t)
  then show ?case using in_hand_upd[OF finish(1), of awake] upd_mem[OF finish(1), of awake]
    by (auto simp: pool_inv_def dest: set_upd[OF finish(1)])
qed

lemma user_step_inv:
  assumes "user_step s s'" and "pool_inv s"
  shows "pool_inv s'"
  using assms
proof (induction rule: user_step.induct)
  case (submit t s q')
  then show ?case by (auto simp: pool_inv_def pool_push_def split: if_splits)
next
  case (stop s q')
  then show ?case by (auto simp: pool_inv_def pool_stop_def split: if_splits)
next
  case (spurious i s)
  then show ?case using in_hand_upd[OF spurious(1), of awake] upd_mem[OF spurious(1), of awake]
    by (auto simp: pool_inv_def dest: set_upd[OF spurious(1)])
qed

lemma pool_reachable_inv: "pool_reachable sz s \<Longrightarrow> pool_inv s"
proof (induction rule: pool_reachable.induct)
  case init
  have "in_hand (replicate n awake :: 'a worker list) = {#}" for n
    by (induction n) (simp_all add: in_hand_def)
  then show ?case by (simp add: pool_inv_def pool_system_init_def pool_init_def pool_size_def)
qed (simp_all add: worker_step_inv user_step_inv)

subsection \<open>Properties\<close>

text \<open>Some worker can move, unless all sleep on an empty running queue or all have left.\<close>

lemma worker_progress:
  assumes "pool_inv s" and "\<not> (tasks (pool s) = [] \<and> run (pool s) \<and> (\<forall>w \<in> set (workers s). w = asleep))"
    and "\<not> (\<forall>w \<in> set (workers s). w = exited)"
  shows "\<exists>s'. worker_step s s'"
proof (cases "\<exists>w \<in> set (workers s). w \<noteq> asleep \<and> w \<noteq> exited")
  case True
  then obtain i where i: "i < length (workers s)" "workers s ! i \<noteq> asleep" "workers s ! i \<noteq> exited"
    by (auto simp: in_set_conv_nth)
  obtain o1 q' where w: "pool_wait False (pool s) = (o1, q')" by fastforce
  show ?thesis
  proof (cases "workers s ! i")
    case awake
    then show ?thesis using w i by (cases o1) (auto intro: worker_step.intros)
  next
    case (executing t)
    then show ?thesis using worker_step.finish[OF i(1)] by blast
  qed (use i in simp_all)
next
  case False
  have "asleep \<in> set (workers s)" using False assms(3) by auto
  then obtain i where i: "i < length (workers s)" "workers s ! i = asleep" by (auto simp: in_set_conv_nth)
  have "all_note s \<or> waking s > 0"
  proof (rule ccontr)
    assume n: "\<not> (all_note s \<or> waking s > 0)"
    then have r: "run (pool s)" using assms(1) \<open>asleep \<in> set (workers s)\<close> by (auto simp: pool_inv_def)
    then have e: "exited \<notin> set (workers s)" using assms(1) by (auto simp: pool_inv_def)
    with False have "\<forall>w \<in> set (workers s). w = asleep" by auto
    moreover from this n assms(1) have "tasks (pool s) = []" by (auto simp: pool_inv_def)
    ultimately show False using assms(2) r by blast
  qed
  then show ?thesis
  proof
    assume "all_note s"
    then show ?thesis using worker_step.deliver_all by blast
  next
    assume "waking s > 0"
    then obtain n where "waking s = Suc n" using gr0_implies_Suc by blast
    then show ?thesis using worker_step.deliver i by blast
  qed
qed

lemma all_exited_finished:
  assumes inv: "pool_inv s" and all: "\<forall>w \<in> set (workers s). w = exited"
  shows "mset (finished s) = mset (accepted s)"
proof -
  have "exited \<in> set (workers s)" using all inv by (cases "workers s") (auto simp: pool_inv_def)
  then have "tasks (pool s) = []" using inv by (simp add: pool_inv_def)
  moreover have "concat (map task_of ws) = []" if "\<forall>w \<in> set ws. w = exited" for ws :: "'a worker list"
    using that by auto
  ultimately show "mset (finished s) = mset (accepted s)"
    using inv all by (simp add: pool_inv_def in_hand_def)
qed



text \<open>
  Tasks are served first come, first served, and a worker leaves only a drained queue: for any
  sequence of submissions and worker turns on the empty queue of the database executor and of the
  client's executor, the tasks taken followed by those still queued are exactly the accepted ones
  in order, and if the next worker turn leaves the loop then all accepted tasks have been taken.
\<close>

theorem queues_are_fifo:
  "(pool_play st es (pool_init :: db_task pool) = (acc, out, q) \<longrightarrow>
      acc = out @ tasks q \<and> (fst (pool_wait st q) = leave_loop \<longrightarrow> out = acc)) \<and>
   (chat_play es' \<lparr>execute_q = [], stop_requested = False\<rparr> = (acc', out', q') \<longrightarrow>
      acc' = out' @ execute_q q' \<and> (fst (chat_wait q') = leave_loop \<longrightarrow> out' = acc'))"
proof (intro conjI impI)
  assume p: "pool_play st es (pool_init :: db_task pool) = (acc, out, q)"
  show "acc = out @ tasks q" using pool_queue.fifo[OF p] by (simp add: pool_init_def)
  assume "fst (pool_wait st q) = leave_loop"
  then show "out = acc"
    using pool_queue.drained_when_leaving[OF p, of "snd (pool_wait st q)"]
    by (simp add: pool_init_def prod_eq_iff)
next
  assume p: "chat_play es' \<lparr>execute_q = [], stop_requested = False\<rparr> = (acc', out', q')"
  show "acc' = out' @ execute_q q'" using chat_queue.fifo[OF p] by simp
  assume "fst (chat_wait q') = leave_loop"
  then show "out' = acc'"
    using chat_queue.drained_when_leaving[OF p, of "snd (chat_wait q')"] by (simp add: prod_eq_iff)
qed

theorem queues_are_fifo_witness:
  "\<exists>q. pool_play False [push_event \<lparr>t_cmd = cmd_list_room, t_fd = 5, t_user_id = ''ann''\<rparr>, wait_event] pool_init =
     ([\<lparr>t_cmd = cmd_list_room, t_fd = 5, t_user_id = ''ann''\<rparr>],
      [\<lparr>t_cmd = cmd_list_room, t_fd = 5, t_user_id = ''ann''\<rparr>], q) \<and> tasks q = []"
proof -
  let ?t = "\<lparr>t_cmd = cmd_list_room, t_fd = 5, t_user_id = ''ann''\<rparr>"
  have p: "pool_play False [push_event ?t, wait_event] pool_init = ([?t], [?t], pool_init)"
    by (simp add: pool_init_def pool_push_def pool_wait_def)
  from queues_are_fifo[of False "[push_event ?t, wait_event]" "[?t]" "[?t]" pool_init "[]" "[]" "[]"] p
  show ?thesis by auto
qed

end
