(* ===== verification/Db_Service.thy ===== *)
theory Db_Service
  imports Error_Codes "HOL-Library.Monad_Syntax"
begin

section \<open>The database service\<close>

text \<open>
  \<open>database/db_service\<close> over the schema of \<open>scripts/migrate_db_schema.sh\<close>. The tables are
  association lists keyed by their primary keys; every SQL statement of the service is one
  definition, with its conflict clauses, CHECK constraints, foreign keys and cascades. What the
  program cannot know is a \<open>db_env\<close> per call: whether the connection throws and whether a commit in
  doubt took effect, the transaction's time, the next value of an identity sequence, and the
  collation. A method runs its statements in one transaction: an exception leaves the tables as
  they were.
\<close>

subsection \<open>Exceptions\<close>

text \<open>The classes of libpqxx that \<open>map_exception\<close> distinguishes, with their place in its hierarchy.\<close>

datatype pqxx_exn =
  broken_connection_exn | in_doubt_exn | transaction_rollback_exn | serialization_failure_exn |
  deadlock_detected_exn | sql_error_exn | insufficient_privilege_exn | unique_violation_exn |
  foreign_key_violation_exn | not_null_violation_exn | check_violation_exn | other_exn

definition is_transaction_rollback :: "pqxx_exn \<Rightarrow> bool" where
  "is_transaction_rollback x \<longleftrightarrow>
     x \<in> {transaction_rollback_exn, serialization_failure_exn, deadlock_detected_exn}"

definition is_sql_error :: "pqxx_exn \<Rightarrow> bool" where
  "is_sql_error x \<longleftrightarrow> x \<notin> {broken_connection_exn, in_doubt_exn, other_exn}"

definition map_exception :: "pqxx_exn \<Rightarrow> error_code" where
  "map_exception x =
     (if x = broken_connection_exn then from_db broken_connection
      else if x = in_doubt_exn then from_db in_doubt_error
      else if is_transaction_rollback x then from_db transaction_rollback
      else if is_sql_error x then from_db sql_error
      else from_db unknown_exception)"

subsection \<open>Tables\<close>

datatype request_status = pending_status | accepted_status | rejected_status | canceled_status
datatype member_role = owner_role | admin_role | member_role

record user_row =
  pw :: string
  nick :: string

record request_row =
  status :: request_status
  created_at :: nat
  updated_at :: nat

record room_row =
  r_name :: string
  r_owner :: string

record message_row =
  m_room :: i64
  m_sender :: string
  m_body :: string
  m_created :: nat

record db =
  users :: "(string \<times> user_row) list"
  friendships :: "(string \<times> string) list"
  friend_requests :: "((string \<times> string) \<times> request_row) list"
  rooms :: "(i64 \<times> room_row) list"
  room_members :: "((i64 \<times> string) \<times> member_role) list"
  messages :: "(i64 \<times> message_row) list"

definition empty_db :: db where
  "empty_db = \<lparr>users = [], friendships = [], friend_requests = [], rooms = [], room_members = [],
     messages = []\<rparr>"

text \<open>
  What happens to the connection during a call: nothing, an exception before the commit, or an
  exception from a commit that took effect or not.
\<close>

datatype fault = no_fault | throws pqxx_exn | in_doubt bool

record db_env =
  fault_of :: fault
  now :: nat
  next_id :: i64
  le_text :: "string \<Rightarrow> string \<Rightarrow> bool"
  time_text :: "nat \<Rightarrow> string"

definition least_of :: "db_env \<Rightarrow> string \<Rightarrow> string \<Rightarrow> string" where
  "least_of D a b = (if le_text D a b then a else b)"

definition greatest_of :: "db_env \<Rightarrow> string \<Rightarrow> string \<Rightarrow> string" where
  "greatest_of D a b = (if le_text D a b then b else a)"

text \<open>\<open>ORDER BY\<close>, as insertion by a comparison.\<close>

fun insert_by :: "('a \<Rightarrow> 'a \<Rightarrow> bool) \<Rightarrow> 'a \<Rightarrow> 'a list \<Rightarrow> 'a list" where
  "insert_by le x [] = [x]"
| "insert_by le x (y # ys) = (if le x y then x # y # ys else y # insert_by le x ys)"

definition order_by :: "('a \<Rightarrow> 'a \<Rightarrow> bool) \<Rightarrow> 'a list \<Rightarrow> 'a list" where
  "order_by le xs = foldr (insert_by le) xs []"

subsection \<open>Transactions\<close>

type_synonym 'a tx = "db \<Rightarrow> pqxx_exn + ('a \<times> db)"

definition tx_return :: "'a \<Rightarrow> 'a tx" where
  "tx_return a d = Inr (a, d)"

definition tx_bind :: "'a tx \<Rightarrow> ('a \<Rightarrow> 'b tx) \<Rightarrow> 'b tx" where
  "tx_bind m k d = (case m d of Inl x \<Rightarrow> Inl x | Inr (a, d') \<Rightarrow> k a d')"

definition tx_throw :: "pqxx_exn \<Rightarrow> 'a tx" where
  "tx_throw x d = Inl x"

text \<open>A method: its statements, the commit, and the handler that maps the exception.\<close>

definition run_tx :: "db_env \<Rightarrow> 'a tx \<Rightarrow> db \<Rightarrow> (error_code + 'a) \<times> db" where
  "run_tx D m d =
     (case fault_of D of
        throws x \<Rightarrow> (Inl (map_exception x), d)
      | in_doubt done \<Rightarrow>
          (case m d of
             Inl x \<Rightarrow> (Inl (map_exception x), d)
           | Inr (_, d') \<Rightarrow> (Inl (map_exception in_doubt_exn), if done then d' else d))
      | no_fault \<Rightarrow>
          (case m d of Inl x \<Rightarrow> (Inl (map_exception x), d) | Inr (a, d') \<Rightarrow> (Inr a, d')))"

subsection \<open>Statements\<close>

definition user_exists :: "string \<Rightarrow> db \<Rightarrow> bool" where
  "user_exists u d \<longleftrightarrow> u \<in> set (keys (users d))"

definition room_exists :: "i64 \<Rightarrow> db \<Rightarrow> bool" where
  "room_exists r d \<longleftrightarrow> r \<in> set (keys (rooms d))"

definition is_member :: "i64 \<Rightarrow> string \<Rightarrow> db \<Rightarrow> bool" where
  "is_member r u d \<longleftrightarrow> (r, u) \<in> set (keys (room_members d))"

definition are_friends :: "db_env \<Rightarrow> string \<Rightarrow> string \<Rightarrow> db \<Rightarrow> bool" where
  "are_friends D a b d \<longleftrightarrow> (least_of D a b, greatest_of D a b) \<in> set (friendships d)"

text \<open>\<open>INSERT INTO auth.users ... ON CONFLICT (id) DO NOTHING RETURNING id\<close>\<close>

definition insert_user :: "string \<Rightarrow> string \<Rightarrow> string \<Rightarrow> bool tx" where
  "insert_user uid p n d =
     (if user_exists uid d then Inr (False, d)
      else Inr (True, d\<lparr>users := users d @ [(uid, \<lparr>pw = p, nick = n\<rparr>)]\<rparr>))"

definition update_nickname :: "string \<Rightarrow> string \<Rightarrow> bool tx" where
  "update_nickname uid n d =
     (case map_of (users d) uid of
        None \<Rightarrow> Inr (False, d)
      | Some row \<Rightarrow> Inr (True, d\<lparr>users := map_put uid (row\<lparr>nick := n\<rparr>) (users d)\<rparr>))"

text \<open>
  \<open>INSERT INTO social.friendships VALUES (LEAST($1, $2), GREATEST($1, $2)) ON CONFLICT DO NOTHING\<close>:
  the CHECK constraints are tested before the conflict, the foreign keys after the insertion.
\<close>

definition insert_friendship :: "db_env \<Rightarrow> string \<Rightarrow> string \<Rightarrow> bool tx" where
  "insert_friendship D a b d =
     (if a = b then Inl check_violation_exn
      else if are_friends D a b d then Inr (False, d)
      else if \<not> (user_exists a d \<and> user_exists b d) then Inl foreign_key_violation_exn
      else Inr (True, d\<lparr>friendships := friendships d @ [(least_of D a b, greatest_of D a b)]\<rparr>))"

definition delete_friendship :: "db_env \<Rightarrow> string \<Rightarrow> string \<Rightarrow> bool tx" where
  "delete_friendship D a b d =
     Inr (are_friends D a b d,
          d\<lparr>friendships := filter (\<lambda>p. p \<noteq> (least_of D a b, greatest_of D a b)) (friendships d)\<rparr>)"

definition select_friends :: "db_env \<Rightarrow> string \<Rightarrow> string list tx" where
  "select_friends D uid d =
     Inr (order_by (le_text D)
            (map (\<lambda>(a, b). if a = uid then b else a)
              (filter (\<lambda>(a, b). a = uid \<or> b = uid) (friendships d))), d)"

text \<open>
  \<open>INSERT INTO social.friend_requests SELECT $1, $2, 'pending' WHERE NOT EXISTS (friendship)\<close>
  \<open>ON CONFLICT DO UPDATE SET status = 'pending', updated_at = now()\<close>
  \<open>WHERE status IN ('rejected', 'canceled') RETURNING from_user_id\<close>
\<close>

definition insert_friend_request :: "db_env \<Rightarrow> string \<Rightarrow> string \<Rightarrow> bool tx" where
  "insert_friend_request D a b d =
     (if are_friends D a b d then Inr (False, d)
      else if a = b then Inl check_violation_exn
      else
        (case map_of (friend_requests d) (a, b) of
           Some row \<Rightarrow>
             if status row \<in> {rejected_status, canceled_status}
             then Inr (True, d\<lparr>friend_requests :=
                    map_put (a, b) (row\<lparr>status := pending_status, updated_at := now D\<rparr>) (friend_requests d)\<rparr>)
             else Inr (False, d)
         | None \<Rightarrow>
             if \<not> (user_exists a d \<and> user_exists b d) then Inl foreign_key_violation_exn
             else Inr (True, d\<lparr>friend_requests := friend_requests d @
                    [((a, b), \<lparr>status = pending_status, created_at = now D, updated_at = now D\<rparr>)]\<rparr>)))"

text \<open>\<open>UPDATE ... SET status = st ... WHERE status = 'pending' RETURNING from_user_id\<close>\<close>

definition update_pending_request :: "db_env \<Rightarrow> request_status \<Rightarrow> string \<Rightarrow> string \<Rightarrow> bool tx" where
  "update_pending_request D st a b d =
     (case map_of (friend_requests d) (a, b) of
        None \<Rightarrow> Inr (False, d)
      | Some row \<Rightarrow>
          if status row = pending_status
          then Inr (True, d\<lparr>friend_requests :=
                 map_put (a, b) (row\<lparr>status := st, updated_at := now D\<rparr>) (friend_requests d)\<rparr>)
          else Inr (False, d))"

definition select_pending_requests :: "string \<Rightarrow> string list tx" where
  "select_pending_requests uid d =
     Inr (map (\<lambda>((a, b), row). a)
            (order_by (\<lambda>x y. created_at (snd x) \<le> created_at (snd y))
              (filter (\<lambda>((a, b), row). b = uid \<and> status row = pending_status) (friend_requests d))), d)"

definition insert_room :: "db_env \<Rightarrow> string \<Rightarrow> string \<Rightarrow> i64 tx" where
  "insert_room D name owner d =
     (if \<not> user_exists owner d then Inl foreign_key_violation_exn
      else Inr (next_id D, d\<lparr>rooms := rooms d @ [(next_id D, \<lparr>r_name = name, r_owner = owner\<rparr>)]\<rparr>))"

definition insert_member :: "i64 \<Rightarrow> string \<Rightarrow> member_role \<Rightarrow> bool tx" where
  "insert_member r u role d =
     (if is_member r u d then Inr (False, d)
      else if \<not> (room_exists r d \<and> user_exists u d) then Inl foreign_key_violation_exn
      else Inr (True, d\<lparr>room_members := room_members d @ [((r, u), role)]\<rparr>))"

text \<open>\<open>DELETE FROM chat.rooms WHERE id = $1 AND owner_user_id = $2\<close>, with both cascades.\<close>

definition delete_room_row :: "string \<Rightarrow> i64 \<Rightarrow> bool tx" where
  "delete_room_row owner r d =
     (case map_of (rooms d) r of
        None \<Rightarrow> Inr (False, d)
      | Some row \<Rightarrow>
          if r_owner row = owner
          then Inr (True, d\<lparr>rooms := map_erase r (rooms d),
                 room_members := filter (\<lambda>((r', u), role). r' \<noteq> r) (room_members d),
                 messages := filter (\<lambda>(i, m). m_room m \<noteq> r) (messages d)\<rparr>)
          else Inr (False, d))"

definition delete_member :: "i64 \<Rightarrow> string \<Rightarrow> bool tx" where
  "delete_member r u d =
     Inr (is_member r u d, d\<lparr>room_members := map_erase (r, u) (room_members d)\<rparr>)"

text \<open>\<open>INSERT INTO chat.messages SELECT ... WHERE EXISTS (member) RETURNING id\<close>\<close>

definition insert_message :: "db_env \<Rightarrow> i64 \<Rightarrow> string \<Rightarrow> string \<Rightarrow> i64 option tx" where
  "insert_message D r u b d =
     (if \<not> is_member r u d then Inr (None, d)
      else if \<not> (room_exists r d \<and> user_exists u d) then Inl foreign_key_violation_exn
      else Inr (Some (next_id D), d\<lparr>messages := messages d @
             [(next_id D, \<lparr>m_room = r, m_sender = u, m_body = b, m_created = now D\<rparr>)]\<rparr>))"

record room_info =
  ri_id :: i64
  ri_name :: string
  ri_owner :: string
  ri_members :: nat

text \<open>The join of the rooms with the user's own membership, grouped, with all members counted.\<close>

definition select_rooms :: "string \<Rightarrow> room_info list tx" where
  "select_rooms uid d =
     Inr (map (\<lambda>(r, row). \<lparr>ri_id = r, ri_name = r_name row, ri_owner = r_owner row,
              ri_members = length (filter (\<lambda>((r', u), role). r' = r) (room_members d))\<rparr>)
            (order_by (\<lambda>x y. fst x \<le> fst y) (filter (\<lambda>(r, row). is_member r uid d) (rooms d))), d)"

record message_info =
  mi_id :: i64
  mi_sender :: string
  mi_body :: string
  mi_created :: string

definition newer :: "i64 \<times> message_row \<Rightarrow> i64 \<times> message_row \<Rightarrow> bool" where
  "newer x y \<longleftrightarrow> m_created (snd y) < m_created (snd x) \<or>
     (m_created (snd x) = m_created (snd y) \<and> fst y \<le> fst x)"

text \<open>The inner query keeps the newest \<open>limit\<close> messages, the outer one orders them by id.\<close>

definition select_messages :: "db_env \<Rightarrow> i64 \<Rightarrow> nat \<Rightarrow> message_info list tx" where
  "select_messages D r limit d =
     Inr (map (\<lambda>(i, m). \<lparr>mi_id = i, mi_sender = m_sender m, mi_body = m_body m,
              mi_created = time_text D (m_created m)\<rparr>)
            (order_by (\<lambda>x y. fst x \<le> fst y)
              (take limit (order_by newer (filter (\<lambda>(i, m). m_room m = r) (messages d))))), d)"

subsection \<open>The methods\<close>

definition ping :: "db_env \<Rightarrow> db \<Rightarrow> (error_code + unit) \<times> db" where
  "ping D = run_tx D (tx_return ())"

definition login :: "db_env \<Rightarrow> string \<Rightarrow> string \<Rightarrow> db \<Rightarrow> (error_code + string option) \<times> db" where
  "login D uid p = run_tx D (\<lambda>d.
     Inr (case map_of (users d) uid of
            None \<Rightarrow> None
          | Some row \<Rightarrow> if pw row = p then Some (nick row) else None, d))"

definition signup :: "db_env \<Rightarrow> string \<Rightarrow> string \<Rightarrow> db \<Rightarrow> (error_code + bool) \<times> db" where
  "signup D uid p = run_tx D (insert_user uid p ''guest'')"

definition change_nickname :: "db_env \<Rightarrow> string \<Rightarrow> string \<Rightarrow> db \<Rightarrow> (error_code + bool) \<times> db" where
  "change_nickname D uid n = run_tx D (update_nickname uid n)"

definition add_friend :: "db_env \<Rightarrow> string \<Rightarrow> string \<Rightarrow> db \<Rightarrow> (error_code + bool) \<times> db" where
  "add_friend D a b = run_tx D (insert_friendship D a b)"

definition remove_friend :: "db_env \<Rightarrow> string \<Rightarrow> string \<Rightarrow> db \<Rightarrow> (error_code + bool) \<times> db" where
  "remove_friend D a b = run_tx D (delete_friendship D a b)"

definition list_friends :: "db_env \<Rightarrow> string \<Rightarrow> db \<Rightarrow> (error_code + string list) \<times> db" where
  "list_friends D uid = run_tx D (select_friends D uid)"

definition request_friend :: "db_env \<Rightarrow> string \<Rightarrow> string \<Rightarrow> db \<Rightarrow> (error_code + bool) \<times> db" where
  "request_friend D a b = run_tx D (insert_friend_request D a b)"

definition accept_friend_request ::
  "db_env \<Rightarrow> string \<Rightarrow> string \<Rightarrow> db \<Rightarrow> (error_code + bool) \<times> db" where
  "accept_friend_request D a b = run_tx D
     (tx_bind (update_pending_request D accepted_status a b) (\<lambda>updated.
        if \<not> updated then tx_return False
        else tx_bind (insert_friendship D a b) (\<lambda>_. tx_return True)))"

definition reject_friend_request ::
  "db_env \<Rightarrow> string \<Rightarrow> string \<Rightarrow> db \<Rightarrow> (error_code + bool) \<times> db" where
  "reject_friend_request D a b = run_tx D (update_pending_request D rejected_status a b)"

definition list_friend_requests :: "db_env \<Rightarrow> string \<Rightarrow> db \<Rightarrow> (error_code + string list) \<times> db" where
  "list_friend_requests D uid = run_tx D (select_pending_requests uid)"

text \<open>The insertion always returns its row, so the \<open>EIO\<close> branch of the source is not reached.\<close>

definition create_room :: "db_env \<Rightarrow> string \<Rightarrow> string \<Rightarrow> db \<Rightarrow> (error_code + i64) \<times> db" where
  "create_room D owner name = run_tx D
     (tx_bind (insert_room D name owner) (\<lambda>r.
      tx_bind (insert_member r owner owner_role) (\<lambda>_. tx_return r)))"

definition delete_room :: "db_env \<Rightarrow> string \<Rightarrow> i64 \<Rightarrow> db \<Rightarrow> (error_code + bool) \<times> db" where
  "delete_room D owner r = run_tx D (delete_room_row owner r)"

datatype invite_room_result = invited | already_member | not_friend | room_not_found_or_no_permission

definition invite_room ::
  "db_env \<Rightarrow> string \<Rightarrow> i64 \<Rightarrow> string \<Rightarrow> db \<Rightarrow> (error_code + invite_room_result) \<times> db" where
  "invite_room D inviter r friend = run_tx D (\<lambda>d.
     if \<not> is_member r inviter d then tx_return room_not_found_or_no_permission d
     else if \<not> are_friends D inviter friend d then tx_return not_friend d
     else tx_bind (insert_member r friend member_role)
            (\<lambda>inserted. tx_return (if \<not> inserted then already_member else invited)) d)"

definition create_room_message ::
  "db_env \<Rightarrow> i64 \<Rightarrow> string \<Rightarrow> string \<Rightarrow> db \<Rightarrow> (error_code + i64 option) \<times> db" where
  "create_room_message D r u b = run_tx D (insert_message D r u b)"

datatype leave_room_result = left_room | not_member_or_room_not_found | owner_cannot_leave

definition leave_room ::
  "db_env \<Rightarrow> string \<Rightarrow> i64 \<Rightarrow> db \<Rightarrow> (error_code + leave_room_result) \<times> db" where
  "leave_room D u r = run_tx D (\<lambda>d.
     case map_of (rooms d) r of
       None \<Rightarrow> tx_return not_member_or_room_not_found d
     | Some row \<Rightarrow>
         if r_owner row = u then tx_return owner_cannot_leave d
         else tx_bind (delete_member r u)
                (\<lambda>deleted. tx_return (if \<not> deleted then not_member_or_room_not_found else left_room)) d)"

definition list_rooms :: "db_env \<Rightarrow> string \<Rightarrow> db \<Rightarrow> (error_code + room_info list) \<times> db" where
  "list_rooms D uid = run_tx D (select_rooms uid)"

definition list_room_messages ::
  "db_env \<Rightarrow> string \<Rightarrow> i64 \<Rightarrow> nat \<Rightarrow> db \<Rightarrow> (error_code + message_info list option) \<times> db" where
  "list_room_messages D u r limit = run_tx D (\<lambda>d.
     if \<not> is_member r u d then tx_return None d
     else tx_bind (select_messages D r limit) (\<lambda>ms. tx_return (Some ms)) d)"

end
