(* ===== verification/Db_Contract.thy ===== *)
theory Db_Contract
  imports Db_Service
begin

section \<open>The database stays consistent, and what the service promises\<close>

text \<open>
  \<open>db_ok\<close> is the schema's integrity together with what the service adds to it: the owner of a
  room is one of its members. Every method preserves it and, with no connection fault, never
  raises an integrity error that the caller's checks should have excluded. The second part gives
  the functional contract of friendships, memberships and histories.
\<close>

subsection \<open>Ordering\<close>

definition total_le :: "('a \<Rightarrow> 'a \<Rightarrow> bool) \<Rightarrow> bool" where
  "total_le le \<longleftrightarrow> (\<forall>x y. le x y \<or> le y x) \<and> (\<forall>x y. le x y \<longrightarrow> le y x \<longrightarrow> x = y) \<and>
     (\<forall>x y z. le x y \<longrightarrow> le y z \<longrightarrow> le x z)"

lemma set_insert_by [simp]: "set (insert_by le x xs) = insert x (set xs)"
  by (induction xs) auto

lemma set_order_by [simp]: "set (order_by le xs) = set xs"
  by (induction xs) (simp_all add: order_by_def)

lemma length_insert_by [simp]: "length (insert_by le x xs) = Suc (length xs)"
  by (induction xs) simp_all

lemma length_order_by [simp]: "length (order_by le xs) = length xs"
  by (induction xs) (simp_all add: order_by_def)

lemma insert_by_before: "(\<And>y. y \<in> set ys \<Longrightarrow> le x y) \<Longrightarrow> insert_by le x ys = x # ys"
  by (cases ys) simp_all

lemma order_by_sorted: "sorted_wrt le xs \<Longrightarrow> order_by le xs = xs"
  by (induction xs) (simp_all add: order_by_def insert_by_before)

lemma insert_by_after:
  "(\<And>y. y \<in> set ys \<Longrightarrow> \<not> le x y) \<Longrightarrow> insert_by le x ys = ys @ [x]"
  by (induction ys) simp_all

lemma order_by_rev: "sorted_wrt (\<lambda>x y. \<not> le x y) xs \<Longrightarrow> order_by le xs = rev xs"
proof (induction xs)
  case (Cons x xs)
  have "insert_by le x (rev xs) = rev xs @ [x]" using Cons.prems by (intro insert_by_after) simp
  then show ?case using Cons by (simp add: order_by_def)
qed (simp add: order_by_def)

subsection \<open>Integrity\<close>

definition tables_ok ::
  "(string \<Rightarrow> string \<Rightarrow> bool) \<Rightarrow> string list \<Rightarrow> (string \<times> string) list \<Rightarrow> (string \<times> string) list \<Rightarrow>
     (i64 \<times> room_row) list \<Rightarrow> (i64 \<times> string) list \<Rightarrow> (i64 \<times> message_row) list \<Rightarrow> bool" where
  "tables_ok le us fs qs rs ms ts \<longleftrightarrow>
     distinct us \<and> distinct fs \<and> distinct qs \<and> distinct (keys rs) \<and> distinct ms \<and>
     distinct (keys ts) \<and>
     (\<forall>a b. (a, b) \<in> set fs \<longrightarrow> a \<noteq> b \<and> le a b \<and> a \<in> set us \<and> b \<in> set us) \<and>
     (\<forall>a b. (a, b) \<in> set qs \<longrightarrow> a \<noteq> b \<and> a \<in> set us \<and> b \<in> set us) \<and>
     (\<forall>r row. (r, row) \<in> set rs \<longrightarrow> r_owner row \<in> set us \<and> (r, r_owner row) \<in> set ms) \<and>
     (\<forall>r u. (r, u) \<in> set ms \<longrightarrow> r \<in> set (keys rs) \<and> u \<in> set us) \<and>
     (\<forall>i m. (i, m) \<in> set ts \<longrightarrow> m_room m \<in> set (keys rs) \<and> m_sender m \<in> set us)"

definition db_ok :: "(string \<Rightarrow> string \<Rightarrow> bool) \<Rightarrow> db \<Rightarrow> bool" where
  "db_ok le d \<longleftrightarrow> tables_ok le (keys (users d)) (friendships d) (keys (friend_requests d)) (rooms d)
     (keys (room_members d)) (messages d)"

definition preserves :: "(db \<Rightarrow> bool) \<Rightarrow> 'a tx \<Rightarrow> bool" where
  "preserves P m \<longleftrightarrow> (\<forall>d a d'. P d \<longrightarrow> m d = Inr (a, d') \<longrightarrow> P d')"

lemma preserves_return [intro]: "preserves P (tx_return a)"
  by (auto simp: preserves_def tx_return_def)

lemma tx_bind_Inr:
  "tx_bind m k d = Inr (b, d') \<longleftrightarrow> (\<exists>a d1. m d = Inr (a, d1) \<and> k a d1 = Inr (b, d'))"
  by (auto simp: tx_bind_def split: sum.splits)

lemma preserves_bind [intro]:
  assumes "preserves P m" and "\<And>a. preserves P (k a)"
  shows "preserves P (tx_bind m k)"
  using assms unfolding preserves_def tx_bind_Inr by metis

lemma run_tx_cases:
  obtains e where "run_tx D m d = (Inl e, d)"
  | e a d' where "m d = Inr (a, d')" and "fault_of D = in_doubt True" and "run_tx D m d = (Inl e, d')"
  | a d' where "m d = Inr (a, d')" and "fault_of D = no_fault" and "run_tx D m d = (Inr a, d')"
proof (cases "m d")
  case (Inl x)
  then show thesis using that(1) by (cases "fault_of D") (simp_all add: run_tx_def)
next
  case (Inr p)
  obtain a d' where p: "p = (a, d')" by (cases p)
  show thesis
  proof (cases "fault_of D")
    case no_fault
    then show thesis using that(3) Inr p by (simp add: run_tx_def)
  next
    case (throws x)
    then show thesis using that(1) by (simp add: run_tx_def)
  next
    case (in_doubt took)
    then show thesis using that(1,2) Inr p by (cases took) (simp_all add: run_tx_def)
  qed
qed

lemma run_tx_preserves: "preserves P m \<Longrightarrow> P d \<Longrightarrow> P (snd (run_tx D m d))"
  by (cases rule: run_tx_cases[of D m d]) (auto simp: preserves_def)

lemma keys_append [simp]: "keys (xs @ ys) = keys xs @ keys ys"
  by (simp add: keys_def)

lemma in_keys: "(k, v) \<in> set m \<Longrightarrow> k \<in> set (keys m)"
  by (force simp: keys_def)

lemma set_map_erase: "set (map_erase k m) = {p \<in> set m. fst p \<noteq> k}"
  by (induction m) (auto simp: map_erase_def)

lemma keys_filter_fst: "keys (filter (\<lambda>p. P (fst p)) m) = filter P (keys m)"
  by (induction m) simp_all

lemma distinct_keys_filter: "distinct (keys m) \<Longrightarrow> distinct (keys (filter P m))"
  by (induction m) (auto simp: keys_def)

lemma tables_add_user:
  "tables_ok le us fs qs rs ms ts \<Longrightarrow> u \<notin> set us \<Longrightarrow> tables_ok le (us @ [u]) fs qs rs ms ts"
  unfolding tables_ok_def by auto

lemma tables_add_friend:
  "tables_ok le us fs qs rs ms ts \<Longrightarrow> (a, b) \<notin> set fs \<Longrightarrow> a \<noteq> b \<Longrightarrow> le a b \<Longrightarrow> a \<in> set us \<Longrightarrow>
   b \<in> set us \<Longrightarrow> tables_ok le us (fs @ [(a, b)]) qs rs ms ts"
  unfolding tables_ok_def by auto

lemma tables_filter_friends:
  "tables_ok le us fs qs rs ms ts \<Longrightarrow> tables_ok le us (filter P fs) qs rs ms ts"
  unfolding tables_ok_def by auto

lemma tables_add_request:
  "tables_ok le us fs qs rs ms ts \<Longrightarrow> (a, b) \<notin> set qs \<Longrightarrow> a \<noteq> b \<Longrightarrow> a \<in> set us \<Longrightarrow>
   b \<in> set us \<Longrightarrow> tables_ok le us fs (qs @ [(a, b)]) rs ms ts"
  unfolding tables_ok_def by auto

lemma tables_add_room:
  "tables_ok le us fs qs rs ms ts \<Longrightarrow> r \<notin> set (keys rs) \<Longrightarrow> r_owner row \<in> set us \<Longrightarrow>
   (r, r_owner row) \<notin> set ms \<Longrightarrow>
   tables_ok le us fs qs (rs @ [(r, row)]) (ms @ [(r, r_owner row)]) ts"
  unfolding tables_ok_def by auto

lemma tables_add_member:
  "tables_ok le us fs qs rs ms ts \<Longrightarrow> (r, u) \<notin> set ms \<Longrightarrow> r \<in> set (keys rs) \<Longrightarrow> u \<in> set us \<Longrightarrow>
   tables_ok le us fs qs rs (ms @ [(r, u)]) ts"
  unfolding tables_ok_def by auto

lemma tables_drop_member:
  "tables_ok le us fs qs rs ms ts \<Longrightarrow> (\<And>row. (r, row) \<in> set rs \<Longrightarrow> r_owner row \<noteq> u) \<Longrightarrow>
   tables_ok le us fs qs rs (filter (\<lambda>k. k \<noteq> (r, u)) ms) ts"
  unfolding tables_ok_def by auto

lemma tables_drop_room:
  assumes "tables_ok le us fs qs rs ms ts"
  shows "tables_ok le us fs qs (map_erase r rs) (filter (\<lambda>k. fst k \<noteq> r) ms)
    (filter (\<lambda>(i, m). m_room m \<noteq> r) ts)"
  using assms unfolding tables_ok_def
  by (auto simp: set_map_erase keys_erase distinct_keys_filter)

lemma tables_add_message:
  "tables_ok le us fs qs rs ms ts \<Longrightarrow> i \<notin> set (keys ts) \<Longrightarrow> m_room m \<in> set (keys rs) \<Longrightarrow>
   m_sender m \<in> set us \<Longrightarrow> tables_ok le us fs qs rs ms (ts @ [(i, m)])"
  unfolding tables_ok_def by auto

subsection \<open>Every statement preserves it\<close>

lemma preservesI: "(\<And>d a d'. P d \<Longrightarrow> m d = Inr (a, d') \<Longrightarrow> P d') \<Longrightarrow> preserves P m"
  unfolding preserves_def by blast

lemma insert_user_ok: "preserves (db_ok le) (insert_user uid p n)"
  by (rule preservesI)
     (auto simp: insert_user_def db_ok_def user_exists_def tables_add_user split: if_splits)

lemma update_nickname_ok: "preserves (db_ok le) (update_nickname uid n)"
  by (rule preservesI)
     (auto simp: update_nickname_def db_ok_def map_of_in_keys split: option.splits)

lemma least_greatest:
  "(least_of D a b = a \<and> greatest_of D a b = b) \<or> (least_of D a b = b \<and> greatest_of D a b = a)"
  by (simp add: least_of_def greatest_of_def)

lemma least_le_greatest: "total_le (le_text D) \<Longrightarrow> le_text D (least_of D a b) (greatest_of D a b)"
  by (auto simp: least_of_def greatest_of_def total_le_def)

lemma insert_friendship_ok:
  assumes "total_le le" and "le_text D = le"
  shows "preserves (db_ok le) (insert_friendship D a b)"
proof (rule preservesI)
  fix d x d' assume "db_ok le d" and e: "insert_friendship D a b d = Inr (x, d')"
  then have ok: "tables_ok le (keys (users d)) (friendships d) (keys (friend_requests d)) (rooms d)
     (keys (room_members d)) (messages d)" by (simp add: db_ok_def)
  have "le (least_of D a b) (greatest_of D a b)" using least_le_greatest[of D a b] assms by simp
  then show "db_ok le d'" using ok e least_greatest[of D a b]
    by (auto simp: insert_friendship_def db_ok_def are_friends_def user_exists_def
        intro!: tables_add_friend split: if_splits)
qed

lemma delete_friendship_ok: "preserves (db_ok le) (delete_friendship D a b)"
  by (rule preservesI) (auto simp: delete_friendship_def db_ok_def intro: tables_filter_friends)

lemma insert_friend_request_ok: "preserves (db_ok le) (insert_friend_request D a b)"
  by (rule preservesI)
     (auto simp: insert_friend_request_def db_ok_def user_exists_def map_of_in_keys mem_keys_iff
       intro!: tables_add_request split: if_splits option.splits)

lemma update_pending_request_ok: "preserves (db_ok le) (update_pending_request D st a b)"
  by (rule preservesI)
     (auto simp: update_pending_request_def db_ok_def map_of_in_keys split: if_splits option.splits)

lemma delete_room_row_ok: "preserves (db_ok le) (delete_room_row owner r)"
proof (rule preservesI)
  fix d x d' assume "db_ok le d" and e: "delete_room_row owner r d = Inr (x, d')"
  moreover have "keys (filter (\<lambda>((r', u), role). r' \<noteq> r) (room_members d)) =
      filter (\<lambda>k. fst k \<noteq> r) (keys (room_members d))"
    by (simp add: keys_filter_fst[of "\<lambda>k. fst k \<noteq> r", symmetric] case_prod_unfold)
  ultimately show "db_ok le d'"
    by (auto simp: delete_room_row_def db_ok_def dest: tables_drop_room split: option.splits if_splits)
qed

lemma insert_member_ok: "preserves (db_ok le) (insert_member r u role)"
  by (rule preservesI)
     (auto simp: insert_member_def db_ok_def is_member_def room_exists_def user_exists_def
       intro!: tables_add_member split: if_splits)

lemma select_ok:
  "preserves P (select_friends D uid)" "preserves P (select_pending_requests uid)"
  "preserves P (select_rooms uid)" "preserves P (select_messages D r n)"
  by (simp_all add: preserves_def select_friends_def select_pending_requests_def select_rooms_def
      select_messages_def)

subsection \<open>Every method preserves it\<close>

text \<open>What is asked of an identity column: its next value is positive and not yet used.\<close>

definition seq_ok :: "db_env \<Rightarrow> db \<Rightarrow> bool" where
  "seq_ok D d \<longleftrightarrow> 0 < next_id D \<and> next_id D \<notin> set (keys (rooms d)) \<and>
     next_id D \<notin> set (keys (messages d))"

lemma run_tx_inv:
  assumes "P d" and "\<And>a d'. m d = Inr (a, d') \<Longrightarrow> P d'"
  shows "P (snd (run_tx D m d))"
  by (cases rule: run_tx_cases[of D m d]) (auto simp: assms)

lemma create_room_ok:
  assumes "db_ok le d" and "seq_ok D d"
  shows "db_ok le (snd (create_room D owner name d))"
  unfolding create_room_def
proof (rule run_tx_inv[where P = "db_ok le", OF assms(1)])
  fix a d'
  assume "tx_bind (insert_room D name owner)
      (\<lambda>r. tx_bind (insert_member r owner owner_role) (\<lambda>_. tx_return r)) d = Inr (a, d')"
  then obtain d1 x where d1: "insert_room D name owner d = Inr (a, d1)"
    and m: "insert_member a owner owner_role d1 = Inr (x, d')"
    by (auto simp: tx_bind_Inr tx_return_def)
  from d1 have a: "a = next_id D" and owner: "owner \<in> set (keys (users d))"
    and d1: "d1 = d\<lparr>rooms := rooms d @ [(next_id D, \<lparr>r_name = name, r_owner = owner\<rparr>)]\<rparr>"
    by (auto simp: insert_room_def user_exists_def split: if_splits)
  have ok: "tables_ok le (keys (users d)) (friendships d) (keys (friend_requests d)) (rooms d)
     (keys (room_members d)) (messages d)" using assms(1) by (simp add: db_ok_def)
  have fresh: "next_id D \<notin> set (keys (rooms d))" using assms(2) by (simp add: seq_ok_def)
  have nm: "(next_id D, u) \<notin> set (keys (room_members d))" for u
    using ok fresh unfolding tables_ok_def by blast
  from m nm[of owner] have "d' = d1\<lparr>room_members := room_members d @ [((next_id D, owner), owner_role)]\<rparr>"
    by (auto simp: insert_member_def a d1 is_member_def split: if_splits)
  then show "db_ok le d'"
    using tables_add_room[OF ok fresh, of "\<lparr>r_name = name, r_owner = owner\<rparr>"] owner nm
    by (simp add: db_ok_def d1)
qed

lemma leave_room_ok:
  assumes "db_ok le d"
  shows "db_ok le (snd (leave_room D u r d))"
  unfolding leave_room_def
proof (rule run_tx_inv[where P = "db_ok le", OF assms])
  fix a d'
  assume e: "(case map_of (rooms d) r of
       None \<Rightarrow> tx_return not_member_or_room_not_found d
     | Some row \<Rightarrow>
         if r_owner row = u then tx_return owner_cannot_leave d
         else tx_bind (delete_member r u)
                (\<lambda>deleted. tx_return (if \<not> deleted then not_member_or_room_not_found else left_room)) d) =
     Inr (a, d')"
  have ok: "tables_ok le (keys (users d)) (friendships d) (keys (friend_requests d)) (rooms d)
     (keys (room_members d)) (messages d)" using assms by (simp add: db_ok_def)
  show "db_ok le d'"
  proof (cases "map_of (rooms d) r")
    case None
    then show ?thesis using e assms by (simp add: tx_return_def)
  next
    case (Some row)
    show ?thesis
    proof (cases "r_owner row = u")
      case True
      then show ?thesis using e Some assms by (simp add: tx_return_def)
    next
      case False
      then have d': "d' = d\<lparr>room_members := map_erase (r, u) (room_members d)\<rparr>"
        using e Some by (auto simp: tx_bind_Inr tx_return_def delete_member_def)
      have "\<And>row'. (r, row') \<in> set (rooms d) \<Longrightarrow> row' = row"
        using Some ok unfolding tables_ok_def keys_def by (auto dest: map_of_is_SomeI)
      then show ?thesis using tables_drop_member[OF ok, of r u] False
        by (auto simp: db_ok_def d' keys_erase)
    qed
  qed
qed

lemma insert_message_ok:
  assumes "db_ok le d" and "seq_ok D d" and "insert_message D r u b d = Inr (a, d')"
  shows "db_ok le d'"
  using assms
  by (auto simp: insert_message_def db_ok_def seq_ok_def room_exists_def user_exists_def
      intro!: tables_add_message split: if_splits)

lemma invite_room_ok:
  assumes "db_ok le d"
  shows "db_ok le (snd (invite_room D i r f d))"
  unfolding invite_room_def
proof (rule run_tx_inv[where P = "db_ok le", OF assms])
  fix a d'
  assume e: "(if \<not> is_member r i d then tx_return room_not_found_or_no_permission d
     else if \<not> are_friends D i f d then tx_return not_friend d
     else tx_bind (insert_member r f member_role)
            (\<lambda>inserted. tx_return (if \<not> inserted then already_member else invited)) d) = Inr (a, d')"
  then have "d' = d \<or> (\<exists>x. insert_member r f member_role d = Inr (x, d'))"
    by (auto simp: tx_return_def tx_bind_Inr split: if_splits)
  then show "db_ok le d'" using assms insert_member_ok[of le r f member_role]
    unfolding preserves_def by blast
qed

lemma list_room_messages_state: "snd (list_room_messages D u r n d) = d"
  by (auto simp: list_room_messages_def run_tx_def tx_bind_def tx_return_def select_messages_def
      split: fault.splits)

lemma read_only_methods:
  "snd (ping D d) = d" "snd (login D u p d) = d" "snd (list_friends D u d) = d"
  "snd (list_friend_requests D u d) = d" "snd (list_rooms D u d) = d"
  "snd (list_room_messages D u r n d) = d"
  by (auto simp: ping_def login_def list_friends_def list_friend_requests_def list_rooms_def
      list_room_messages_state run_tx_def tx_return_def select_friends_def select_pending_requests_def
      select_rooms_def split: fault.splits)

lemma write_methods_ok:
  assumes "db_ok le d" and "total_le le" and "le_text D = le" and "seq_ok D d"
  shows "db_ok le (snd (signup D u p d))" "db_ok le (snd (change_nickname D u n d))"
    "db_ok le (snd (add_friend D u v d))" "db_ok le (snd (remove_friend D u v d))"
    "db_ok le (snd (request_friend D u v d))" "db_ok le (snd (accept_friend_request D u v d))"
    "db_ok le (snd (reject_friend_request D u v d))" "db_ok le (snd (create_room D u n d))"
    "db_ok le (snd (delete_room D u r d))" "db_ok le (snd (invite_room D u r v d))"
    "db_ok le (snd (create_room_message D r u b d))" "db_ok le (snd (leave_room D u r d))"
proof -
  note fr = insert_friendship_ok[OF assms(2,3)]
  note pr = run_tx_preserves[where P = "db_ok le", OF _ assms(1)]
  show "db_ok le (snd (signup D u p d))" unfolding signup_def by (rule pr[OF insert_user_ok])
  show "db_ok le (snd (change_nickname D u n d))"
    unfolding change_nickname_def by (rule pr[OF update_nickname_ok])
  show "db_ok le (snd (add_friend D u v d))" unfolding add_friend_def by (rule pr[OF fr])
  show "db_ok le (snd (remove_friend D u v d))"
    unfolding remove_friend_def by (rule pr[OF delete_friendship_ok])
  show "db_ok le (snd (request_friend D u v d))"
    unfolding request_friend_def by (rule pr[OF insert_friend_request_ok])
  show "db_ok le (snd (reject_friend_request D u v d))"
    unfolding reject_friend_request_def by (rule pr[OF update_pending_request_ok])
  show "db_ok le (snd (delete_room D u r d))"
    unfolding delete_room_def by (rule pr[OF delete_room_row_ok])
  have "preserves (db_ok le) (tx_bind (update_pending_request D accepted_status u v) (\<lambda>updated.
        if \<not> updated then tx_return False
        else tx_bind (insert_friendship D u v) (\<lambda>_. tx_return True)))"
    by (rule preserves_bind[OF update_pending_request_ok]) (auto intro: fr)
  then show "db_ok le (snd (accept_friend_request D u v d))"
    unfolding accept_friend_request_def by (rule pr)
  show "db_ok le (snd (create_room D u n d))" by (rule create_room_ok[OF assms(1,4)])
  show "db_ok le (snd (invite_room D u r v d))" by (rule invite_room_ok[OF assms(1)])
  show "db_ok le (snd (leave_room D u r d))" by (rule leave_room_ok[OF assms(1)])
  show "db_ok le (snd (create_room_message D r u b d))" unfolding create_room_message_def
    by (rule run_tx_inv[where P = "db_ok le", OF assms(1)]) (rule insert_message_ok[OF assms(1,4)])
qed

subsection \<open>Friendship\<close>

lemma are_friends_iff:
  assumes "db_ok le d" and "total_le le" and "le_text D = le"
  shows "are_friends D a b d \<longleftrightarrow> (a, b) \<in> set (friendships d) \<or> (b, a) \<in> set (friendships d)"
proof -
  have f: "\<And>x y. (x, y) \<in> set (friendships d) \<Longrightarrow> x \<noteq> y \<and> le x y"
    using assms(1) unfolding db_ok_def tables_ok_def by blast
  show ?thesis
  proof (cases "le a b")
    case True
    have "(b, a) \<notin> set (friendships d)" using f[of b a] True assms(2) unfolding total_le_def by blast
    then show ?thesis using True assms(3) by (simp add: are_friends_def least_of_def greatest_of_def)
  next
    case False
    have "(a, b) \<notin> set (friendships d)" using f[of a b] False by blast
    then show ?thesis using False assms(3) by (simp add: are_friends_def least_of_def greatest_of_def)
  qed
qed

lemma sorted_insert_by:
  assumes "total_le le" and "sorted_wrt le xs"
  shows "sorted_wrt le (insert_by le x xs)"
  using assms(2)
proof (induction xs)
  case (Cons y ys)
  show ?case
  proof (cases "le x y")
    case True
    then have "\<And>z. z \<in> set ys \<Longrightarrow> le x z"
      using Cons.prems assms(1) unfolding total_le_def by auto
    then show ?thesis using True Cons.prems by simp
  next
    case False
    then have "le y x" using assms(1) unfolding total_le_def by blast
    then show ?thesis using False Cons by simp
  qed
qed simp

lemma sorted_order_by: "total_le le \<Longrightarrow> sorted_wrt le (order_by le xs)"
  by (induction xs) (simp_all add: order_by_def sorted_insert_by)

lemma list_friends_friends:
  assumes "db_ok le d" and "total_le le" and "le_text D = le" and "fault_of D = no_fault"
  obtains fs where "list_friends D u d = (Inr fs, d)" and "set fs = {v. are_friends D u v d}"
    and "sorted_wrt le fs"
proof -
  let ?fs = "order_by (le_text D) (map (\<lambda>(a, b). if a = u then b else a)
              (filter (\<lambda>(a, b). a = u \<or> b = u) (friendships d)))"
  have "list_friends D u d = (Inr ?fs, d)"
    by (simp add: list_friends_def run_tx_def assms(4) select_friends_def)
  moreover have "set ?fs = {v. are_friends D u v d}"
    unfolding are_friends_iff[OF assms(1-3)] by (force split: if_splits)
  moreover have "sorted_wrt le ?fs" using sorted_order_by[OF assms(2)] assms(3) by simp
  ultimately show thesis by (rule that)
qed

lemma accept_effect:
  assumes "fault_of D = no_fault" and "accept_friend_request D a b d = (Inr True, d')"
    and "db_ok le d" and "total_le le" and "le_text D = le"
  shows "are_friends D a b d' \<and> (\<exists>row. map_of (friend_requests d') (a, b) = Some row \<and> status row = accepted_status)"
proof -
  from assms(1,2) obtain d1 x where u: "update_pending_request D accepted_status a b d = Inr (True, d1)"
    and i: "insert_friendship D a b d1 = Inr (x, d')"
    by (auto simp: accept_friend_request_def run_tx_def tx_bind_Inr tx_return_def split: sum.splits if_splits)
  from u obtain row where r: "map_of (friend_requests d1) (a, b) = Some row" "status row = accepted_status"
    by (auto simp: update_pending_request_def split: option.splits if_splits)
  from i have "are_friends D a b d'" "friend_requests d' = friend_requests d1"
    by (auto simp: insert_friendship_def are_friends_def split: if_splits)
  with r show ?thesis by auto
qed

subsection \<open>Properties\<close>


text \<open>The databases that calls of the service lead to, whatever faults occur on the way.\<close>

datatype db_call =
  call_signup string string
  | call_change_nickname string string
  | call_add_friend string string
  | call_remove_friend string string
  | call_request_friend string string
  | call_accept string string
  | call_reject string string
  | call_create_room string string
  | call_delete_room string i64
  | call_invite string i64 string
  | call_message i64 string string
  | call_leave string i64

fun db_effect :: "db_env \<Rightarrow> db_call \<Rightarrow> db \<Rightarrow> db" where
  "db_effect D (call_signup u p) d = snd (signup D u p d)"
| "db_effect D (call_change_nickname u n) d = snd (change_nickname D u n d)"
| "db_effect D (call_add_friend u v) d = snd (add_friend D u v d)"
| "db_effect D (call_remove_friend u v) d = snd (remove_friend D u v d)"
| "db_effect D (call_request_friend u v) d = snd (request_friend D u v d)"
| "db_effect D (call_accept u v) d = snd (accept_friend_request D u v d)"
| "db_effect D (call_reject u v) d = snd (reject_friend_request D u v d)"
| "db_effect D (call_create_room u n) d = snd (create_room D u n d)"
| "db_effect D (call_delete_room u r) d = snd (delete_room D u r d)"
| "db_effect D (call_invite u r v) d = snd (invite_room D u r v d)"
| "db_effect D (call_message r u b) d = snd (create_room_message D r u b d)"
| "db_effect D (call_leave u r) d = snd (leave_room D u r d)"

inductive db_reachable :: "(string \<Rightarrow> string \<Rightarrow> bool) \<Rightarrow> db \<Rightarrow> bool" for le where
  start: "db_reachable le empty_db"
| step: "db_reachable le d \<Longrightarrow> le_text D = le \<Longrightarrow> seq_ok D d \<Longrightarrow> db_reachable le (db_effect D c d)"

lemma empty_db_ok: "db_ok le empty_db"
  by (simp add: db_ok_def empty_db_def tables_ok_def)

lemma db_effect_ok:
  "db_ok le d \<Longrightarrow> total_le le \<Longrightarrow> le_text D = le \<Longrightarrow> seq_ok D d \<Longrightarrow> db_ok le (db_effect D c d)"
  by (cases c) (simp_all add: write_methods_ok)


text \<open>Sample values: the lexicographic collation and two users.\<close>

fun lex_le :: "string \<Rightarrow> string \<Rightarrow> bool" where
  "lex_le [] ys = True"
| "lex_le (x # xs) [] = False"
| "lex_le (x # xs) (y # ys) =
     (of_char x < (of_char y :: nat) \<or> (x = y \<and> lex_le xs ys))"

lemma lex_le_Nil [simp]: "lex_le xs [] \<longleftrightarrow> xs = []"
  by (cases xs) simp_all

lemma lex_le_total: "total_le lex_le"
proof -
  have 1: "lex_le x y \<or> lex_le y x" for x y
  proof (induction x y rule: lex_le.induct)
    case (3 x xs y ys)
    have "x = y \<or> of_char x < (of_char y :: nat) \<or> of_char y < (of_char x :: nat)"
      using linorder_neq_iff[of "of_char x :: nat" "of_char y"] by auto
    with 3 show ?case by auto
  qed simp_all
  have 2: "lex_le x y \<Longrightarrow> lex_le y x \<Longrightarrow> x = y" for x y
    by (induction x y rule: lex_le.induct) auto
  have 3: "lex_le x y \<Longrightarrow> lex_le y z \<Longrightarrow> lex_le x z" for x y z
  proof (induction x y arbitrary: z rule: lex_le.induct)
    case (3 x xs y ys)
    then show ?case by (cases z) auto
  qed (auto elim: lex_le.elims)
  show ?thesis unfolding total_le_def using 1 2 3 by blast
qed

definition calm :: "nat \<Rightarrow> i64 \<Rightarrow> db_env" where
  "calm t i = \<lparr>fault_of = no_fault, now = t, next_id = i, le_text = lex_le, time_text = (\<lambda>_. ''now'')\<rparr>"

lemma calm_simps [simp]:
  "fault_of (calm t i) = no_fault" "next_id (calm t i) = i" "le_text (calm t i) = lex_le"
  "now (calm t i) = t" "time_text (calm t i) n = ''now''"
  by (simp_all add: calm_def)


definition demo_db :: db where
  "demo_db = empty_db\<lparr>
     users := [(''ann'', \<lparr>pw = ''x'', nick = ''guest''\<rparr>), (''bob'', \<lparr>pw = ''y'', nick = ''guest''\<rparr>)],
     friend_requests := [((''ann'', ''bob''), \<lparr>status = pending_status, created_at = 1, updated_at = 1\<rparr>)]\<rparr>"

lemma demo_db_ok: "db_ok lex_le demo_db" "seq_ok (calm t 1) demo_db"
  by (auto simp: db_ok_def tables_ok_def demo_db_def empty_db_def seq_ok_def)

definition demo_accepted :: db where
  "demo_accepted = snd (accept_friend_request (calm 2 1) ''ann'' ''bob'' demo_db)"

lemma demo_accept: "accept_friend_request (calm 2 1) ''ann'' ''bob'' demo_db = (Inr True, demo_accepted)"
  by (simp add: demo_accepted_def accept_friend_request_def run_tx_def tx_bind_def tx_return_def
      update_pending_request_def insert_friendship_def are_friends_def user_exists_def demo_db_def
      empty_db_def map_put_def)

text \<open>
  Accepting a request makes two users friends of each other: with the connection intact, if
  accepting reports success then each of the two is in the other's sorted friend list afterwards,
  and every friend listed really is a friend.
\<close>

theorem accept_makes_mutual_friends:
  assumes "db_ok le d" and "total_le le" and "le_text D = le" and "seq_ok D d"
    and "fault_of D = no_fault" and "accept_friend_request D a b d = (Inr True, d')"
  shows "\<exists>fa fb. list_friends D a d' = (Inr fa, d') \<and> list_friends D b d' = (Inr fb, d') \<and>
    b \<in> set fa \<and> a \<in> set fb \<and> sorted_wrt le fa \<and> sorted_wrt le fb \<and>
    set fa = {v. are_friends D a v d'}"
proof -
  have ok: "db_ok le d'"
    using write_methods_ok(6)[OF assms(1-4), of a b] assms(6) by simp
  have f: "are_friends D a b d'" using accept_effect[OF assms(5,6,1-3)] by blast
  then have g: "are_friends D b a d'" using are_friends_iff[OF ok assms(2,3)] by blast
  obtain fa where fa: "list_friends D a d' = (Inr fa, d')" "set fa = {v. are_friends D a v d'}"
    "sorted_wrt le fa" by (rule list_friends_friends[OF ok assms(2,3,5)])
  obtain fb where fb: "list_friends D b d' = (Inr fb, d')" "set fb = {v. are_friends D b v d'}"
    "sorted_wrt le fb" by (rule list_friends_friends[OF ok assms(2,3,5)])
  show ?thesis using fa fb f g by auto
qed

theorem accept_makes_mutual_friends_witness:
  "\<exists>fa. list_friends (calm 2 1) ''ann'' demo_accepted = (Inr fa, demo_accepted) \<and> ''bob'' \<in> set fa"
  using accept_makes_mutual_friends[OF demo_db_ok(1) lex_le_total _ demo_db_ok(2) _ demo_accept] by auto



subsection \<open>Rooms and their history\<close>

text \<open>Messages are stored in the order of their ids and times.\<close>

definition chronological :: "db \<Rightarrow> bool" where
  "chronological d \<longleftrightarrow>
     sorted_wrt (\<lambda>x y. fst x < fst y \<and> m_created (snd x) \<le> m_created (snd y)) (messages d)"

definition to_message_info :: "db_env \<Rightarrow> i64 \<times> message_row \<Rightarrow> message_info" where
  "to_message_info D p = \<lparr>mi_id = fst p, mi_sender = m_sender (snd p), mi_body = m_body (snd p),
     mi_created = time_text D (m_created (snd p))\<rparr>"

lemma newest_first:
  assumes "sorted_wrt (\<lambda>x y. fst x < fst y \<and> m_created (snd x) \<le> m_created (snd y)) xs"
  shows "order_by (\<lambda>x y. fst x \<le> fst y) (take n (order_by newer xs)) = drop (length xs - n) xs"
proof -
  have "sorted_wrt (\<lambda>x y. \<not> newer x y) xs"
    using assms by (rule sorted_wrt_mono_rel[rotated]) (auto simp: newer_def)
  then have "order_by newer xs = rev xs" by (rule order_by_rev)
  then have t: "take n (order_by newer xs) = rev (drop (length xs - n) xs)" by (simp add: take_rev)
  have "sorted_wrt (\<lambda>x y. fst x < fst y \<and> m_created (snd x) \<le> m_created (snd y)) (drop (length xs - n) xs)"
    using assms by (rule sorted_wrt_drop)
  then have "sorted_wrt (\<lambda>x y. fst y < fst x) (rev (drop (length xs - n) xs))"
    unfolding sorted_wrt_rev by (rule sorted_wrt_mono_rel[rotated]) auto
  then have "sorted_wrt (\<lambda>x y. \<not> fst x \<le> fst y) (rev (drop (length xs - n) xs))"
    by (rule sorted_wrt_mono_rel[rotated]) auto
  from order_by_rev[OF this] show ?thesis by (simp add: t)
qed

lemma list_room_messages_eq:
  assumes "fault_of D = no_fault" and "chronological d" and "is_member r u d"
  shows "list_room_messages D u r n d =
    (Inr (Some (map (to_message_info D)
       (let ms = filter (\<lambda>p. m_room (snd p) = r) (messages d) in drop (length ms - n) ms))), d)"
proof -
  have f: "(\<lambda>(i, m). m_room m = r) = (\<lambda>p. m_room (snd p) = r)" by auto
  have g: "(\<lambda>(i, m). \<lparr>mi_id = i, mi_sender = m_sender m, mi_body = m_body m,
      mi_created = time_text D (m_created m)\<rparr>) = to_message_info D"
    by (auto simp: to_message_info_def)
  have "sorted_wrt (\<lambda>x y. fst x < fst y \<and> m_created (snd x) \<le> m_created (snd y))
      (filter (\<lambda>p. m_room (snd p) = r) (messages d))"
    using assms(2) unfolding chronological_def by (rule sorted_wrt_filter)
  from newest_first[OF this, of n] show ?thesis
    using assms(1,3)
    by (simp add: list_room_messages_def run_tx_def tx_bind_def tx_return_def select_messages_def f g Let_def)
qed

text \<open>
  C18. What is said in a room is what its members read back, and nobody else can do either. With the
  connection intact and consistent tables, saying something in a room succeeds exactly for members
  (no foreign key can fail), stores the message under the new id, and leaves the clock order intact
  when the new id and time are the newest; a member asking for the last \<open>n\<close> messages of a room gets
  exactly the last \<open>n\<close> said there, oldest first, with the new message at the end; a non-member gets
  nothing and cannot post.
\<close>

theorem room_history_roundtrip:
  assumes "db_ok le d" and "fault_of D = no_fault" and "fault_of D' = no_fault" and "chronological d"
    and "\<forall>(i, m) \<in> set (messages d). i < next_id D \<and> m_created m \<le> now D"
  shows "(is_member r u d \<longrightarrow> (\<exists>d'. create_room_message D r u b d = (Inr (Some (next_id D)), d') \<and>
      chronological d' \<and>
      (\<forall>v n. is_member r v d \<longrightarrow> 0 < n \<longrightarrow>
         list_room_messages D' v r n d' =
           (Inr (Some (map (to_message_info D')
              ((let ms = filter (\<lambda>p. m_room (snd p) = r) (messages d) in drop (length ms - (n - 1)) ms) @
               [(next_id D, \<lparr>m_room = r, m_sender = u, m_body = b, m_created = now D\<rparr>)]))), d')))) \<and>
    (\<not> is_member r u d \<longrightarrow> create_room_message D r u b d = (Inr None, d) \<and>
      (\<forall>n. list_room_messages D' u r n d = (Inr None, d)))"
proof (intro conjI impI)
  assume m: "is_member r u d"
  let ?new = "(next_id D, \<lparr>m_room = r, m_sender = u, m_body = b, m_created = now D\<rparr>)"
  let ?d' = "d\<lparr>messages := messages d @ [?new]\<rparr>"
  have "room_exists r d" "user_exists u d"
    using assms(1) m unfolding db_ok_def tables_ok_def is_member_def room_exists_def user_exists_def
    by blast+
  then have c: "create_room_message D r u b d = (Inr (Some (next_id D)), ?d')"
    using m assms(2) by (simp add: create_room_message_def run_tx_def insert_message_def)
  have ch: "chronological ?d'"
    using assms(4,5) by (auto simp: chronological_def sorted_wrt_append)
  have "list_room_messages D' v r n ?d' =
      (Inr (Some (map (to_message_info D')
        ((let ms = filter (\<lambda>p. m_room (snd p) = r) (messages d) in drop (length ms - (n - 1)) ms) @ [?new]))), ?d')"
    if "is_member r v d" "0 < n" for v n
  proof -
    have "is_member r v ?d'" using that(1) by (simp add: is_member_def)
    from list_room_messages_eq[OF assms(3) ch this, of n] that(2) show ?thesis
      by (cases n) (simp_all add: Let_def)
  qed
  with c ch show "\<exists>d'. create_room_message D r u b d = (Inr (Some (next_id D)), d') \<and>
      chronological d' \<and>
      (\<forall>v n. is_member r v d \<longrightarrow> 0 < n \<longrightarrow>
         list_room_messages D' v r n d' =
           (Inr (Some (map (to_message_info D')
              ((let ms = filter (\<lambda>p. m_room (snd p) = r) (messages d) in drop (length ms - (n - 1)) ms) @
               [?new]))), d'))" by blast
next
  assume "\<not> is_member r u d"
  then show "create_room_message D r u b d = (Inr None, d)"
    "\<forall>n. list_room_messages D' u r n d = (Inr None, d)"
    using assms(2,3)
    by (simp_all add: create_room_message_def run_tx_def insert_message_def list_room_messages_def tx_return_def)
qed

definition demo_room_db :: db where
  "demo_room_db = demo_db\<lparr>rooms := [(7, \<lparr>r_name = ''tea'', r_owner = ''ann''\<rparr>)],
     room_members := [((7, ''ann''), owner_role)]\<rparr>"

theorem room_history_roundtrip_witness:
  "\<exists>d'. create_room_message (calm 5 1) 7 ''ann'' ''hi'' demo_room_db = (Inr (Some 1), d') \<and>
     list_room_messages (calm 6 2) ''ann'' 7 10 d' = (Inr (Some
       [\<lparr>mi_id = 1, mi_sender = ''ann'', mi_body = ''hi'', mi_created = ''now''\<rparr>]), d')"
proof -
  have ok: "db_ok lex_le demo_room_db" "chronological demo_room_db"
    "\<forall>(i, m) \<in> set (messages demo_room_db). i < next_id (calm 5 1) \<and> m_created m \<le> now (calm 5 1)"
    by (auto simp: db_ok_def tables_ok_def demo_room_db_def demo_db_def empty_db_def chronological_def)
  have m: "is_member 7 ''ann'' demo_room_db" by (simp add: is_member_def demo_room_db_def)
  have e: "messages demo_room_db = []" by (simp add: demo_room_db_def demo_db_def empty_db_def)
  from room_history_roundtrip[OF ok(1) _ _ ok(2,3), of "calm 6 2" 7 "''ann''" "''hi''"] m
  obtain d' where d': "create_room_message (calm 5 1) 7 ''ann'' ''hi'' demo_room_db = (Inr (Some 1), d')"
    and l: "\<And>v n. is_member 7 v demo_room_db \<Longrightarrow> 0 < n \<Longrightarrow> list_room_messages (calm 6 2) v 7 n d' =
      (Inr (Some (map (to_message_info (calm 6 2))
        [(1, \<lparr>m_room = 7, m_sender = ''ann'', m_body = ''hi'', m_created = 5\<rparr>)])), d')"
    by (auto simp: e)
  from d' l[OF m, of 10] show ?thesis by (simp add: to_message_info_def)
qed

lemma db_ok_member:
  assumes "db_ok le d" and "is_member r u d"
  shows "room_exists r d" and "user_exists u d"
  using assms unfolding db_ok_def tables_ok_def is_member_def room_exists_def user_exists_def by blast+

lemma invite_room_eq:
  assumes "db_ok le d" and "total_le le" and "le_text D = le" and "fault_of D = no_fault"
  shows "invite_room D i r f d =
      (if \<not> is_member r i d then (Inr room_not_found_or_no_permission, d)
       else if \<not> are_friends D i f d then (Inr not_friend, d)
       else if is_member r f d then (Inr already_member, d)
       else (Inr invited, d\<lparr>room_members := room_members d @ [((r, f), member_role)]\<rparr>))"
proof -
  have "are_friends D i f d \<Longrightarrow> user_exists f d"
    using assms(1) unfolding are_friends_iff[OF assms(1-3)] db_ok_def tables_ok_def user_exists_def
    by blast
  then show ?thesis using assms(4) db_ok_member[OF assms(1), of r i]
    by (auto simp: invite_room_def run_tx_def tx_return_def tx_bind_def insert_member_def)
qed

definition owns :: "string \<Rightarrow> i64 \<Rightarrow> db \<Rightarrow> bool" where
  "owns u r d \<longleftrightarrow> (case map_of (rooms d) r of None \<Rightarrow> False | Some row \<Rightarrow> r_owner row = u)"

lemma delete_room_eq:
  assumes "fault_of D = no_fault"
  shows "delete_room D u r d =
      (if owns u r d
       then (Inr True, d\<lparr>rooms := map_erase r (rooms d),
           room_members := filter (\<lambda>((r', u), role). r' \<noteq> r) (room_members d),
           messages := filter (\<lambda>(i, m). m_room m \<noteq> r) (messages d)\<rparr>)
       else (Inr False, d))"
  using assms by (simp add: delete_room_def run_tx_def delete_room_row_def owns_def split: option.splits)

lemma leave_room_eq:
  assumes "db_ok le d" and "fault_of D = no_fault"
  shows "leave_room D u r d =
      (if owns u r d then (Inr owner_cannot_leave, d)
       else if \<not> is_member r u d then (Inr not_member_or_room_not_found, d)
       else (Inr left_room, d\<lparr>room_members := map_erase (r, u) (room_members d)\<rparr>))"
proof -
  have "map_of (rooms d) r = None \<Longrightarrow> \<not> is_member r u d"
    using db_ok_member(1)[OF assms(1), of r u] by (auto simp: room_exists_def mem_keys_iff)
  moreover have "\<not> is_member r u d \<Longrightarrow> map_erase (r, u) (room_members d) = room_members d"
    by (simp add: is_member_def keys_def map_erase_def delete_notin_dom)
  ultimately show ?thesis using assms(2)
    by (auto simp: leave_room_def run_tx_def tx_return_def tx_bind_def delete_member_def owns_def
        split: option.splits)
qed

lemma is_member_erase:
  "is_member r' v (d\<lparr>room_members := map_erase k (room_members d)\<rparr>) \<longleftrightarrow> is_member r' v d \<and> (r', v) \<noteq> k"
  by (auto simp: is_member_def keys_erase)

lemma is_member_filter:
  "is_member r' v (d\<lparr>rooms := x, room_members := filter (\<lambda>((q, u), role). q \<noteq> r) (room_members d), messages := y\<rparr>)
     \<longleftrightarrow> is_member r' v d \<and> r' \<noteq> r"
  by (force simp: is_member_def keys_def)

text \<open>
  C17. Who may change a room: with the connection intact and consistent tables, inviting reports
  exactly why it was refused (the inviter is no member, the invited is no friend, or is already a
  member) and otherwise adds that one member; only the owner deletes a room, and then the room,
  all its memberships and all its messages are gone and no other membership; the owner can never
  leave, any other member can, and nobody else is affected.
\<close>

theorem room_membership_rules:
  assumes "db_ok le d" and "total_le le" and "le_text D = le" and "fault_of D = no_fault"
  shows "(\<exists>res d'. invite_room D i r f d = (Inr res, d') \<and>
      res = (if \<not> is_member r i d then room_not_found_or_no_permission
             else if \<not> are_friends D i f d then not_friend
             else if is_member r f d then already_member else invited) \<and>
      (\<forall>q v. is_member q v d' \<longleftrightarrow> is_member q v d \<or> (res = invited \<and> q = r \<and> v = f))) \<and>
    (\<exists>d'. delete_room D u r d = (Inr (owns u r d), d') \<and>
      (\<forall>q v. is_member q v d' \<longleftrightarrow> is_member q v d \<and> \<not> (owns u r d \<and> q = r)) \<and>
      (owns u r d \<longrightarrow> \<not> room_exists r d' \<and> (\<forall>(j, m) \<in> set (messages d'). m_room m \<noteq> r))) \<and>
    (\<exists>res d'. leave_room D u r d = (Inr res, d') \<and>
      res = (if owns u r d then owner_cannot_leave
             else if is_member r u d then left_room else not_member_or_room_not_found) \<and>
      (\<forall>q v. is_member q v d' \<longleftrightarrow> is_member q v d \<and> \<not> (res = left_room \<and> q = r \<and> v = u)))"
proof (intro conjI)
  show "\<exists>res d'. invite_room D i r f d = (Inr res, d') \<and>
      res = (if \<not> is_member r i d then room_not_found_or_no_permission
             else if \<not> are_friends D i f d then not_friend
             else if is_member r f d then already_member else invited) \<and>
      (\<forall>q v. is_member q v d' \<longleftrightarrow> is_member q v d \<or> (res = invited \<and> q = r \<and> v = f))"
    unfolding invite_room_eq[OF assms] by (auto simp: is_member_def)
  show "\<exists>d'. delete_room D u r d = (Inr (owns u r d), d') \<and>
      (\<forall>q v. is_member q v d' \<longleftrightarrow> is_member q v d \<and> \<not> (owns u r d \<and> q = r)) \<and>
      (owns u r d \<longrightarrow> \<not> room_exists r d' \<and> (\<forall>(j, m) \<in> set (messages d'). m_room m \<noteq> r))"
    unfolding delete_room_eq[OF assms(4)] by (auto simp: is_member_filter room_exists_def keys_erase)
  show "\<exists>res d'. leave_room D u r d = (Inr res, d') \<and>
      res = (if owns u r d then owner_cannot_leave
             else if is_member r u d then left_room else not_member_or_room_not_found) \<and>
      (\<forall>q v. is_member q v d' \<longleftrightarrow> is_member q v d \<and> \<not> (res = left_room \<and> q = r \<and> v = u))"
    unfolding leave_room_eq[OF assms(1,4)] by (auto simp: is_member_erase)
qed

theorem room_membership_rules_witness:
  "fst (leave_room (calm 1 1) ''ann'' 7 demo_room_db) = Inr owner_cannot_leave \<and>
   fst (delete_room (calm 1 1) ''ann'' 7 demo_room_db) = Inr True \<and>
   fst (invite_room (calm 1 1) ''ann'' 7 ''bob'' demo_room_db) = Inr not_friend"
proof -
  have ok: "db_ok lex_le demo_room_db"
    by (auto simp: db_ok_def tables_ok_def demo_room_db_def demo_db_def empty_db_def)
  have o: "owns ''ann'' 7 demo_room_db" by (simp add: owns_def demo_room_db_def)
  have m: "is_member 7 ''ann'' demo_room_db" by (simp add: is_member_def demo_room_db_def)
  have nf: "\<not> are_friends (calm 1 1) ''ann'' ''bob'' demo_room_db"
    by (simp add: are_friends_def demo_room_db_def demo_db_def empty_db_def)
  show ?thesis
    using room_membership_rules[OF ok lex_le_total _ _, of "calm 1 1" "''ann''" 7 "''bob''" "''ann''"] o m nf
    by auto
qed

text \<open>
  Signing up and logging in: with the connection intact, a sign-up succeeds exactly for an
  unused id and then the account logs in with its password and no other, as \<open>guest\<close>; it changes
  no other account; and a changed nickname is the one the next login reports.
\<close>

theorem signup_login_roundtrip:
  assumes "fault_of D1 = no_fault" and "fault_of D2 = no_fault" and "fault_of D3 = no_fault"
  shows "\<exists>d1. signup D1 uid p d = (Inr (\<not> user_exists uid d), d1) \<and>
    (\<not> user_exists uid d \<longrightarrow> fst (login D2 uid q d1) = Inr (if q = p then Some ''guest'' else None)) \<and>
    (\<forall>v. v \<noteq> uid \<or> user_exists uid d \<longrightarrow> fst (login D2 v q d1) = fst (login D2 v q d)) \<and>
    (\<exists>d2. change_nickname D3 uid n d1 = (Inr True, d2) \<and>
       fst (login D2 uid q d2) = map_sum id (map_option (\<lambda>_. n)) (fst (login D2 uid q d1)))"
proof -
  have s: "signup D1 uid p d = (Inr (\<not> user_exists uid d),
      if user_exists uid d then d else d\<lparr>users := users d @ [(uid, \<lparr>pw = p, nick = ''guest''\<rparr>)]\<rparr>)"
    using assms(1) by (simp add: signup_def run_tx_def insert_user_def)
  have l: "fst (login D2 v q d') = Inr (case map_of (users d') v of None \<Rightarrow> None
      | Some row \<Rightarrow> if pw row = q then Some (nick row) else None)" for v d'
    using assms(2) by (simp add: login_def run_tx_def)
  have none: "\<not> user_exists uid d \<Longrightarrow> map_of (users d) uid = None"
    by (simp add: user_exists_def mem_keys_iff)
  have some: "user_exists uid d' \<Longrightarrow> \<exists>row. change_nickname D3 uid n d' =
      (Inr True, d'\<lparr>users := map_put uid (row\<lparr>nick := n\<rparr>) (users d')\<rparr>) \<and> map_of (users d') uid = Some row" for d'
    using assms(3) by (auto simp: change_nickname_def run_tx_def update_nickname_def user_exists_def mem_keys_iff)
  define d1 where "d1 = (if user_exists uid d then d
      else d\<lparr>users := users d @ [(uid, \<lparr>pw = p, nick = ''guest''\<rparr>)]\<rparr>)"
  have "user_exists uid d1" by (simp add: d1_def user_exists_def)
  then obtain row where c: "change_nickname D3 uid n d1 =
      (Inr True, d1\<lparr>users := map_put uid (row\<lparr>nick := n\<rparr>) (users d1)\<rparr>)"
    and row: "map_of (users d1) uid = Some row" using some by blast
  have "fst (login D2 uid q (d1\<lparr>users := map_put uid (row\<lparr>nick := n\<rparr>) (users d1)\<rparr>)) =
      map_sum id (map_option (\<lambda>_. n)) (fst (login D2 uid q d1))"
    using row by (simp add: l)
  moreover have "\<not> user_exists uid d \<longrightarrow> fst (login D2 uid q d1) = Inr (if q = p then Some ''guest'' else None)"
    using none by (auto simp: l d1_def map_add_def)
  moreover have "\<forall>v. v \<noteq> uid \<or> user_exists uid d \<longrightarrow> fst (login D2 v q d1) = fst (login D2 v q d)"
    by (auto simp: l d1_def map_add_def split: option.splits)
  ultimately show ?thesis using s c unfolding d1_def by blast
qed

theorem signup_login_roundtrip_witness:
  "\<exists>d1. signup (calm 1 1) ''ann'' ''pw'' empty_db = (Inr True, d1) \<and>
     fst (login (calm 2 1) ''ann'' ''pw'' d1) = Inr (Some ''guest'')"
  using signup_login_roundtrip[of "calm 1 1" "calm 2 1" "calm 3 1" "''ann''" "''pw''" empty_db "''pw''" "''nn''"]
  by (auto simp: user_exists_def empty_db_def)

end
