(* ===== verification/Db_Executor.thy ===== *)
theory Db_Executor
  imports Work_Queue Db_Contract
begin

section \<open>Executing database commands\<close>

text \<open>
  \<open>database/db_executor\<close>: what a worker does with a task. A command runs against the database and
  produces the requests it makes of the registry, in order; \<open>D i\<close> is the environment of its
  \<open>i\<close>-th call of the service. The log lines are left out.
\<close>

type_synonym exec_result = "reg_command list \<times> db"

abbreviation reply :: "fd \<Rightarrow> string \<Rightarrow> reg_command" where
  "reply f txt \<equiv> send_one_command f (cmd_response txt)"

definition load_joined_room_ids :: "db_env \<Rightarrow> string \<Rightarrow> db \<Rightarrow> (error_code + i64 list) \<times> db" where
  "load_joined_room_ids D uid d =
     (case list_rooms D uid d of
        (Inl e, d1) \<Rightarrow> (Inl e, d1)
      | (Inr rs, d1) \<Rightarrow> (Inr (map ri_id rs), d1))"

text \<open>\<open>std::stoll\<close> of the whole string, and positive.\<close>

definition parse_room_id :: "string \<Rightarrow> i64 option" where
  "parse_room_id s =
     (case stoll s of
        Inl _ \<Rightarrow> None
      | Inr (v, pos) \<Rightarrow> if pos \<noteq> length s \<or> v \<le> 0 then None else Some v)"

definition parse_limit :: "string \<Rightarrow> nat option" where
  "parse_limit s =
     (case stoll s of
        Inl _ \<Rightarrow> None
      | Inr (v, pos) \<Rightarrow> if pos \<noteq> length s \<or> v \<le> 0 \<or> v > 100 then None else Some (nat v))"

definition logged_out :: "fd \<Rightarrow> reg_command list" where
  "logged_out f =
     [set_user_id_command f [], set_joined_rooms_command f [], change_nickname_command f ''guest'']"

definition exec_login :: "(nat \<Rightarrow> db_env) \<Rightarrow> string \<Rightarrow> string \<Rightarrow> fd \<Rightarrow> db \<Rightarrow> exec_result" where
  "exec_login D uid p f d =
     (case login (D 0) uid p d of
        (Inl e, d1) \<Rightarrow> (reply f ''login failed'' # logged_out f, d1)
      | (Inr (Some nk), d1) \<Rightarrow>
          (case load_joined_room_ids (D 1) uid d1 of
             (Inl e, d2) \<Rightarrow> (reply f ''login failed'' # logged_out f, d2)
           | (Inr ids, d2) \<Rightarrow>
               ([set_user_id_command f uid, set_joined_rooms_command f ids,
                 change_nickname_command f nk, reply f ''login success''], d2))
      | (Inr None, d1) \<Rightarrow> (logged_out f @ [reply f ''login failed''], d1))"

definition exec_register :: "(nat \<Rightarrow> db_env) \<Rightarrow> string \<Rightarrow> string \<Rightarrow> fd \<Rightarrow> db \<Rightarrow> exec_result" where
  "exec_register D uid p f d =
     (case signup (D 0) uid p d of
        (Inl e, d1) \<Rightarrow> ([reply f ''register failed''], d1)
      | (Inr ok, d1) \<Rightarrow> ([reply f (if ok then ''register success'' else ''id already exists'')], d1))"

definition exec_say ::
  "(nat \<Rightarrow> db_env) \<Rightarrow> string \<Rightarrow> string \<Rightarrow> fd \<Rightarrow> string \<Rightarrow> db \<Rightarrow> exec_result" where
  "exec_say D room txt f uid d =
     (if uid = [] then ([reply f ''login first''], d)
      else
        (case parse_room_id room of
           None \<Rightarrow> ([reply f ''invalid room id''], d)
         | Some r \<Rightarrow>
             (case create_room_message (D 0) r uid txt d of
                (Inl e, d1) \<Rightarrow> ([reply f ''send failed''], d1)
              | (Inr None, d1) \<Rightarrow> ([reply f ''room not found or no permission''], d1)
              | (Inr (Some i), d1) \<Rightarrow> ([room_broadcast_command f r (cmd_response txt)], d1))))"

definition exec_nick :: "(nat \<Rightarrow> db_env) \<Rightarrow> string \<Rightarrow> fd \<Rightarrow> string \<Rightarrow> db \<Rightarrow> exec_result" where
  "exec_nick D nk f uid d =
     (if uid = [] then ([reply f ''login first''], d)
      else
        (case Db_Service.change_nickname (D 0) uid nk d of
           (Inl e, d1) \<Rightarrow> ([reply f ''nick change failed''], d1)
         | (Inr ok, d1) \<Rightarrow>
             if \<not> ok then ([reply f ''nick change failed''], d1)
             else ([change_nickname_command f nk, reply f ''nick change success''], d1)))"

definition exec_friend_request :: "(nat \<Rightarrow> db_env) \<Rightarrow> string \<Rightarrow> fd \<Rightarrow> string \<Rightarrow> db \<Rightarrow> exec_result" where
  "exec_friend_request D u f uid d =
     (if uid = [] then ([reply f ''login first''], d)
      else if uid = u then ([reply f ''cannot request yourself''], d)
      else
        (case request_friend (D 0) uid u d of
           (Inl e, d1) \<Rightarrow> ([reply f ''friend request failed''], d1)
         | (Inr ok, d1) \<Rightarrow>
             if \<not> ok then ([reply f ''friend request already exists or already friends''], d1)
             else ([reply f ''friend request sent''], d1)))"

definition exec_friend_accept :: "(nat \<Rightarrow> db_env) \<Rightarrow> string \<Rightarrow> fd \<Rightarrow> string \<Rightarrow> db \<Rightarrow> exec_result" where
  "exec_friend_accept D u f uid d =
     (if uid = [] then ([reply f ''login first''], d)
      else
        (case accept_friend_request (D 0) u uid d of
           (Inl e, d1) \<Rightarrow> ([reply f ''friend request accept failed''], d1)
         | (Inr ok, d1) \<Rightarrow>
             if \<not> ok then ([reply f ''no pending friend request''], d1)
             else ([reply f ''friend request accepted''], d1)))"

definition exec_friend_reject :: "(nat \<Rightarrow> db_env) \<Rightarrow> string \<Rightarrow> fd \<Rightarrow> string \<Rightarrow> db \<Rightarrow> exec_result" where
  "exec_friend_reject D u f uid d =
     (if uid = [] then ([reply f ''login first''], d)
      else
        (case reject_friend_request (D 0) u uid d of
           (Inl e, d1) \<Rightarrow> ([reply f ''friend request reject failed''], d1)
         | (Inr ok, d1) \<Rightarrow>
             if \<not> ok then ([reply f ''no pending friend request''], d1)
             else ([reply f ''friend request rejected''], d1)))"

definition exec_friend_remove :: "(nat \<Rightarrow> db_env) \<Rightarrow> string \<Rightarrow> fd \<Rightarrow> string \<Rightarrow> db \<Rightarrow> exec_result" where
  "exec_friend_remove D u f uid d =
     (if uid = [] then ([reply f ''login first''], d)
      else if uid = u then ([reply f ''cannot remove yourself''], d)
      else
        (case remove_friend (D 0) uid u d of
           (Inl e, d1) \<Rightarrow> ([reply f ''friend remove failed''], d1)
         | (Inr ok, d1) \<Rightarrow>
             if \<not> ok then ([reply f ''friend not found''], d1) else ([reply f ''friend removed''], d1)))"

definition exec_list_friend :: "(nat \<Rightarrow> db_env) \<Rightarrow> fd \<Rightarrow> string \<Rightarrow> db \<Rightarrow> exec_result" where
  "exec_list_friend D f uid d =
     (if uid = [] then ([reply f ''login first''], d)
      else
        (case list_friends (D 0) uid d of
           (Inl e, d1) \<Rightarrow> ([reply f ''friend list failed''], d1)
         | (Inr us, d1) \<Rightarrow>
             if us = [] then ([reply f ''no friends''], d1) else ([send_friend_list_command f us], d1)))"

definition exec_list_friend_request :: "(nat \<Rightarrow> db_env) \<Rightarrow> fd \<Rightarrow> string \<Rightarrow> db \<Rightarrow> exec_result" where
  "exec_list_friend_request D f uid d =
     (if uid = [] then ([reply f ''login first''], d)
      else
        (case list_friend_requests (D 0) uid d of
           (Inl e, d1) \<Rightarrow> ([reply f ''friend requests list failed''], d1)
         | (Inr us, d1) \<Rightarrow>
             if us = [] then ([reply f ''no pending friend requests''], d1)
             else (reply f (''pending friend requests: '' @ to_string (int (length us))) #
                   map (\<lambda>u. reply f (''from: '' @ u)) us, d1)))"

definition exec_create_room :: "(nat \<Rightarrow> db_env) \<Rightarrow> string \<Rightarrow> fd \<Rightarrow> string \<Rightarrow> db \<Rightarrow> exec_result" where
  "exec_create_room D name f uid d =
     (if uid = [] then ([reply f ''login first''], d)
      else if name = [] then ([reply f ''room name is empty''], d)
      else
        (case create_room (D 0) uid name d of
           (Inl e, d1) \<Rightarrow> ([reply f ''create room failed''], d1)
         | (Inr r, d1) \<Rightarrow>
             (let created = reply f (''room created: '' @ to_string r @ '' ('' @ name @ '')'') in
              case load_joined_room_ids (D 1) uid d1 of
                (Inl e, d2) \<Rightarrow> ([created], d2)
              | (Inr ids, d2) \<Rightarrow> ([created, set_joined_rooms_command f ids], d2))))"

definition exec_delete_room :: "(nat \<Rightarrow> db_env) \<Rightarrow> string \<Rightarrow> fd \<Rightarrow> string \<Rightarrow> db \<Rightarrow> exec_result" where
  "exec_delete_room D room f uid d =
     (if uid = [] then ([reply f ''login first''], d)
      else
        (case parse_room_id room of
           None \<Rightarrow> ([reply f ''invalid room id''], d)
         | Some r \<Rightarrow>
             (case delete_room (D 0) uid r d of
                (Inl e, d1) \<Rightarrow> ([reply f ''delete room failed''], d1)
              | (Inr ok, d1) \<Rightarrow>
                  if \<not> ok then ([reply f ''room not found or no permission''], d1)
                  else
                    (let deleted = reply f (''room deleted: '' @ to_string r) in
                     case load_joined_room_ids (D 1) uid d1 of
                       (Inl e, d2) \<Rightarrow> ([deleted], d2)
                     | (Inr ids, d2) \<Rightarrow> ([set_joined_rooms_command f ids, deleted], d2)))))"

text \<open>The requests that refresh the rooms of all sessions of a user, none when the query fails.\<close>

definition refresh_user :: "db_env \<Rightarrow> string \<Rightarrow> db \<Rightarrow> exec_result" where
  "refresh_user D uid d =
     (case load_joined_room_ids D uid d of
        (Inl e, d1) \<Rightarrow> ([], d1)
      | (Inr ids, d1) \<Rightarrow> ([set_joined_rooms_for_user_command uid ids], d1))"

definition exec_invite_room ::
  "(nat \<Rightarrow> db_env) \<Rightarrow> string \<Rightarrow> string \<Rightarrow> fd \<Rightarrow> string \<Rightarrow> db \<Rightarrow> exec_result" where
  "exec_invite_room D room u f uid d =
     (if uid = [] then ([reply f ''login first''], d)
      else if uid = u then ([reply f ''cannot invite yourself''], d)
      else
        (case parse_room_id room of
           None \<Rightarrow> ([reply f ''invalid room id''], d)
         | Some r \<Rightarrow>
             (case invite_room (D 0) uid r u d of
                (Inl e, d1) \<Rightarrow> ([reply f ''invite room failed''], d1)
              | (Inr invited, d1) \<Rightarrow>
                  (let (inviter, d2) = refresh_user (D 1) uid d1; (invitee, d3) = refresh_user (D 2) u d2
                   in (inviter @ invitee @
                       [reply f (''room invite sent: room='' @ to_string r @ '' user='' @ u)], d3))
              | (Inr already_member, d1) \<Rightarrow> ([reply f ''user already in room''], d1)
              | (Inr not_friend, d1) \<Rightarrow> ([reply f ''can invite friends only''], d1)
              | (Inr room_not_found_or_no_permission, d1) \<Rightarrow>
                  ([reply f ''room not found or no permission''], d1))))"

definition exec_leave_room :: "(nat \<Rightarrow> db_env) \<Rightarrow> string \<Rightarrow> fd \<Rightarrow> string \<Rightarrow> db \<Rightarrow> exec_result" where
  "exec_leave_room D room f uid d =
     (if uid = [] then ([reply f ''login first''], d)
      else
        (case parse_room_id room of
           None \<Rightarrow> ([reply f ''invalid room id''], d)
         | Some r \<Rightarrow>
             (case leave_room (D 0) uid r d of
                (Inl e, d1) \<Rightarrow> ([reply f ''leave room failed''], d1)
              | (Inr left_room, d1) \<Rightarrow>
                  (let (own, d2) = refresh_user (D 1) uid d1
                   in (own @ [reply f (''left room: '' @ to_string r)], d2))
              | (Inr not_member_or_room_not_found, d1) \<Rightarrow> ([reply f ''room not found or not joined''], d1)
              | (Inr owner_cannot_leave, d1) \<Rightarrow>
                  ([reply f ''room owner cannot leave (delete room instead)''], d1))))"

definition exec_list_room :: "(nat \<Rightarrow> db_env) \<Rightarrow> fd \<Rightarrow> string \<Rightarrow> db \<Rightarrow> exec_result" where
  "exec_list_room D f uid d =
     (if uid = [] then ([reply f ''login first''], d)
      else
        (case list_rooms (D 0) uid d of
           (Inl e, d1) \<Rightarrow> ([reply f ''list room failed''], d1)
         | (Inr rs, d1) \<Rightarrow>
             if rs = [] then ([reply f ''no rooms''], d1)
             else (reply f (''rooms: '' @ to_string (int (length rs))) #
                   map (\<lambda>ri. reply f (''room: id='' @ to_string (ri_id ri) @ '' name='' @ ri_name ri @
                     '' owner='' @ ri_owner ri @ '' members='' @ to_string (int (ri_members ri)))) rs, d1)))"

definition exec_history ::
  "(nat \<Rightarrow> db_env) \<Rightarrow> string \<Rightarrow> string \<Rightarrow> fd \<Rightarrow> string \<Rightarrow> db \<Rightarrow> exec_result" where
  "exec_history D room lim f uid d =
     (if uid = [] then ([reply f ''login first''], d)
      else
        (case parse_room_id room of
           None \<Rightarrow> ([reply f ''invalid room id''], d)
         | Some r \<Rightarrow>
             (case parse_limit lim of
                None \<Rightarrow> ([reply f ''invalid limit (1-100)''], d)
              | Some n \<Rightarrow>
                  (case list_room_messages (D 0) uid r n d of
                     (Inl e, d1) \<Rightarrow> ([reply f ''history query failed''], d1)
                   | (Inr None, d1) \<Rightarrow> ([reply f ''room not found or no permission''], d1)
                   | (Inr (Some ms), d1) \<Rightarrow>
                       (reply f (''history: room='' @ to_string r @ '' count='' @ to_string (int (length ms))) #
                        map (\<lambda>m. reply f (''history: id='' @ to_string (mi_id m) @ '' at='' @ mi_created m @
                          '' from='' @ mi_sender m @ '' text='' @ mi_body m)) ms, d1)))))"

fun execute_command :: "(nat \<Rightarrow> db_env) \<Rightarrow> command \<Rightarrow> fd \<Rightarrow> string \<Rightarrow> db \<Rightarrow> exec_result" where
  "execute_command D (cmd_login uid p) f _ d = exec_login D uid p f d"
| "execute_command D (cmd_register uid p) f _ d = exec_register D uid p f d"
| "execute_command D (cmd_say room txt) f uid d = exec_say D room txt f uid d"
| "execute_command D (cmd_nick nk) f uid d = exec_nick D nk f uid d"
| "execute_command D (cmd_response _) f _ d = ([], d)"
| "execute_command D (cmd_friend_request u) f uid d = exec_friend_request D u f uid d"
| "execute_command D (cmd_friend_accept u) f uid d = exec_friend_accept D u f uid d"
| "execute_command D (cmd_friend_reject u) f uid d = exec_friend_reject D u f uid d"
| "execute_command D (cmd_friend_remove u) f uid d = exec_friend_remove D u f uid d"
| "execute_command D cmd_list_friend f uid d = exec_list_friend D f uid d"
| "execute_command D cmd_list_friend_request f uid d = exec_list_friend_request D f uid d"
| "execute_command D (cmd_create_room name) f uid d = exec_create_room D name f uid d"
| "execute_command D (cmd_delete_room room) f uid d = exec_delete_room D room f uid d"
| "execute_command D (cmd_invite_room room u) f uid d = exec_invite_room D room u f uid d"
| "execute_command D (cmd_leave_room room) f uid d = exec_leave_room D room f uid d"
| "execute_command D cmd_list_room f uid d = exec_list_room D f uid d"
| "execute_command D (cmd_history room lim) f uid d = exec_history D room lim f uid d"

definition execute :: "(nat \<Rightarrow> db_env) \<Rightarrow> db_task \<Rightarrow> db \<Rightarrow> exec_result" where
  "execute D t d = execute_command D (t_cmd t) (t_fd t) (t_user_id t) d"

text \<open>The requests arrive at the registry one after the other.\<close>

definition execute_on ::
  "('k, 's) env \<Rightarrow> (nat \<Rightarrow> db_env) \<Rightarrow> db_task \<Rightarrow> db \<times> ('k, 's) registry \<Rightarrow> db \<times> ('k, 's) registry" where
  "execute_on E D t p =
     (let (d, R) = p; (reqs, d1) = execute D t d in (d1, fold (request E) reqs R))"

lemmas exec_defs =
  exec_login_def exec_register_def exec_say_def exec_nick_def exec_friend_request_def
  exec_friend_accept_def exec_friend_reject_def exec_friend_remove_def exec_list_friend_def
  exec_list_friend_request_def exec_create_room_def exec_delete_room_def exec_invite_room_def
  exec_leave_room_def exec_list_room_def exec_history_def

end
