(* ===== verification/Registry_Invariant.thy ===== *)
theory Registry_Invariant
  imports Epoll_Registry
begin

section \<open>The registry's invariant\<close>

text \<open>
  \<open>reg_ok\<close>: the sessions are well formed and stored under their own descriptor, the two indexes
  are the mirror images of the sessions, and the client count is the number of sessions. It is
  preserved by every handler, whatever the kernel answers.
\<close>

definition rooms_of :: "(fd \<times> 's socket_info) list \<Rightarrow> fd \<Rightarrow> i64 set" where
  "rooms_of I f = (case map_of I f of None \<Rightarrow> {} | Some si \<Rightarrow> set (joined_room_ids si))"

definition user_keys :: "'s socket_info \<Rightarrow> string list" where
  "user_keys si = (if user_id si = [] then [] else [user_id si])"

definition users_of :: "(fd \<times> 's socket_info) list \<Rightarrow> fd \<Rightarrow> string set" where
  "users_of I f = (case map_of I f of None \<Rightarrow> {} | Some si \<Rightarrow> set (user_keys si))"

definition socket_ok :: "fd \<Rightarrow> 's socket_info \<Rightarrow> bool" where
  "socket_ok f si \<longleftrightarrow> ufd si = f \<and> 0 \<le> f \<and> buf_ok (recv si) \<and> buf_ok (send si) \<and>
     distinct (joined_room_ids si) \<and> (\<forall>r \<in> set (joined_room_ids si). 0 < r)"

definition core_ok :: "(fd \<times> 's socket_info) list \<Rightarrow> i64 index \<Rightarrow> string index \<Rightarrow> bool" where
  "core_ok I rm um \<longleftrightarrow>
     distinct (keys I) \<and> (\<forall>f si. map_of I f = Some si \<longrightarrow> socket_ok f si) \<and>
     index_wf rm \<and> index_wf um \<and>
     (\<forall>r f. f \<in> index_lookup rm r \<longleftrightarrow> r \<in> rooms_of I f) \<and>
     (\<forall>u f. f \<in> index_lookup um u \<longleftrightarrow> u \<in> users_of I f)"

definition reg_ok :: "('k, 's) registry \<Rightarrow> bool" where
  "reg_ok R \<longleftrightarrow>
     core_ok (infos R) (room_online_fds R) (user_online_fds R) \<and>
     connected_client_count R = length (infos R)"

lemma reg_ok_upd [simp]:
  "reg_ok (R\<lparr>kst := k\<rparr>) = reg_ok R" "reg_ok (R\<lparr>cmd_q := q\<rparr>) = reg_ok R"
  "reg_ok (R\<lparr>kst := k, cmd_q := q\<rparr>) = reg_ok R"
  by (simp_all add: reg_ok_def)

lemma reg_ok_init [simp]: "reg_ok (registry_init epf wfd b k)"
  by (simp add: reg_ok_def registry_init_def core_ok_def rooms_of_def users_of_def)

lemma core_ok_socket: "core_ok I rm um \<Longrightarrow> map_of I f = Some si \<Longrightarrow> socket_ok f si"
  by (simp add: core_ok_def)

lemma reg_ok_socket: "reg_ok R \<Longrightarrow> info R f = Some si \<Longrightarrow> socket_ok f si"
  by (auto simp: reg_ok_def dest: core_ok_socket)

lemma reg_ok_ufd: "reg_ok R \<Longrightarrow> info R f = Some si \<Longrightarrow> ufd si = f \<and> 0 \<le> f"
  using reg_ok_socket[of R f si] by (simp add: socket_ok_def)

lemma user_keys_upd [simp]:
  "user_keys (si\<lparr>user_id := u\<rparr>) = (if u = [] then [] else [u])"
  "user_keys (si\<lparr>joined_room_ids := rs\<rparr>) = user_keys si"
  "user_keys (si\<lparr>joined_room_ids := rs, user_id := u\<rparr>) = (if u = [] then [] else [u])"
  by (simp_all add: user_keys_def)

lemma rooms_of_put [simp]:
  "rooms_of (map_put f si I) = (rooms_of I)(f := set (joined_room_ids si))"
  by (auto simp: rooms_of_def fun_eq_iff)

lemma users_of_put [simp]: "users_of (map_put f si I) = (users_of I)(f := set (user_keys si))"
  by (auto simp: users_of_def fun_eq_iff)

lemma rooms_of_erase [simp]: "rooms_of (map_erase f I) = (rooms_of I)(f := {})"
  by (auto simp: rooms_of_def fun_eq_iff)

lemma users_of_erase [simp]: "users_of (map_erase f I) = (users_of I)(f := {})"
  by (auto simp: users_of_def fun_eq_iff)

lemma rooms_of_Some: "map_of I f = Some si \<Longrightarrow> rooms_of I f = set (joined_room_ids si)"
  by (simp add: rooms_of_def)

lemma users_of_Some: "map_of I f = Some si \<Longrightarrow> users_of I f = set (user_keys si)"
  by (simp add: users_of_def)

subsection \<open>Replacing and erasing one session\<close>

lemma core_put:
  assumes "core_ok I rm um" and "socket_ok f si'" and "index_wf rm'" and "index_wf um'"
    and "\<And>r h. h \<in> index_lookup rm' r \<longleftrightarrow> r \<in> ((rooms_of I)(f := set (joined_room_ids si'))) h"
    and "\<And>u h. h \<in> index_lookup um' u \<longleftrightarrow> u \<in> ((users_of I)(f := set (user_keys si'))) h"
  shows "core_ok (map_put f si' I) rm' um'"
  using assms unfolding core_ok_def rooms_of_put users_of_put by simp

lemma core_put_same:
  assumes "core_ok I rm um" and "map_of I f = Some si" and "socket_ok f si'"
    and "set (joined_room_ids si') = set (joined_room_ids si)" and "user_id si' = user_id si"
  shows "core_ok (map_put f si' I) rm um"
  using assms
  by (intro core_put[OF assms(1,3)]) (auto simp: core_ok_def rooms_of_Some users_of_Some user_keys_def)

lemma core_put_rooms:
  assumes "core_ok I rm um" and "map_of I f = Some si" and "socket_ok f si'"
    and "set (joined_room_ids si') = set new" and "user_id si' = user_id si"
  shows "core_ok (map_put f si' I)
    (fold (\<lambda>r. index_insert r f) new (fold (\<lambda>r. index_erase r f) (joined_room_ids si) rm)) um"
proof (rule core_put[OF assms(1,3)])
  have wf: "index_wf rm" "index_wf um"
    and mr: "\<And>r h. h \<in> index_lookup rm r \<longleftrightarrow> r \<in> rooms_of I h"
    and mu: "\<And>u h. h \<in> index_lookup um u \<longleftrightarrow> u \<in> users_of I h"
    using assms(1) unfolding core_ok_def by blast+
  show "index_wf um" by fact
  show "index_wf (fold (\<lambda>r. index_insert r f) new
      (fold (\<lambda>r. index_erase r f) (joined_room_ids si) rm))"
    using wf(1) by (intro ix.wf_fold_ins ix.wf_fold_del)
  show "h \<in> index_lookup (fold (\<lambda>r. index_insert r f) new
      (fold (\<lambda>r. index_erase r f) (joined_room_ids si) rm)) r \<longleftrightarrow>
      r \<in> ((rooms_of I)(f := set (joined_room_ids si'))) h" for r h
    unfolding assms(4) by (rule ix.mirror_exchange[OF mr rooms_of_Some[OF assms(2)]])
  show "h \<in> index_lookup um u \<longleftrightarrow> u \<in> ((users_of I)(f := set (user_keys si'))) h" for u h
    using mu assms(2,5) by (simp add: users_of_Some user_keys_def)
qed

lemma core_put_user:
  assumes "core_ok I rm um" and "map_of I f = Some si" and "socket_ok f si'"
    and "set (joined_room_ids si') = set (joined_room_ids si)"
  shows "core_ok (map_put f si' I) rm
    (fold (\<lambda>u. index_insert u f) (user_keys si') (fold (\<lambda>u. index_erase u f) (user_keys si) um))"
proof (rule core_put[OF assms(1,3)])
  have wf: "index_wf rm" "index_wf um"
    and mr: "\<And>r h. h \<in> index_lookup rm r \<longleftrightarrow> r \<in> rooms_of I h"
    and mu: "\<And>u h. h \<in> index_lookup um u \<longleftrightarrow> u \<in> users_of I h"
    using assms(1) unfolding core_ok_def by blast+
  show "index_wf rm" by fact
  show "index_wf (fold (\<lambda>u. index_insert u f) (user_keys si')
      (fold (\<lambda>u. index_erase u f) (user_keys si) um))"
    using wf(2) by (intro ix.wf_fold_ins ix.wf_fold_del)
  show "h \<in> index_lookup (fold (\<lambda>u. index_insert u f) (user_keys si')
      (fold (\<lambda>u. index_erase u f) (user_keys si) um)) u \<longleftrightarrow>
      u \<in> ((users_of I)(f := set (user_keys si'))) h" for u h
    by (rule ix.mirror_exchange[OF mu users_of_Some[OF assms(2)]])
  show "h \<in> index_lookup rm r \<longleftrightarrow> r \<in> ((rooms_of I)(f := set (joined_room_ids si'))) h" for r h
    using mr assms(2,4) by (simp add: rooms_of_Some)
qed

lemma core_erase:
  assumes "core_ok I rm um" and "map_of I f = Some si"
  shows "core_ok (map_erase f I)
    (fold (\<lambda>r. index_erase r f) (joined_room_ids si) rm)
    (fold (\<lambda>u. index_erase u f) (user_keys si) um)"
proof -
  have wf: "index_wf rm" "index_wf um"
    and mr: "\<And>r h. h \<in> index_lookup rm r \<longleftrightarrow> r \<in> rooms_of I h"
    and mu: "\<And>u h. h \<in> index_lookup um u \<longleftrightarrow> u \<in> users_of I h"
    and d: "distinct (keys I)" and s: "\<And>h si. map_of I h = Some si \<Longrightarrow> socket_ok h si"
    using assms(1) unfolding core_ok_def by blast+
  show ?thesis unfolding core_ok_def
  proof (intro conjI allI impI)
    show "distinct (keys (map_erase f I))" using d by simp
    show "index_wf (fold (\<lambda>r. index_erase r f) (joined_room_ids si) rm)"
      using wf(1) by (rule ix.wf_fold_del)
    show "index_wf (fold (\<lambda>u. index_erase u f) (user_keys si) um)"
      using wf(2) by (rule ix.wf_fold_del)
    show "h \<in> index_lookup (fold (\<lambda>r. index_erase r f) (joined_room_ids si) rm) r \<longleftrightarrow>
        r \<in> rooms_of (map_erase f I) h" for r h
      unfolding rooms_of_erase by (rule ix.mirror_drop[OF mr rooms_of_Some[OF assms(2)]])
    show "h \<in> index_lookup (fold (\<lambda>u. index_erase u f) (user_keys si) um) u \<longleftrightarrow>
        u \<in> users_of (map_erase f I) h" for u h
      unfolding users_of_erase by (rule ix.mirror_drop[OF mu users_of_Some[OF assms(2)]])
  qed (auto intro: s split: if_splits)
qed

lemma core_add:
  assumes "core_ok I rm um" and "map_of I f = None" and "socket_ok f si"
    and "joined_room_ids si = []" and "user_id si = []"
  shows "core_ok (I @ [(f, si)]) rm um"
proof -
  have "f \<notin> set (keys I)" using assms(2) by (simp add: mem_keys_iff)
  then have I: "I @ [(f, si)] = map_put f si I" by (simp add: keys_put_new)
  have "rooms_of I f = {}" "users_of I f = {}" using assms(2) by (simp_all add: rooms_of_def users_of_def)
  then show ?thesis unfolding I using assms(4,5)
    by (intro core_put[OF assms(1,3)]) (use assms(1) in \<open>auto simp: core_ok_def user_keys_def\<close>)
qed

lemma length_put_info: "map_of I f = Some si \<Longrightarrow> length (map_put f si' I) = length I"
proof -
  assume "map_of I f = Some si"
  then have "f \<in> set (keys I)" by (rule map_of_in_keys)
  then have "length (keys (map_put f si' I)) = length (keys I)" by simp
  then show ?thesis by simp
qed

subsection \<open>The operations, in terms of sessions and indexes\<close>

definition joinable :: "i64 list \<Rightarrow> i64 list" where
  "joinable room_ids = filter (\<lambda>r. 0 < r) room_ids"

lemma fold_join_room:
  "fold join_room room_ids (si, R) =
     (si\<lparr>joined_room_ids := fold set_insert (joinable room_ids) (joined_room_ids si)\<rparr>,
      R\<lparr>room_online_fds :=
          fold (\<lambda>r. index_insert r (ufd si)) (joinable room_ids) (room_online_fds R)\<rparr>)"
  by (induction room_ids arbitrary: si R) (simp_all add: join_room_def joinable_def)

lemma set_fold_set_insert: "set (fold set_insert xs ys) = set ys \<union> set xs"
  by (induction xs arbitrary: ys) auto

lemma distinct_fold_set_insert: "distinct ys \<Longrightarrow> distinct (fold set_insert xs ys)"
  by (induction xs arbitrary: ys) auto

lemma set_fd_joined_rooms_eq:
  "set_fd_joined_rooms si room_ids R =
     (si\<lparr>joined_room_ids := fold set_insert (joinable room_ids) []\<rparr>,
      R\<lparr>room_online_fds :=
          fold (\<lambda>r. index_insert r (ufd si)) (joinable room_ids)
            (fold (\<lambda>r. index_erase r (ufd si)) (joined_room_ids si) (room_online_fds R))\<rparr>)"
  by (simp add: set_fd_joined_rooms_def remove_fd_from_room_index_def fold_join_room)

lemma remove_fd_from_user_index_eq:
  "remove_fd_from_user_index si R =
     R\<lparr>user_online_fds := fold (\<lambda>u. index_erase u (ufd si)) (user_keys si) (user_online_fds R)\<rparr>"
  by (simp add: remove_fd_from_user_index_def user_keys_def)

lemma put_info_sel [simp]:
  "infos (put_info f si R) = map_put f si (infos R)"
  "room_online_fds (put_info f si R) = room_online_fds R"
  "user_online_fds (put_info f si R) = user_online_fds R"
  "connected_client_count (put_info f si R) = connected_client_count R"
  "cmd_q (put_info f si R) = cmd_q R" "epfd (put_info f si R) = epfd R"
  "wake_fd (put_info f si R) = wake_fd R" "kst (put_info f si R) = kst R"
  "tls_ctx_is_server (put_info f si R) = tls_ctx_is_server R"
  by (simp_all add: put_info_def)

lemma reg_ok_put_info:
  assumes "reg_ok R" and "info R f = Some si" and "socket_ok f si'"
    and "set (joined_room_ids si') = set (joined_room_ids si)" and "user_id si' = user_id si"
  shows "reg_ok (put_info f si' R)"
  using assms core_put_same[OF _ assms(2-5)] length_put_info[OF assms(2), of si']
  by (simp add: reg_ok_def)

lemma socket_ok_upd [simp]:
  "socket_ok f (si\<lparr>interest := i\<rparr>) = socket_ok f si"
  "socket_ok f (si\<lparr>nickname := n\<rparr>) = socket_ok f si"
  "socket_ok f (si\<lparr>user_id := u\<rparr>) = socket_ok f si"
  "socket_ok f (si\<lparr>tls := t\<rparr>) = socket_ok f si"
  "socket_ok f (si\<lparr>is_closed := c\<rparr>) = socket_ok f si"
  by (simp_all add: socket_ok_def)

lemma socket_ok_send:
  "socket_ok f si \<Longrightarrow> socket_ok f (si\<lparr>send := snd (send_append_cmd c (send si))\<rparr>)"
  by (simp add: socket_ok_def send_append_cmd_def)

lemma socket_ok_rooms:
  "socket_ok f si \<Longrightarrow> socket_ok f (si\<lparr>joined_room_ids := fold set_insert (joinable room_ids) []\<rparr>)"
  by (auto simp: socket_ok_def set_fold_set_insert distinct_fold_set_insert joinable_def)

lemma socket_ok_new: "0 \<le> f \<Longrightarrow> socket_ok f (new_socket t i f e)"
  by (simp add: socket_ok_def new_socket_def)

subsection \<open>Preservation\<close>

lemma unregister_fd_none: "f = - 1 \<or> info R f = None \<Longrightarrow> snd (unregister_fd E f R) = R"
  by (auto simp: unregister_fd_def)

lemma unregister_fd_some:
  assumes "f \<noteq> - 1" and "info R f = Some si"
  shows "unregister_fd E f R = (Inr (),
    R\<lparr>infos := map_erase f (infos R),
      room_online_fds := fold (\<lambda>r. index_erase r (ufd si)) (joined_room_ids si) (room_online_fds R),
      user_online_fds := fold (\<lambda>u. index_erase u (ufd si)) (user_keys si) (user_online_fds R),
      connected_client_count := length (map_erase f (infos R)),
      kst := close_fd E (ufd si) (snd (del_fd E (epfd R) f (kst R)))\<rparr>)"
  using assms
  by (simp add: unregister_fd_def remove_fd_from_room_index_def remove_fd_from_user_index_eq
      case_prod_beta)

lemma reg_ok_unregister:
  assumes "reg_ok R"
  shows "reg_ok (snd (unregister_fd E f R))"
proof (cases "f = - 1 \<or> info R f = None")
  case True
  then show ?thesis using assms by (simp add: unregister_fd_none)
next
  case False
  then obtain si where si: "info R f = Some si" by auto
  have u: "ufd si = f" using reg_ok_ufd[OF assms si] by simp
  show ?thesis
    using core_erase[OF _ si] assms False u by (simp add: unregister_fd_some[OF _ si] reg_ok_def)
qed

lemma reg_ok_sync_interest:
  assumes "reg_ok R" and "info R f = Some si0" and "socket_ok f si"
    and "joined_room_ids si = joined_room_ids si0" and "user_id si = user_id si0"
  shows "reg_ok (snd (sync_interest E f si R))"
proof -
  have "reg_ok (put_info f (si\<lparr>interest := interest si\<rparr>) (R\<lparr>kst := k\<rparr>))" for k
    by (rule reg_ok_put_info[where si = si0]) (use assms in simp_all)
  then show ?thesis
    by (auto simp: sync_interest_def update_interest_def Let_def case_prod_beta reg_ok_unregister
        split: sum.splits)
qed

lemma reg_ok_append_send:
  assumes "reg_ok R" and "append_send E f c R = Some (res, R')"
  shows "reg_ok R'"
proof -
  obtain si where si: "info R f = Some si"
    using assms(2) by (auto simp: append_send_def split: option.splits)
  note ok = socket_ok_send[OF reg_ok_socket[OF assms(1) si], of c]
  have put: "reg_ok (put_info f (si\<lparr>send := snd (send_append_cmd c (send si))\<rparr>) R)"
    by (rule reg_ok_put_info[OF assms(1) si ok]) simp_all
  have sync: "reg_ok (snd (sync_interest E f
      (si\<lparr>send := snd (send_append_cmd c (send si)), interest := i\<rparr>) R))" for i
    by (rule reg_ok_sync_interest[OF assms(1) si]) (use ok in \<open>simp_all add: socket_ok_def\<close>)
  from assms(2) put sync show ?thesis
    by (auto simp: append_send_def si Let_def case_prod_beta split: if_splits sum.splits)
qed

lemma try_step_Inr:
  "try_step p g = Some (Inr b, k') \<longleftrightarrow> (\<exists>a k. p = (Inr a, k) \<and> g a k = Some (Inr b, k'))"
  by (auto simp: try_step_def split: prod.splits sum.splits)

lemma register_setup_nonneg: "register_setup E epf s f i k = Some (Inr (e, t), k') \<Longrightarrow> 0 \<le> f"
  by (auto simp: register_setup_def try_step_Inr bind_eq_Some_conv create_server_session_def
      split: if_splits)

lemma register_fd_cases:
  assumes "register_fd E f i R = Some (res, R')"
  obtains k where "R' = R\<lparr>kst := close_fd E f k\<rparr>" and "isl res"
  | t e k where "f \<notin> set (keys (infos R))" and "0 \<le> f" and "res = Inr f"
      and "register_setup E (epfd R) (tls_ctx_is_server R) f i (kst R) = Some (Inr (e, t), k)"
      and "R' = R\<lparr>infos := infos R @ [(f, new_socket t i f e)], kst := k,
                connected_client_count := Suc (length (infos R))\<rparr>"
proof -
  consider "f = - 1" | "f \<noteq> - 1" "f \<in> set (keys (infos R))" | "f \<noteq> - 1" "f \<notin> set (keys (infos R))" by blast
  then show thesis
  proof cases
    case 3
    with assms obtain r k where
      r: "register_setup E (epfd R) (tls_ctx_is_server R) f i (kst R) = Some (r, k)"
      by (auto simp: register_fd_def bind_eq_Some_conv)
    show thesis
    proof (cases r)
      case (Inl e)
      then show thesis using assms 3 r that(1) by (auto simp: register_fd_def)
    next
      case (Inr et)
      obtain e t where et: "et = (e, t)" by (cases et)
      show thesis
        using assms 3 r Inr et register_setup_nonneg[of E "epfd R" "tls_ctx_is_server R" f i "kst R" e t k]
        by (intro that(2)[where e = e and t = t and k = k]) (auto simp: register_fd_def Let_def)
    qed
  qed (use assms that(1) in \<open>auto simp: register_fd_def Let_def\<close>)
qed

lemma reg_ok_register:
  assumes "reg_ok R" and "register_fd E f i R = Some (res, R')"
  shows "reg_ok R'"
  using assms(2)
proof (cases rule: register_fd_cases)
  case (2 t e k)
  have "info R f = None" using 2(1) by (auto simp: mem_keys_iff)
  with 2 assms(1) core_add[OF _ _ socket_ok_new[OF 2(2)], of "infos R"] show ?thesis
    by (simp add: reg_ok_def new_socket_def)
qed (simp add: assms(1))

lemma reg_ok_set_rooms_at: "reg_ok R \<Longrightarrow> reg_ok (set_rooms_at room_ids f R)"
proof -
  assume ok: "reg_ok R"
  show ?thesis
  proof (cases "info R f")
    case (Some si)
    have u: "ufd si = f" using reg_ok_ufd[OF ok Some] by simp
    show ?thesis
      using core_put_rooms[OF _ Some socket_ok_rooms[OF reg_ok_socket[OF ok Some], of room_ids],
          where new = "joinable room_ids"] ok length_put_info[OF Some]
      by (simp add: set_rooms_at_def Some set_fd_joined_rooms_eq reg_ok_def u set_fold_set_insert)
  qed (simp add: set_rooms_at_def ok)
qed

lemma reg_ok_fold_set_rooms: "reg_ok R \<Longrightarrow> reg_ok (fold (set_rooms_at room_ids) fds R)"
  by (induction fds arbitrary: R) (simp_all add: reg_ok_set_rooms_at)

lemma handle_set_user_id_eq:
  assumes "info R f = Some si" and "ufd si = f"
  shows "handle_set_user_id f uid R = Some
    ((let si' = si\<lparr>joined_room_ids := [], user_id := uid\<rparr> in
      R\<lparr>infos := map_put f si' (infos R),
        room_online_fds := fold (\<lambda>r. index_erase r f) (joined_room_ids si) (room_online_fds R),
        user_online_fds := fold (\<lambda>u. index_insert u f) (user_keys si')
          (fold (\<lambda>u. index_erase u f) (user_keys si) (user_online_fds R))\<rparr>))"
  using assms
  by (simp add: handle_set_user_id_def set_fd_joined_rooms_eq remove_fd_from_user_index_eq Let_def
      joinable_def put_info_def)

lemma reg_ok_set_user_id:
  assumes "reg_ok R" and "handle_set_user_id f uid R = Some R'"
  shows "reg_ok R'"
proof (cases "info R f")
  case None
  then show ?thesis using assms by (simp add: handle_set_user_id_def)
next
  case (Some si)
  have u: "ufd si = f" using reg_ok_ufd[OF assms(1) Some] by simp
  have s0: "socket_ok f si" by (rule reg_ok_socket[OF assms(1) Some])
  define si1 where "si1 = si\<lparr>joined_room_ids := []\<rparr>"
  define rm where "rm = fold (\<lambda>r. index_erase r f) (joined_room_ids si) (room_online_fds R)"
  have s1: "socket_ok f si1" using socket_ok_rooms[OF s0, of "[]"] by (simp add: si1_def joinable_def)
  have "core_ok (infos R) (room_online_fds R) (user_online_fds R)"
    using assms(1) by (simp add: reg_ok_def)
  from core_put_rooms[OF this Some s1, of "[]"]
  have c1: "core_ok (map_put f si1 (infos R)) rm (user_online_fds R)"
    by (simp add: si1_def rm_def)
  have s2: "socket_ok f (si1\<lparr>user_id := uid\<rparr>)" using s1 by simp
  have same: "map_put f s (map_put f t I) = map_put f s I" for s t :: "'b socket_info" and I
    by (induction I) (auto simp: map_put_def)
  from core_put_user[OF c1 _ s2, of si1] show ?thesis
    using handle_set_user_id_eq[OF Some u, of uid] assms length_put_info[OF Some]
    by (simp add: reg_ok_def Let_def same rm_def si1_def)
qed

lemma reg_ok_change_nickname:
  assumes "reg_ok R" and "handle_change_nickname f nick R = Some R'"
  shows "reg_ok R'"
proof (cases "info R f")
  case (Some si)
  from reg_ok_put_info[OF assms(1) Some, of "si\<lparr>nickname := nick\<rparr>"] show ?thesis
    using assms Some reg_ok_socket[OF assms(1) Some] by (simp add: handle_change_nickname_def)
qed (use assms in \<open>simp add: handle_change_nickname_def\<close>)

lemma reg_ok_broadcast_loop:
  "broadcast_loop E c fs R = Some R' \<Longrightarrow> reg_ok R \<Longrightarrow> reg_ok R'"
  by (induction fs arbitrary: R)
     (auto simp: bind_eq_Some_conv split: if_splits dest: reg_ok_append_send)

lemma reg_ok_targets_loop:
  "targets_loop E c fs R = Some R' \<Longrightarrow> reg_ok R \<Longrightarrow> reg_ok R'"
  by (induction fs arbitrary: R)
     (auto simp: bind_eq_Some_conv split: option.splits dest: reg_ok_append_send)

lemma reg_ok_friend_loop:
  "friend_loop E f ids R = Some R' \<Longrightarrow> reg_ok R \<Longrightarrow> reg_ok R'"
  by (induction ids arbitrary: R) (auto simp: bind_eq_Some_conv dest: reg_ok_append_send)

lemma reg_ok_handle_command:
  assumes "reg_ok R" and "handle_command E c R = Some R'"
  shows "reg_ok R'"
proof (cases c)
  case (register_command f i)
  then show ?thesis using assms reg_ok_register by (auto simp: handle_register_def)
next
  case (unregister_command f)
  then show ?thesis using assms reg_ok_unregister by (auto simp: handle_unregister_def)
next
  case (send_one_command f c)
  then show ?thesis using assms
    by (auto simp: handle_send_one_def split: option.splits dest: reg_ok_append_send)
next
  case (broadcast_command f c)
  then show ?thesis using assms reg_ok_broadcast_loop
    by (auto simp: handle_broadcast_def split: command.splits)
next
  case (change_nickname_command f nick)
  then show ?thesis using assms reg_ok_change_nickname by auto
next
  case (set_user_id_command f uid)
  then show ?thesis using assms reg_ok_set_user_id by auto
next
  case (set_joined_rooms_command f rooms)
  then show ?thesis using assms reg_ok_set_rooms_at by (auto simp: handle_set_joined_rooms_def)
next
  case (set_joined_rooms_for_user_command uid rooms)
  then show ?thesis using assms reg_ok_fold_set_rooms
    by (auto simp: handle_set_joined_rooms_for_user_def split: option.splits)
next
  case (send_friend_list_command f ids)
  show ?thesis
  proof (cases "info R f")
    case (Some si)
    then obtain h R1 where h: "append_send E f (cmd_response (''friends: '' @ to_string (int (length ids)))) R
        = Some (h, R1)" and r: "(case h of Inl _ \<Rightarrow> Some R1 | Inr _ \<Rightarrow> friend_loop E f ids R1) = Some R'"
      using assms(2) send_friend_list_command by (auto simp: handle_send_friend_list_def bind_eq_Some_conv)
    have "reg_ok R1" by (rule reg_ok_append_send[OF assms(1) h])
    with r show ?thesis by (cases h) (auto dest: reg_ok_friend_loop)
  qed (use assms send_friend_list_command in \<open>simp add: handle_send_friend_list_def\<close>)
next
  case (room_broadcast_command f room c)
  then show ?thesis using assms reg_ok_targets_loop
    by (auto simp: handle_room_broadcast_def split: option.splits)
qed

lemma reg_ok_run_commands: "run_commands E cs R = Some R' \<Longrightarrow> reg_ok R \<Longrightarrow> reg_ok R'"
  by (induction cs arbitrary: R) (auto simp: bind_eq_Some_conv dest: reg_ok_handle_command)

subsection \<open>Properties\<close>

text \<open>
  C12. The registry's indexes never go stale. Whatever commands a batch holds and whatever the
  kernel answers to the system calls (failures included), if the registry was consistent before
  \<open>work\<close> and \<open>work\<close> returns, it is consistent after: for every room, the indexed descriptors are
  exactly the sessions that joined it; for every user, exactly the sessions logged in as that
  user; no index entry is empty; sessions are stored under their own descriptor, their joined
  rooms are positive, their buffer offsets are in range; and the client count is exact.
\<close>

theorem work_preserves_consistency:
  assumes "reg_ok R" and "work E R = Some R'"
  shows "reg_ok R' \<and>
    (\<forall>r. index_lookup (room_online_fds R') r =
       {f. \<exists>si. info R' f = Some si \<and> r \<in> set (joined_room_ids si)}) \<and>
    (\<forall>u. index_lookup (user_online_fds R') u =
       {f. \<exists>si. info R' f = Some si \<and> user_id si = u \<and> u \<noteq> []}) \<and>
    connected_client_count R' = length (infos R')"
proof -
  from assms(2) have ok: "reg_ok R'"
    by (auto simp: work_def bind_eq_Some_conv Let_def assms(1) dest!: reg_ok_run_commands)
  then have m: "\<And>r f. f \<in> index_lookup (room_online_fds R') r \<longleftrightarrow> r \<in> rooms_of (infos R') f"
      "\<And>u f. f \<in> index_lookup (user_online_fds R') u \<longleftrightarrow> u \<in> users_of (infos R') f"
    unfolding reg_ok_def core_ok_def by blast+
  have "index_lookup (room_online_fds R') r =
      {f. \<exists>si. info R' f = Some si \<and> r \<in> set (joined_room_ids si)}" for r
    using m(1) by (auto simp: rooms_of_def split: option.splits)
  moreover have "index_lookup (user_online_fds R') u =
      {f. \<exists>si. info R' f = Some si \<and> user_id si = u \<and> u \<noteq> []}" for u
    using m(2) by (auto simp: users_of_def user_keys_def split: option.splits if_splits)
  ultimately show ?thesis using ok by (simp add: reg_ok_def)
qed

end
