(* ===== verification/Registry_Refinement.thy ===== *)
theory Registry_Refinement
  imports Registry_Invariant
begin

section \<open>The registry refines index-free sessions\<close>

text \<open>
  The contract of the registry, stated without indexes, buffers, interests or the kernel: a map
  from descriptors to sessions, and for each command what it does to that map. The registry
  implements it if the kernel keeps the epoll contract: no command then touches an erased
  session, and each one has exactly its specified effect.
\<close>

subsection \<open>The specification\<close>

record session =
  s_user :: string
  s_nick :: string
  s_rooms :: "i64 set"
  s_out :: string

type_synonym sessions = "fd \<Rightarrow> session option"

definition fresh_session :: session where
  "fresh_session = \<lparr>s_user = [], s_nick = ''guest'', s_rooms = {}, s_out = []\<rparr>"

definition deliver_to :: "(fd \<Rightarrow> string) \<Rightarrow> sessions \<Rightarrow> sessions" where
  "deliver_to out \<sigma> = (\<lambda>h. map_option (\<lambda>v. v\<lparr>s_out := s_out v @ out h\<rparr>) (\<sigma> h))"

definition spec_nickname :: "fd \<Rightarrow> sessions \<Rightarrow> string" where
  "spec_nickname f \<sigma> =
     (case \<sigma> f of None \<Rightarrow> ''guest'' | Some v \<Rightarrow> if s_nick v \<noteq> [] then s_nick v else ''guest'')"

definition spec_payload :: "fd \<Rightarrow> command \<Rightarrow> sessions \<Rightarrow> command" where
  "spec_payload f c \<sigma> =
     (case c of cmd_response txt \<Rightarrow> cmd_response (spec_nickname f \<sigma> @ '': '' @ txt) | _ \<Rightarrow> c)"

definition user_online :: "sessions \<Rightarrow> string \<Rightarrow> bool" where
  "user_online \<sigma> uid \<longleftrightarrow> uid \<noteq> [] \<and> (\<exists>f v. \<sigma> f = Some v \<and> s_user v = uid)"

definition friend_text :: "sessions \<Rightarrow> string \<Rightarrow> command" where
  "friend_text \<sigma> i =
     cmd_response (''friend: '' @ i @ '' ('' @ (if user_online \<sigma> i then ''online'' else ''offline'') @ '')'')"

definition friend_list_text :: "sessions \<Rightarrow> string list \<Rightarrow> string" where
  "friend_list_text \<sigma> ids =
     encode (cmd_response (''friends: '' @ to_string (int (length ids)))) @
     concat (map (\<lambda>i. encode (friend_text \<sigma> i)) ids)"

definition positive_rooms :: "i64 list \<Rightarrow> i64 set" where
  "positive_rooms room_ids = {r \<in> set room_ids. 0 < r}"

text \<open>A new connection is either taken up as a guest or refused.\<close>

fun spec_step :: "reg_command \<Rightarrow> sessions \<Rightarrow> sessions \<Rightarrow> bool" where
  "spec_step (register_command f i) \<sigma> \<sigma>' \<longleftrightarrow> \<sigma>' = \<sigma> \<or> (\<sigma> f = None \<and> \<sigma>' = \<sigma>(f \<mapsto> fresh_session))"
| "spec_step (unregister_command f) \<sigma> \<sigma>' \<longleftrightarrow> \<sigma>' = \<sigma>(f := None)"
| "spec_step (send_one_command f c) \<sigma> \<sigma>' \<longleftrightarrow>
     \<sigma>' = deliver_to (\<lambda>h. if h = f then encode c else []) \<sigma>"
| "spec_step (broadcast_command f c) \<sigma> \<sigma>' \<longleftrightarrow> \<sigma>' = deliver_to (\<lambda>h. encode (spec_payload f c \<sigma>)) \<sigma>"
| "spec_step (change_nickname_command f nick) \<sigma> \<sigma>' \<longleftrightarrow>
     \<sigma>' = \<sigma>(f := map_option (\<lambda>v. v\<lparr>s_nick := nick\<rparr>) (\<sigma> f))"
| "spec_step (set_user_id_command f uid) \<sigma> \<sigma>' \<longleftrightarrow>
     \<sigma>' = \<sigma>(f := map_option (\<lambda>v. v\<lparr>s_user := uid, s_rooms := {}\<rparr>) (\<sigma> f))"
| "spec_step (set_joined_rooms_command f rooms) \<sigma> \<sigma>' \<longleftrightarrow>
     \<sigma>' = \<sigma>(f := map_option (\<lambda>v. v\<lparr>s_rooms := positive_rooms rooms\<rparr>) (\<sigma> f))"
| "spec_step (set_joined_rooms_for_user_command uid rooms) \<sigma> \<sigma>' \<longleftrightarrow>
     \<sigma>' = (\<lambda>h. map_option (\<lambda>v. if uid \<noteq> [] \<and> s_user v = uid then v\<lparr>s_rooms := positive_rooms rooms\<rparr> else v) (\<sigma> h))"
| "spec_step (send_friend_list_command f ids) \<sigma> \<sigma>' \<longleftrightarrow>
     \<sigma>' = deliver_to (\<lambda>h. if h = f then friend_list_text \<sigma> ids else []) \<sigma>"
| "spec_step (room_broadcast_command f room c) \<sigma> \<sigma>' \<longleftrightarrow>
     \<sigma>' = deliver_to (\<lambda>h. if (\<exists>v. \<sigma> h = Some v \<and> room \<in> s_rooms v)
                              then encode (spec_payload f c \<sigma>) else []) \<sigma>"

fun spec_run :: "reg_command list \<Rightarrow> sessions \<Rightarrow> sessions \<Rightarrow> bool" where
  "spec_run [] \<sigma> \<sigma>' \<longleftrightarrow> \<sigma>' = \<sigma>"
| "spec_run (c # cs) \<sigma> \<sigma>' \<longleftrightarrow> (\<exists>\<sigma>1. spec_step c \<sigma> \<sigma>1 \<and> spec_run cs \<sigma>1 \<sigma>')"

subsection \<open>The abstraction\<close>

definition session_view :: "'s socket_info \<Rightarrow> session" where
  "session_view si =
     \<lparr>s_user = user_id si, s_nick = nickname si, s_rooms = set (joined_room_ids si),
      s_out = pending (send si)\<rparr>"

definition sess :: "('k, 's) registry \<Rightarrow> sessions" where
  "sess R = (\<lambda>f. map_option session_view (info R f))"

definition good :: "('k \<Rightarrow> fd set) \<Rightarrow> ('k, 's) registry \<Rightarrow> bool" where
  "good reg R \<longleftrightarrow> reg_ok R \<and> set (keys (infos R)) \<subseteq> reg (kst R)"

lemma sess_upd [simp]:
  "sess (R\<lparr>kst := k\<rparr>) = sess R" "sess (R\<lparr>cmd_q := q\<rparr>) = sess R"
  "sess (R\<lparr>kst := k, cmd_q := q\<rparr>) = sess R"
  by (simp_all add: sess_def)

lemma sess_Some: "info R f = Some si \<Longrightarrow> sess R f = Some (session_view si)"
  and sess_None: "info R f = None \<Longrightarrow> sess R f = None"
  by (simp_all add: sess_def)

lemma sess_eq_Some: "sess R f = Some v \<longleftrightarrow> (\<exists>si. info R f = Some si \<and> v = session_view si)"
  by (auto simp: sess_def)

lemma sess_put: "sess (put_info f si R) = (sess R)(f \<mapsto> session_view si)"
  by (auto simp: sess_def)

lemma deliver_to_nothing: "(\<And>h. \<sigma> h \<noteq> None \<Longrightarrow> out h = []) \<Longrightarrow> deliver_to out \<sigma> = \<sigma>"
proof (rule ext)
  assume a: "\<And>h. \<sigma> h \<noteq> None \<Longrightarrow> out h = []"
  show "deliver_to out \<sigma> h = \<sigma> h" for h
    using a[of h] by (cases "\<sigma> h") (simp_all add: deliver_to_def)
qed

lemma deliver_to_twice: "deliver_to o2 (deliver_to o1 \<sigma>) = deliver_to (\<lambda>h. o1 h @ o2 h) \<sigma>"
  by (auto simp: deliver_to_def fun_eq_iff option.map_comp o_def)

subsection \<open>Deliveries\<close>

text \<open>\<open>R'\<close> is \<open>R\<close> after \<open>out h\<close> was appended to the send buffer of each session \<open>h\<close>.\<close>

definition frame :: "('k, 's) registry \<Rightarrow> ('k, 's) registry \<Rightarrow> bool" where
  "frame R R' \<longleftrightarrow> epfd R' = epfd R \<and> wake_fd R' = wake_fd R \<and> cmd_q R' = cmd_q R \<and>
     tls_ctx_is_server R' = tls_ctx_is_server R"

definition delivers ::
  "('k \<Rightarrow> fd set) \<Rightarrow> (fd \<Rightarrow> string) \<Rightarrow> ('k, 's) registry \<Rightarrow> ('k, 's) registry \<Rightarrow> bool" where
  "delivers reg out R R' \<longleftrightarrow>
     good reg R' \<and> sess R' = deliver_to out (sess R) \<and> keys (infos R') = keys (infos R) \<and>
     room_online_fds R' = room_online_fds R \<and> user_online_fds R' = user_online_fds R \<and> frame R R'"

lemma delivers_refl: "good reg R \<Longrightarrow> (\<And>h. out h = []) \<Longrightarrow> delivers reg out R R"
  by (simp add: delivers_def frame_def deliver_to_nothing)

lemma delivers_trans:
  "delivers reg o1 R R1 \<Longrightarrow> delivers reg o2 R1 R2 \<Longrightarrow> (\<And>h. out h = o1 h @ o2 h) \<Longrightarrow>
   delivers reg out R R2"
proof -
  assume a: "\<And>h. out h = o1 h @ o2 h"
  have "out = (\<lambda>h. o1 h @ o2 h)" by (rule ext) (rule a)
  then show "delivers reg o1 R R1 \<Longrightarrow> delivers reg o2 R1 R2 \<Longrightarrow> delivers reg out R R2"
    by (simp add: delivers_def frame_def deliver_to_twice)
qed

lemma epoll_mod_ok:
  assumes "epoll_contract E e reg" and "f \<in> reg k"
  obtains k' where "k_epoll_mod E e f i k = (Inr (), k')" and "reg k' = reg k"
proof -
  have "fst (k_epoll_mod E e f i k) = Inr ()" and "reg (snd (k_epoll_mod E e f i k)) = reg k"
    using assms by (simp_all add: epoll_contract_def)
  then show thesis using that[of "snd (k_epoll_mod E e f i k)"] by (metis prod.collapse)
qed

lemma append_send_ok:
  assumes "epoll_contract E (epfd R) reg" and "good reg R" and si: "info R f = Some si"
  obtains si' k where "append_send E f c R = Some (Inr (), put_info f si' (R\<lparr>kst := k\<rparr>))"
    and "socket_ok f si'"
    and "session_view si' = (session_view si)\<lparr>s_out := pending (send si) @ encode c\<rparr>"
    and "joined_room_ids si' = joined_room_ids si" and "reg k = reg (kst R)"
proof -
  let ?b = "send_append_cmd c (send si)"
  define si1 where "si1 = si\<lparr>send := snd ?b\<rparr>"
  define si2 where "si2 = si1\<lparr>interest := interest si1 OR EPOLLOUT\<rparr>"
  have ok: "socket_ok f si" using assms(2) reg_ok_socket[OF _ si] by (simp add: good_def)
  have ok1: "socket_ok f si1" unfolding si1_def by (rule socket_ok_send[OF ok])
  have v1: "session_view si1 = (session_view si)\<lparr>s_out := pending (send si) @ encode c\<rparr>"
    using ok by (simp add: si1_def session_view_def send_append_cmd_def socket_ok_def)
  have own: "ufd si2 = f" using ok by (simp add: si2_def si1_def socket_ok_def)
  have "f \<in> reg (kst R)" using assms(2) map_of_in_keys[OF si] by (auto simp: good_def)
  then obtain k where k: "k_epoll_mod E (epfd R) f (interest si2) (kst R) = (Inr (), k)"
    "reg k = reg (kst R)" by (rule epoll_mod_ok[OF assms(1)])
  show thesis
  proof (cases "fst ?b")
    case False
    then have "append_send E f c R = Some (Inr (), put_info f si1 (R\<lparr>kst := kst R\<rparr>))"
      by (simp add: append_send_def si case_prod_beta si1_def)
    then show thesis using that[of si1 "kst R"] ok1 v1 by (simp add: si1_def)
  next
    case True
    then have "append_send E f c R = Some (Inr (), put_info f si2 (R\<lparr>kst := k\<rparr>))"
      using k(1) own
      by (simp add: append_send_def si case_prod_beta sync_interest_def update_interest_def
          lift_errno_def Let_def si2_def si1_def)
    then show thesis using that[of si2 k] ok1 v1 k(2)
      by (simp add: si2_def session_view_def) (simp add: si1_def)
  qed
qed

lemma append_send_delivers:
  assumes "epoll_contract E (epfd R) reg" and "good reg R" and "f \<in> set (keys (infos R))"
  shows "\<exists>R'. append_send E f c R = Some (Inr (), R') \<and>
    delivers reg (\<lambda>h. if h = f then encode c else []) R R'"
proof -
  obtain si where si: "info R f = Some si" using assms(3) by (auto simp: mem_keys_iff)
  from append_send_ok[OF assms(1,2) si, of c] obtain si' k where
    a: "append_send E f c R = Some (Inr (), put_info f si' (R\<lparr>kst := k\<rparr>))"
    and ok: "socket_ok f si'" and j: "joined_room_ids si' = joined_room_ids si"
    and v: "session_view si' = (session_view si)\<lparr>s_out := pending (send si) @ encode c\<rparr>"
    and k: "reg k = reg (kst R)" by blast
  have "user_id si' = user_id si"
    using arg_cong[OF v, of s_user] by (simp add: session_view_def)
  then have "reg_ok (put_info f si' (R\<lparr>kst := k\<rparr>))"
    using assms(2) ok si j by (intro reg_ok_put_info) (simp_all add: good_def)
  moreover have "sess (put_info f si' (R\<lparr>kst := k\<rparr>)) =
      deliver_to (\<lambda>h. if h = f then encode c else []) (sess R)"
    using v by (auto simp: sess_put deliver_to_def sess_Some[OF si] fun_eq_iff session_view_def
        option.map_ident_strong)
  ultimately have "delivers reg (\<lambda>h. if h = f then encode c else []) R (put_info f si' (R\<lparr>kst := k\<rparr>))"
    using assms(2,3) k by (simp add: delivers_def good_def frame_def)
  with a show ?thesis by blast
qed

lemma delivers_good: "delivers reg out R R' \<Longrightarrow> good reg R'"
  and delivers_epfd: "delivers reg out R R' \<Longrightarrow> epfd R' = epfd R"
  and delivers_keys: "delivers reg out R R' \<Longrightarrow> keys (infos R') = keys (infos R)"
  by (simp_all add: delivers_def frame_def)

lemma broadcast_loop_delivers:
  assumes "epoll_contract E (epfd R) reg" and "good reg R"
    and "set fs \<subseteq> set (keys (infos R))" and "distinct fs"
  shows "\<exists>R'. broadcast_loop E c fs R = Some R' \<and>
    delivers reg (\<lambda>h. if h \<in> set fs then encode c else []) R R'"
  using assms
proof (induction fs arbitrary: R)
  case Nil
  then show ?case by (auto intro: delivers_refl)
next
  case (Cons f fs)
  obtain R1 where R1: "append_send E f c R = Some (Inr (), R1)"
    "delivers reg (\<lambda>h. if h = f then encode c else []) R R1"
    using append_send_delivers[OF Cons.prems(1,2), of f c] Cons.prems(3) by auto
  obtain R2 where R2: "broadcast_loop E c fs R1 = Some R2"
    "delivers reg (\<lambda>h. if h \<in> set fs then encode c else []) R1 R2"
    using Cons.IH[of R1] Cons.prems delivers_good[OF R1(2)] delivers_epfd[OF R1(2)]
      delivers_keys[OF R1(2)] by auto
  have "f \<in> set (keys (infos R1))" using Cons.prems(3) delivers_keys[OF R1(2)] by simp
  then have "broadcast_loop E c (f # fs) R = Some R2" using R1(1) R2(1) by (auto simp: mem_keys_iff)
  moreover have "delivers reg (\<lambda>h. if h \<in> set (f # fs) then encode c else []) R R2"
    using Cons.prems(4) by (intro delivers_trans[OF R1(2) R2(2)]) auto
  ultimately show ?case by blast
qed

lemma targets_loop_delivers:
  assumes "epoll_contract E (epfd R) reg" and "good reg R" and "distinct fs"
    and "set fs \<subseteq> set (keys (infos R))"
  shows "\<exists>R'. targets_loop E c fs R = Some R' \<and>
    delivers reg (\<lambda>h. if h \<in> set fs then encode c else []) R R'"
  using assms
proof (induction fs arbitrary: R)
  case Nil
  then show ?case by (auto intro: delivers_refl)
next
  case (Cons f fs)
  obtain R1 where R1: "append_send E f c R = Some (Inr (), R1)"
    "delivers reg (\<lambda>h. if h = f then encode c else []) R R1"
    using append_send_delivers[OF Cons.prems(1,2), of f c] Cons.prems(4) by auto
  obtain R2 where R2: "targets_loop E c fs R1 = Some R2"
    "delivers reg (\<lambda>h. if h \<in> set fs then encode c else []) R1 R2"
    using Cons.IH[of R1] Cons.prems delivers_good[OF R1(2)] delivers_epfd[OF R1(2)]
      delivers_keys[OF R1(2)] by auto
  have "targets_loop E c (f # fs) R = Some R2"
    using R1(1) R2(1) Cons.prems(4) by (auto simp: mem_keys_iff)
  moreover have "delivers reg (\<lambda>h. if h \<in> set (f # fs) then encode c else []) R R2"
    using Cons.prems(3) by (intro delivers_trans[OF R1(2) R2(2)]) auto
  ultimately show ?case by blast
qed

lemma users_of_iff:
  "u \<in> users_of I f \<longleftrightarrow> (\<exists>si. map_of I f = Some si \<and> user_id si = u \<and> u \<noteq> [])"
  by (cases "map_of I f") (auto simp: users_of_def user_keys_def)

lemma rooms_of_iff: "r \<in> rooms_of I f \<longleftrightarrow> (\<exists>si. map_of I f = Some si \<and> r \<in> set (joined_room_ids si))"
  by (cases "map_of I f") (auto simp: rooms_of_def)

lemma user_online_iff:
  assumes "reg_ok R"
  shows "map_of (user_online_fds R) uid \<noteq> None \<longleftrightarrow> user_online (sess R) uid"
proof -
  have wf: "index_wf (user_online_fds R)"
    and m: "\<And>u f. f \<in> index_lookup (user_online_fds R) u \<longleftrightarrow> u \<in> users_of (infos R) f"
    using assms unfolding reg_ok_def core_ok_def by blast+
  have "map_of (user_online_fds R) uid \<noteq> None \<longleftrightarrow> (\<exists>f. uid \<in> users_of (infos R) f)"
    using index_lookup_None[OF wf, of uid] m by auto
  also have "\<dots> \<longleftrightarrow> (\<exists>f si. info R f = Some si \<and> user_id si = uid \<and> uid \<noteq> [])"
    by (simp add: users_of_iff)
  also have "\<dots> \<longleftrightarrow> user_online (sess R) uid"
  proof
    assume "\<exists>f si. info R f = Some si \<and> user_id si = uid \<and> uid \<noteq> []"
    then obtain f si where f: "info R f = Some si" "user_id si = uid" "uid \<noteq> []" by blast
    from f(2) have "s_user (session_view si) = uid" by (simp add: session_view_def)
    with sess_Some[OF f(1)] f(3) show "user_online (sess R) uid" unfolding user_online_def by blast
  next
    assume "user_online (sess R) uid"
    then obtain f v where f: "sess R f = Some v" "s_user v = uid" "uid \<noteq> []"
      unfolding user_online_def by blast
    from f(1) obtain si where si: "info R f = Some si" "v = session_view si"
      unfolding sess_eq_Some by blast
    from si(2) f(2) have "user_id si = uid" by (simp add: session_view_def)
    with si(1) f(3) show "\<exists>f si. info R f = Some si \<and> user_id si = uid \<and> uid \<noteq> []" by blast
  qed
  finally show ?thesis .
qed

lemma friend_line_text: "reg_ok R \<Longrightarrow> friend_line i R = friend_text (sess R) i"
  using user_online_iff[of R i] by (auto simp: friend_line_def friend_text_def Let_def)

lemma friend_line_delivers: "delivers reg out R R' \<Longrightarrow> friend_line i R' = friend_line i R"
  by (simp add: friend_line_def delivers_def)

lemma friend_loop_delivers:
  assumes "epoll_contract E (epfd R) reg" and "good reg R" and "f \<in> set (keys (infos R))"
  shows "\<exists>R'. friend_loop E f ids R = Some R' \<and>
    delivers reg (\<lambda>h. if h = f then concat (map (\<lambda>i. encode (friend_line i R)) ids) else []) R R'"
  using assms
proof (induction ids arbitrary: R)
  case Nil
  then show ?case by (auto intro: delivers_refl)
next
  case (Cons i ids)
  obtain R1 where R1: "append_send E f (friend_line i R) R = Some (Inr (), R1)"
    "delivers reg (\<lambda>h. if h = f then encode (friend_line i R) else []) R R1"
    using append_send_delivers[OF Cons.prems(1,2)] Cons.prems(3) by blast
  obtain R2 where R2: "friend_loop E f ids R1 = Some R2"
    "delivers reg (\<lambda>h. if h = f then concat (map (\<lambda>i. encode (friend_line i R1)) ids) else []) R1 R2"
    using Cons.IH[of R1] Cons.prems delivers_good[OF R1(2)] delivers_epfd[OF R1(2)]
      delivers_keys[OF R1(2)] by auto
  have "delivers reg (\<lambda>h. if h = f then concat (map (\<lambda>i. encode (friend_line i R)) (i # ids)) else []) R R2"
    by (rule delivers_trans[OF R1(2) R2(2)]) (simp add: friend_line_delivers[OF R1(2)])
  then show ?case using R1(1) R2(1) by auto
qed


subsection \<open>System calls and the interest list\<close>

lemma try_step_Some:
  "try_step p g = Some (r, k') \<longleftrightarrow>
     (\<exists>e. p = (Inl e, k') \<and> r = Inl e) \<or> (\<exists>a k. p = (Inr a, k) \<and> g a k = Some (r, k'))"
  by (auto simp: try_step_def split: prod.splits sum.splits)

lemma epoll_contract_getpeername:
  "epoll_contract E e reg \<Longrightarrow> reg (snd (k_getpeername E f k)) = reg k"
  and epoll_contract_eventfd_read:
  "epoll_contract E e reg \<Longrightarrow> reg (snd (k_eventfd_read E f k)) = reg k"
  and epoll_contract_close: "epoll_contract E e reg \<Longrightarrow> reg (k_close E f k) = reg k - {f}"
  and epoll_contract_del: "epoll_contract E e reg \<Longrightarrow> reg k - {f} \<subseteq> reg (snd (k_epoll_del E e f k))"
  by (simp_all add: epoll_contract_def)

lemma make_peer_endpoint_reg:
  assumes "epoll_contract E e reg" and "make_peer_endpoint E f k = Some (r, k')"
  shows "reg k' = reg k"
proof -
  define P :: "('a, 'b) env \<Rightarrow> fd \<Rightarrow> 'a \<Rightarrow> ((error_code + string) \<times> 'a) \<Rightarrow> bool"
    where "P E f k out \<longleftrightarrow> (epoll_contract E e reg \<longrightarrow> reg (snd out) = reg k)" for E f k out
  have "P E f k (r, k')"
  proof (rule make_peer_endpoint.raw_induct[where P = P, OF _ assms(2)])
    fix g E f k out
    assume IH: "\<And>E f k out. g E f k = Some out \<Longrightarrow> P E f k out"
      and eq: "(case k_getpeername E f k of
        (Inr sa, k1) \<Rightarrow> Some (Inr sa, k1)
      | (Inl ec, k1) \<Rightarrow> if ec = EINTR then g E f k1 else Some (Inl (from_errno ec), k1)) = Some out"
    obtain q k1 where q: "k_getpeername E f k = (q, k1)" by fastforce
    have r1: "epoll_contract E e reg \<Longrightarrow> reg k1 = reg k"
      using epoll_contract_getpeername[of E e reg f k] by (simp add: q)
    show "P E f k out"
    proof (cases "q = Inl EINTR")
      case True
      then have "g E f k1 = Some out" using eq q by simp
      then have "P E f k1 out" by (rule IH)
      with r1 show ?thesis unfolding P_def by simp
    next
      case False
      then have "snd out = k1" using eq q by (cases q) (auto split: if_splits)
      with r1 show ?thesis unfolding P_def by simp
    qed
  qed
  then show ?thesis using assms(1) by (simp add: P_def)
qed

lemma consume_wakeup_reg:
  assumes "epoll_contract E e reg" and "consume_wakeup E w k = Some k'"
  shows "reg k' = reg k"
  by (rule consume_wakeup_keeps[OF _ assms(2)]) (metis epoll_contract_eventfd_read[OF assms(1)] snd_conv)

lemma create_server_session_reg:
  assumes "epoll_contract E e reg" and "create_server_session E b f k = (r, k')"
  shows "reg k' = reg k"
proof -
  have "reg (snd (k_ssl_new E k)) = reg k" "\<And>s k. reg (snd (k_ssl_set_fd E s f k)) = reg k" for k
    using assms(1) by (simp_all add: epoll_contract_def)
  then show ?thesis using assms(2)
    by (auto simp: create_server_session_def case_prod_beta Let_def split: if_splits option.splits)
qed

lemma set_nonblocking_reg:
  assumes "epoll_contract E e reg" and "set_nonblocking E f k = (r, k')"
  shows "reg k' = reg k"
proof -
  have "\<And>k. reg (snd (k_fcntl_getfl E f k)) = reg k" "\<And>fl k. reg (snd (k_fcntl_setfl E f fl k)) = reg k"
    using assms(1) by (simp_all add: epoll_contract_def)
  then show ?thesis using assms(2)
    by (auto simp: set_nonblocking_def case_prod_beta split: sum.splits)
qed

lemma init_string_reg:
  assumes "epoll_contract E e reg" and "init_string E sa k = (r, k')"
  shows "reg k' = reg k"
proof -
  have "reg (snd (k_getnameinfo E sa k)) = reg k" using assms(1) by (simp add: epoll_contract_def)
  then show ?thesis using assms(2)
    by (auto simp: init_string_def case_prod_beta split: sum.splits)
qed

lemma add_fd_reg:
  assumes "epoll_contract E e reg" and "add_fd E e f i k = (r, k')"
  shows "reg k' = (case r of Inl _ \<Rightarrow> reg k | Inr _ \<Rightarrow> insert f (reg k))"
proof -
  have "reg (snd (k_epoll_add E e f i k)) =
      (if isl (fst (k_epoll_add E e f i k)) then reg k else insert f (reg k))"
    using assms(1) by (simp add: epoll_contract_def)
  then show ?thesis using assms(2)
    by (auto simp: add_fd_def lift_errno_def case_prod_beta split: sum.splits)
qed

lemma register_setup_reg:
  assumes "epoll_contract E e reg" and "register_setup E e s f i k = Some (r, k')"
  shows "reg k \<subseteq> reg k' \<and> (\<not> isl r \<longrightarrow> f \<in> reg k')"
proof -
  obtain r1 k1 where 1: "set_nonblocking E f k = (r1, k1)" by fastforce
  note k1 = set_nonblocking_reg[OF assms(1) 1]
  show ?thesis
  proof (cases r1)
    case (Inl a)
    have "r = Inl a \<and> k' = k1" using assms(2) by (simp add: register_setup_def try_step_def 1 Inl)
    with k1 show ?thesis by simp
  next
    case (Inr u)
    then obtain r2 k2 where 2: "make_peer_endpoint E f k1 = Some (r2, k2)"
      using assms(2) by (auto simp add: register_setup_def try_step_def 1 bind_eq_Some_conv)
    note k2 = make_peer_endpoint_reg[OF assms(1) 2]
    show ?thesis
    proof (cases r2)
      case (Inl a)
      have "r = Inl a \<and> k' = k2"
        using assms(2) by (simp add: register_setup_def try_step_def 1 2 Inr Inl)
      with k1 k2 show ?thesis by simp
    next
      case (Inr sa)
      obtain r3 k3 where 3: "init_string E sa k2 = (r3, k3)" by fastforce
      obtain r4 k4 where 4: "add_fd E e f i k3 = (r4, k4)" by fastforce
      obtain r5 k5 where 5: "create_server_session E s f k4 = (r5, k5)" by fastforce
      show ?thesis
        using assms(2) 1 2 3 4 5 Inr \<open>r1 = Inr u\<close> k1 k2 init_string_reg[OF assms(1) 3]
          add_fd_reg[OF assms(1) 4] create_server_session_reg[OF assms(1) 5]
        by (cases r3; cases r4; cases r5) (auto simp: register_setup_def try_step_def)
    qed
  qed
qed

lemma close_fd_reg: "epoll_contract E e reg \<Longrightarrow> reg k - {f} \<subseteq> reg (close_fd E f k)"
  using epoll_contract_close[of E e reg f k] by (auto simp: close_fd_def)

lemma del_fd_reg: "epoll_contract E e reg \<Longrightarrow> reg k - {f} \<subseteq> reg (snd (del_fd E e f k))"
  using epoll_contract_del[of E e reg k f]
  by (auto simp: del_fd_def lift_errno_def case_prod_beta split: sum.splits)

lemma try_step_total: "(\<And>a k. \<exists>out. g a k = Some out) \<Longrightarrow> \<exists>out. try_step p g = Some out"
  by (cases p; cases "fst p") (simp_all add: try_step_def)

lemma register_setup_total:
  assumes "getpeername_progress E left"
  shows "\<exists>out. register_setup E e s f i k = Some out"
  unfolding register_setup_def
proof (rule try_step_total)
  fix k1
  obtain peer where "make_peer_endpoint E f k1 = Some peer"
    using make_peer_endpoint_total[OF assms] by blast
  moreover have "\<exists>out. try_step peer (\<lambda>sa k2.
       try_step (init_string E sa k2) (\<lambda>ep k3.
       try_step (add_fd E e f i k3) (\<lambda>_ k4.
       try_step (create_server_session E s f k4) (\<lambda>t k5. Some (Inr (ep, t), k5))))) = Some out"
    by (rule try_step_total)+ simp
  ultimately show "\<exists>out. (do {
       peer \<leftarrow> make_peer_endpoint E f k1;
       try_step peer (\<lambda>sa k2.
       try_step (init_string E sa k2) (\<lambda>ep k3.
       try_step (add_fd E e f i k3) (\<lambda>_ k4.
       try_step (create_server_session E s f k4) (\<lambda>t k5. Some (Inr (ep, t), k5))))) }) = Some out"
    by simp
qed

subsection \<open>Every command refines its specification\<close>

text \<open>The descriptors that pending registrations will hand to the registry.\<close>

fun reg_fds :: "reg_command list \<Rightarrow> fd list" where
  "reg_fds [] = []"
| "reg_fds (register_command f i # cs) = f # reg_fds cs"
| "reg_fds (_ # cs) = reg_fds cs"

definition refines ::
  "('k \<Rightarrow> fd set) \<Rightarrow> reg_command \<Rightarrow> ('k, 's) registry \<Rightarrow> ('k, 's) registry \<Rightarrow> bool" where
  "refines reg c R R' \<longleftrightarrow>
     good reg R' \<and> spec_step c (sess R) (sess R') \<and> frame R R' \<and>
     set (keys (infos R')) \<subseteq> set (keys (infos R)) \<union> set (reg_fds [c])"

lemma refines_delivers:
  assumes "delivers reg out R R'" and "spec_step c (sess R) (deliver_to out (sess R))"
  shows "refines reg c R R'"
  using assms by (auto simp: refines_def delivers_def)

lemma refines_refl: "good reg R \<Longrightarrow> spec_step c (sess R) (sess R) \<Longrightarrow> refines reg c R R"
  by (auto simp: refines_def frame_def)

lemma good_reg_ok: "good reg R \<Longrightarrow> reg_ok R"
  by (simp add: good_def)

lemma register_refines:
  assumes "epoll_contract E (epfd R) reg" and "getpeername_progress E left" and "good reg R"
    and "f \<notin> set (keys (infos R))"
  shows "\<exists>R'. handle_register E f i R = Some R' \<and> refines reg (register_command f i) R R'"
proof -
  have "\<exists>out. register_fd E f i R = Some out"
    using register_setup_total[OF assms(2), of "epfd R" "tls_ctx_is_server R" f i "kst R"]
    by (auto simp: register_fd_def Let_def)
  then obtain res R' where r: "register_fd E f i R = Some (res, R')" by auto
  have "reg_ok R'" using reg_ok_register[OF good_reg_ok[OF assms(3)] r] .
  have keys: "set (keys (infos R)) \<subseteq> reg (kst R)" using assms(3) by (simp add: good_def)
  have "refines reg (register_command f i) R R'"
  proof (cases "f = - 1 \<or> f \<in> set (keys (infos R))")
    case True
    with r assms(4) have "R' = R\<lparr>kst := close_fd E f (kst R)\<rparr>" "f = - 1"
      by (auto simp: register_fd_def)
    then show ?thesis using \<open>reg_ok R'\<close> keys by (auto simp: refines_def good_def frame_def close_fd_def)
  next
    case False
    then obtain q k where q: "register_setup E (epfd R) (tls_ctx_is_server R) f i (kst R) = Some (q, k)"
      using r by (auto simp: register_fd_def bind_eq_Some_conv)
    note k = register_setup_reg[OF assms(1) q]
    show ?thesis
    proof (cases q)
      case (Inl e)
      then have R': "R' = R\<lparr>kst := close_fd E f k\<rparr>" using r q False by (auto simp: register_fd_def)
      have "set (keys (infos R)) \<subseteq> reg (close_fd E f k)"
        using close_fd_reg[OF assms(1), of k f] k keys assms(4) by auto
      then show ?thesis using \<open>reg_ok R'\<close> by (auto simp: R' refines_def good_def frame_def)
    next
      case (Inr p)
      obtain ep0 t where p: "p = (ep0, t)" by (cases p)
      have R': "R' = R\<lparr>infos := infos R @ [(f, new_socket t i f ep0)], kst := k,
          connected_client_count := Suc (length (infos R))\<rparr>"
        using r q Inr p False by (auto simp: register_fd_def Let_def)
      have none: "info R f = None" using assms(4) by (auto simp: mem_keys_iff)
      have "sess R' = (sess R)(f \<mapsto> fresh_session)"
        using none
        by (auto simp: R' sess_def fun_eq_iff map_add_def session_view_def new_socket_def
            fresh_session_def split: option.splits)
      then show ?thesis using \<open>reg_ok R'\<close> k keys Inr none
        by (auto simp: R' refines_def good_def frame_def sess_None keys_def)
    qed
  qed
  then show ?thesis using r by (auto simp: handle_register_def)
qed

lemma unregister_refines:
  assumes "epoll_contract E (epfd R) reg" and "good reg R"
  shows "refines reg (unregister_command f) R (snd (unregister_fd E f R))"
proof (cases "info R f")
  case None
  then show ?thesis using assms(2)
    by (auto simp: unregister_fd_none intro!: refines_refl simp: sess_def fun_eq_iff)
next
  case (Some si)
  have own: "ufd si = f" "f \<noteq> - 1" using reg_ok_ufd[OF good_reg_ok[OF assms(2)] Some] by auto
  let ?R' = "snd (unregister_fd E f R)"
  have R': "infos ?R' = map_erase f (infos R)"
      "kst ?R' = close_fd E f (snd (del_fd E (epfd R) f (kst R)))" and fr: "frame R ?R'"
    by (simp_all add: unregister_fd_some[OF own(2) Some] own frame_def)
  have "reg (kst R) - {f} \<subseteq> reg (kst ?R')"
    using close_fd_reg[OF assms(1)] del_fd_reg[OF assms(1)] unfolding R'(2) by blast
  then have "set (keys (infos ?R')) \<subseteq> reg (kst ?R')"
    using assms(2) by (auto simp: R'(1) keys_erase good_def)
  moreover have "reg_ok ?R'" by (rule reg_ok_unregister[OF good_reg_ok[OF assms(2)]])
  moreover have "sess ?R' = (sess R)(f := None)" by (auto simp: sess_def R'(1))
  ultimately show ?thesis using fr by (auto simp: refines_def good_def R'(1) keys_erase)
qed

lemma set_rooms_at_sess:
  assumes "reg_ok R"
  shows "sess (set_rooms_at rs f R) =
      (sess R)(f := map_option (\<lambda>v. v\<lparr>s_rooms := positive_rooms rs\<rparr>) (sess R f)) \<and>
    keys (infos (set_rooms_at rs f R)) = keys (infos R) \<and> kst (set_rooms_at rs f R) = kst R \<and>
    frame R (set_rooms_at rs f R)"
proof (cases "info R f")
  case None
  then show ?thesis by (auto simp: set_rooms_at_def frame_def sess_def fun_eq_iff)
next
  case (Some si)
  then have "f \<in> set (keys (infos R))" by (rule map_of_in_keys)
  then show ?thesis using Some
    by (auto simp: set_rooms_at_def set_fd_joined_rooms_eq frame_def sess_def fun_eq_iff
        session_view_def set_fold_set_insert joinable_def positive_rooms_def)
qed

lemma set_rooms_at_refines:
  assumes "good reg R"
  shows "refines reg (set_joined_rooms_command f rs) R (set_rooms_at rs f R)"
  using set_rooms_at_sess[OF good_reg_ok[OF assms], of rs f] assms
    reg_ok_set_rooms_at[OF good_reg_ok[OF assms], of rs f]
  by (simp add: refines_def good_def)

lemma fold_set_rooms_sess:
  assumes "reg_ok R"
  shows "sess (fold (set_rooms_at rs) fs R) = (\<lambda>h. if h \<in> set fs
      then map_option (\<lambda>v. v\<lparr>s_rooms := positive_rooms rs\<rparr>) (sess R h) else sess R h) \<and>
    keys (infos (fold (set_rooms_at rs) fs R)) = keys (infos R) \<and>
    kst (fold (set_rooms_at rs) fs R) = kst R \<and> frame R (fold (set_rooms_at rs) fs R)"
  using assms
proof (induction fs arbitrary: R)
  case (Cons f fs)
  note one = set_rooms_at_sess[OF Cons.prems, of rs f]
  note IH = Cons.IH[OF reg_ok_set_rooms_at[OF Cons.prems], of rs f]
  have "map_option (\<lambda>v. v\<lparr>s_rooms := positive_rooms rs\<rparr>)
      (map_option (\<lambda>v. v\<lparr>s_rooms := positive_rooms rs\<rparr>) x) =
      map_option (\<lambda>v. v\<lparr>s_rooms := positive_rooms rs\<rparr>) x" for x :: "session option"
    by (cases x) simp_all
  then show ?case using one IH by (auto simp: frame_def fun_eq_iff)
qed (simp add: frame_def)

lemma set_rooms_for_user_refines:
  assumes "good reg R"
  shows "\<exists>R'. handle_set_joined_rooms_for_user uid rs R = Some R' \<and>
    refines reg (set_joined_rooms_for_user_command uid rs) R R'"
proof -
  note ok = good_reg_ok[OF assms]
  have wf: "index_wf (user_online_fds R)"
    and m: "\<And>u f. f \<in> index_lookup (user_online_fds R) u \<longleftrightarrow> u \<in> users_of (infos R) f"
    using ok unfolding reg_ok_def core_ok_def by blast+
  have member: "f \<in> index_lookup (user_online_fds R) uid \<longleftrightarrow>
      (\<exists>v. sess R f = Some v \<and> uid \<noteq> [] \<and> s_user v = uid)" for f
    unfolding m by (cases "info R f") (auto simp: users_of_iff sess_def session_view_def)
  define fds where "fds = (case map_of (user_online_fds R) uid of None \<Rightarrow> [] | Some s \<Rightarrow> s)"
  have h: "handle_set_joined_rooms_for_user uid rs R = Some (fold (set_rooms_at rs) fds R)"
    by (simp add: handle_set_joined_rooms_for_user_def fds_def split: option.splits)
  have fds: "set fds = index_lookup (user_online_fds R) uid"
    by (simp add: fds_def index_lookup_def split: option.splits)
  have "sess (fold (set_rooms_at rs) fds R) = (\<lambda>h. map_option
      (\<lambda>v. if uid \<noteq> [] \<and> s_user v = uid then v\<lparr>s_rooms := positive_rooms rs\<rparr> else v) (sess R h))"
  proof (rule ext)
    fix x
    show "sess (fold (set_rooms_at rs) fds R) x = map_option
      (\<lambda>v. if uid \<noteq> [] \<and> s_user v = uid then v\<lparr>s_rooms := positive_rooms rs\<rparr> else v) (sess R x)"
      using fold_set_rooms_sess[OF ok, of rs fds] member[of x]
      by (cases "sess R x") (auto simp: fds)
  qed
  then have "refines reg (set_joined_rooms_for_user_command uid rs) R (fold (set_rooms_at rs) fds R)"
    using fold_set_rooms_sess[OF ok, of rs fds] reg_ok_fold_set_rooms[OF ok, of rs fds] assms
    by (simp add: refines_def good_def)
  with h show ?thesis by blast
qed

lemma change_nickname_refines:
  assumes "good reg R"
  shows "\<exists>R'. handle_change_nickname f nick R = Some R' \<and>
    refines reg (change_nickname_command f nick) R R'"
proof (cases "info R f")
  case None
  then show ?thesis using assms
    by (auto simp: handle_change_nickname_def sess_def fun_eq_iff intro!: refines_refl)
next
  case (Some si)
  have "f \<in> set (keys (infos R))" using Some by (rule map_of_in_keys)
  moreover have "reg_ok (put_info f (si\<lparr>nickname := nick\<rparr>) R)"
    using reg_ok_change_nickname[OF good_reg_ok[OF assms], of f nick] Some
    by (simp add: handle_change_nickname_def)
  moreover have "sess (put_info f (si\<lparr>nickname := nick\<rparr>) R) =
      (sess R)(f := map_option (\<lambda>v. v\<lparr>s_nick := nick\<rparr>) (sess R f))"
    by (simp add: sess_put sess_Some[OF Some] session_view_def)
  ultimately show ?thesis using assms Some
    by (simp add: handle_change_nickname_def refines_def good_def frame_def)
qed

lemma set_user_id_refines:
  assumes "good reg R"
  shows "\<exists>R'. handle_set_user_id f uid R = Some R' \<and> refines reg (set_user_id_command f uid) R R'"
proof (cases "info R f")
  case None
  then show ?thesis using assms
    by (auto simp: handle_set_user_id_def sess_def fun_eq_iff intro!: refines_refl)
next
  case (Some si)
  have own: "ufd si = f" using reg_ok_ufd[OF good_reg_ok[OF assms] Some] by simp
  obtain R' where R': "handle_set_user_id f uid R = Some R'" by (simp add: handle_set_user_id_def)
  have k: "f \<in> set (keys (infos R))" using Some by (rule map_of_in_keys)
  have "reg_ok R'" by (rule reg_ok_set_user_id[OF good_reg_ok[OF assms] R'])
  moreover have "infos R' = map_put f (si\<lparr>joined_room_ids := [], user_id := uid\<rparr>) (infos R)"
    and "kst R' = kst R" and "frame R R'"
    using R' unfolding handle_set_user_id_eq[OF Some own] by (auto simp: Let_def frame_def)
  ultimately show ?thesis using assms R' k
    by (auto simp: refines_def good_def sess_def fun_eq_iff Some session_view_def)
qed

lemma index_wf_distinct: "index_wf m \<Longrightarrow> map_of m k = Some s \<Longrightarrow> distinct s"
  by (simp add: index_wf_def)

lemma room_targets:
  assumes "reg_ok R" and "map_of (room_online_fds R) room = targets"
  shows "distinct (case targets of None \<Rightarrow> [] | Some s \<Rightarrow> s) \<and>
    set (case targets of None \<Rightarrow> [] | Some s \<Rightarrow> s) = {h. \<exists>v. sess R h = Some v \<and> room \<in> s_rooms v}"
proof -
  have wf: "index_wf (room_online_fds R)"
    and m: "\<And>r f. f \<in> index_lookup (room_online_fds R) r \<longleftrightarrow> r \<in> rooms_of (infos R) f"
    using assms(1) unfolding reg_ok_def core_ok_def by blast+
  have "set (case targets of None \<Rightarrow> [] | Some s \<Rightarrow> s) = index_lookup (room_online_fds R) room"
    using assms(2) by (cases targets) (simp_all add: index_lookup_def)
  also have "\<dots> = {h. \<exists>v. sess R h = Some v \<and> room \<in> s_rooms v}"
  proof (rule set_eqI)
    fix h
    show "h \<in> index_lookup (room_online_fds R) room \<longleftrightarrow> h \<in> {h. \<exists>v. sess R h = Some v \<and> room \<in> s_rooms v}"
      unfolding m by (cases "info R h") (auto simp: rooms_of_iff sess_def session_view_def)
  qed
  finally have 1: "set (case targets of None \<Rightarrow> [] | Some s \<Rightarrow> s) =
      {h. \<exists>v. sess R h = Some v \<and> room \<in> s_rooms v}" .
  have "distinct (case targets of None \<Rightarrow> [] | Some s \<Rightarrow> s)"
  proof (cases targets)
    case (Some fds)
    have "distinct fds" by (rule index_wf_distinct[OF wf, of room]) (simp add: assms(2) Some)
    then show ?thesis by (simp add: Some)
  qed simp
  then show ?thesis using 1 by (rule conjI)
qed

lemma named_payload_spec: "named_payload f c R = spec_payload f c (sess R)"
  by (auto simp: named_payload_def spec_payload_def sender_nickname_def spec_nickname_def sess_def
      session_view_def split: command.splits option.splits)

lemma send_one_refines:
  assumes "epoll_contract E (epfd R) reg" and "good reg R"
  shows "\<exists>R'. handle_send_one E f c R = Some R' \<and> refines reg (send_one_command f c) R R'"
proof (cases "info R f")
  case None
  then show ?thesis using assms(2)
    by (auto simp: handle_send_one_def sess_def intro!: refines_refl deliver_to_nothing[symmetric])
next
  case (Some si)
  from append_send_delivers[OF assms map_of_in_keys[OF Some], of c] obtain R' where
    R': "append_send E f c R = Some (Inr (), R')"
    "delivers reg (\<lambda>h. if h = f then encode c else []) R R'" by blast
  have "refines reg (send_one_command f c) R R'" by (rule refines_delivers[OF R'(2)]) simp
  then show ?thesis using Some R'(1) by (simp add: handle_send_one_def)
qed

lemma deliver_to_everyone:
  "deliver_to (\<lambda>h. if h \<in> set (keys (infos R)) then encode (named_payload f c R) else []) (sess R) =
   deliver_to (\<lambda>h. encode (spec_payload f c (sess R))) (sess R)"
proof (rule ext)
  fix h
  show "deliver_to (\<lambda>h. if h \<in> set (keys (infos R)) then encode (named_payload f c R) else []) (sess R) h =
    deliver_to (\<lambda>h. encode (spec_payload f c (sess R))) (sess R) h"
    by (cases "info R h")
       (simp_all add: deliver_to_def sess_None named_payload_spec map_of_in_keys)
qed

lemma broadcast_refines:
  assumes "epoll_contract E (epfd R) reg" and "good reg R"
  shows "\<exists>R'. handle_broadcast E f c R = Some R' \<and> refines reg (broadcast_command f c) R R'"
proof -
  have d: "distinct (keys (infos R))"
    using good_reg_ok[OF assms(2)] by (simp add: reg_ok_def core_ok_def)
  have h: "handle_broadcast E f c R = broadcast_loop E (named_payload f c R) (keys (infos R)) R"
    by (simp add: handle_broadcast_def named_payload_def split: command.splits)
  obtain R' where R': "broadcast_loop E (named_payload f c R) (keys (infos R)) R = Some R'"
    "delivers reg (\<lambda>h. if h \<in> set (keys (infos R)) then encode (named_payload f c R) else []) R R'"
    using broadcast_loop_delivers[OF assms subset_refl d] by blast
  have "refines reg (broadcast_command f c) R R'"
    by (intro refines_delivers[OF R'(2)]) (simp add: deliver_to_everyone)
  then show ?thesis using R'(1) h by simp
qed

lemma friend_list_refines:
  assumes "epoll_contract E (epfd R) reg" and "good reg R"
  shows "\<exists>R'. handle_send_friend_list E f ids R = Some R' \<and> refines reg (send_friend_list_command f ids) R R'"
proof (cases "info R f")
  case None
  then show ?thesis using assms(2)
    by (auto simp: handle_send_friend_list_def sess_def
        intro!: refines_refl deliver_to_nothing[symmetric])
next
  case (Some si)
  let ?hd = "cmd_response (''friends: '' @ to_string (int (length ids)))"
  obtain R1 where R1: "append_send E f ?hd R = Some (Inr (), R1)"
    "delivers reg (\<lambda>h. if h = f then encode ?hd else []) R R1"
    using append_send_delivers[OF assms map_of_in_keys[OF Some]] by blast
  have k1: "f \<in> set (keys (infos R1))" using map_of_in_keys[OF Some] delivers_keys[OF R1(2)] by simp
  obtain R2 where R2: "friend_loop E f ids R1 = Some R2"
    "delivers reg (\<lambda>h. if h = f then concat (map (\<lambda>i. encode (friend_line i R1)) ids) else []) R1 R2"
    using friend_loop_delivers[OF _ delivers_good[OF R1(2)] k1] assms(1) delivers_epfd[OF R1(2)] by metis
  have "delivers reg (\<lambda>h. if h = f then friend_list_text (sess R) ids else []) R R2"
    by (rule delivers_trans[OF R1(2) R2(2)])
       (simp add: friend_list_text_def friend_line_delivers[OF R1(2)]
         friend_line_text[OF good_reg_ok[OF assms(2)]])
  then have "refines reg (send_friend_list_command f ids) R R2" by (rule refines_delivers) simp
  then show ?thesis using R1(1) R2(1) Some by (simp add: handle_send_friend_list_def)
qed

lemma room_broadcast_refines:
  assumes "epoll_contract E (epfd R) reg" and "good reg R"
  shows "\<exists>R'. handle_room_broadcast E f room c R = Some R' \<and> refines reg (room_broadcast_command f room c) R R'"
proof -
  define fds where "fds = (case map_of (room_online_fds R) room of None \<Rightarrow> [] | Some s \<Rightarrow> s)"
  have fds: "distinct fds" "set fds = {h. \<exists>v. sess R h = Some v \<and> room \<in> s_rooms v}"
    using room_targets[OF good_reg_ok[OF assms(2)] refl, of room] by (simp_all add: fds_def)
  have "set fds \<subseteq> set (keys (infos R))" by (auto simp: fds(2) sess_def)
  then obtain R' where R': "targets_loop E (named_payload f c R) fds R = Some R'"
    "delivers reg (\<lambda>h. if h \<in> set fds then encode (named_payload f c R) else []) R R'"
    using targets_loop_delivers[OF assms fds(1)] by blast
  have "handle_room_broadcast E f room c R = targets_loop E (named_payload f c R) fds R"
    by (simp add: handle_room_broadcast_def fds_def split: option.splits)
  moreover have "refines reg (room_broadcast_command f room c) R R'"
    by (rule refines_delivers[OF R'(2)]) (simp add: fds(2), simp only: named_payload_spec)
  ultimately show ?thesis using R'(1) by simp
qed

lemma handle_command_refines:
  assumes "epoll_contract E (epfd R) reg" and "getpeername_progress E left" and "good reg R"
    and "set (reg_fds [c]) \<inter> set (keys (infos R)) = {}"
  shows "\<exists>R'. handle_command E c R = Some R' \<and> refines reg c R R'"
proof (cases c)
  case (register_command f i)
  then show ?thesis using register_refines[OF assms(1-3), of f i] assms(4) by simp
next
  case (unregister_command f)
  then show ?thesis using unregister_refines[OF assms(1,3)] by (auto simp: handle_unregister_def)
next
  case (send_one_command f c')
  then show ?thesis using send_one_refines[OF assms(1,3)] by simp
next
  case (broadcast_command f c')
  then show ?thesis using broadcast_refines[OF assms(1,3)] by simp
next
  case (change_nickname_command f nick)
  then show ?thesis using change_nickname_refines[OF assms(3)] by simp
next
  case (set_user_id_command f uid)
  then show ?thesis using set_user_id_refines[OF assms(3)] by simp
next
  case (set_joined_rooms_command f rooms)
  then show ?thesis using set_rooms_at_refines[OF assms(3)] by (simp add: handle_set_joined_rooms_def)
next
  case (set_joined_rooms_for_user_command uid rooms)
  then show ?thesis using set_rooms_for_user_refines[OF assms(3)] by simp
next
  case (send_friend_list_command f ids)
  then show ?thesis using friend_list_refines[OF assms(1,3)] by simp
next
  case (room_broadcast_command f room c')
  then show ?thesis using room_broadcast_refines[OF assms(1,3)] by simp
qed

lemma run_commands_refines:
  assumes "epoll_contract E (epfd R) reg" and "getpeername_progress E left" and "good reg R"
    and "distinct (reg_fds cs)" and "set (reg_fds cs) \<inter> set (keys (infos R)) = {}"
  shows "\<exists>R'. run_commands E cs R = Some R' \<and> good reg R' \<and> spec_run cs (sess R) (sess R') \<and>
    frame R R'"
  using assms
proof (induction cs arbitrary: R)
  case Nil
  then show ?case by (auto simp: frame_def)
next
  case (Cons c cs)
  have sub: "set (reg_fds [c]) \<subseteq> set (reg_fds (c # cs))" "set (reg_fds cs) \<subseteq> set (reg_fds (c # cs))"
    "set (reg_fds [c]) \<inter> set (reg_fds cs) = {}" "distinct (reg_fds cs)"
    using Cons.prems(4) by (cases c; auto)+
  obtain R1 where R1: "handle_command E c R = Some R1" "refines reg c R R1"
    using handle_command_refines[OF Cons.prems(1-3), of c] Cons.prems(5) sub(1) by blast
  have f1: "frame R R1" and g1: "good reg R1" and s1: "spec_step c (sess R) (sess R1)"
    and k1: "set (keys (infos R1)) \<subseteq> set (keys (infos R)) \<union> set (reg_fds [c])"
    using R1(2) by (simp_all add: refines_def)
  have "set (reg_fds cs) \<inter> set (keys (infos R1)) = {}" using k1 sub Cons.prems(5) by blast
  with Cons.IH[of R1] Cons.prems(1,2) f1 g1 sub(4) obtain R2 where
    R2: "run_commands E cs R1 = Some R2" "good reg R2" "spec_run cs (sess R1) (sess R2)" "frame R1 R2"
    by (auto simp: frame_def)
  have "frame R R2" using f1 R2(4) by (simp add: frame_def)
  then show ?case using R1(1) R2(1-3) s1 by auto
qed

lemma work_refines:
  assumes "epoll_contract E (epfd R) reg" and "eventfd_progress E ticks"
    and "getpeername_progress E left" and "good reg R"
    and "distinct (reg_fds (cmd_q R))" and "set (reg_fds (cmd_q R)) \<inter> set (keys (infos R)) = {}"
  shows "\<exists>R'. work E R = Some R' \<and> cmd_q R' = [] \<and> good reg R' \<and>
    spec_run (cmd_q R) (sess R) (sess R')"
proof -
  obtain k where k: "consume_wakeup E (wake_fd R) (kst R) = Some k"
    using consume_wakeup_total[OF assms(2)] by blast
  let ?R = "R\<lparr>kst := k, cmd_q := []\<rparr>"
  have "good reg ?R"
    using assms(4) consume_wakeup_reg[OF assms(1) k] by (simp add: good_def)
  then obtain R' where "run_commands E (cmd_q R) ?R = Some R'" "good reg R'"
    "spec_run (cmd_q R) (sess R) (sess R')" "frame ?R R'"
    using run_commands_refines[of E ?R reg left "cmd_q R"] assms by auto
  then show ?thesis using k by (auto simp: work_def frame_def)
qed

subsection \<open>Properties\<close>

text \<open>
  C1. The registry implements its contract. If the kernel keeps the epoll contract, its event
  counter and \<open>getpeername\<close> do not fail for ever, and each pending registration holds a descriptor
  of its own, then \<open>work\<close> returns (in particular no handler touches an erased session), the queue
  is empty afterwards, and the sessions are exactly what running the queued commands one after
  the other, in queue order, on the index-free specification gives: messages reach every
  addressed session once and nobody else, at the end of what was already pending; a room message
  reaches exactly the sessions joined to the room, under the sender's nickname; a friend list
  tells exactly which friends are online; logging in leaves all rooms.
\<close>

theorem work_refines_sessions:
  assumes "epoll_contract E (epfd R) reg" and "eventfd_progress E ticks"
    and "getpeername_progress E left" and "good reg R"
    and "distinct (reg_fds (cmd_q R))" and "set (reg_fds (cmd_q R)) \<inter> set (keys (infos R)) = {}"
  shows "\<exists>R'. work E R = Some R' \<and> cmd_q R' = [] \<and> good reg R' \<and>
    spec_run (cmd_q R) (sess R) (sess R')"
  using work_refines[OF assms] .

text \<open>A registry that holds no session, with a connection and a message waiting in its queue.\<close>

definition demo_registry :: "(fd set \<times> nat, string \<times> string \<times> string) registry" where
  "demo_registry = (registry_init 3 4 True ({}, 1))
     \<lparr>cmd_q := [register_command 7 EPOLLIN, send_one_command 7 (cmd_response ''hello'')]\<rparr>"

lemma demo_good:
  "good fst demo_registry" "distinct (reg_fds (cmd_q demo_registry))"
  "set (reg_fds (cmd_q demo_registry)) \<inter> set (keys (infos demo_registry)) = {}"
  by (simp_all add: good_def demo_registry_def) (simp_all add: registry_init_def)

lemmas demo_hyps = quiet_env_contract quiet_env_eventfd quiet_env_getpeername demo_good

theorem work_refines_sessions_witness:
  "\<exists>R'. work quiet_env demo_registry = Some R' \<and> cmd_q R' = [] \<and> good fst R' \<and>
     spec_run (cmd_q demo_registry) (sess demo_registry) (sess R')"
  by (rule work_refines_sessions[OF demo_hyps])

theorem work_preserves_consistency_witness:
  "\<exists>R'. work quiet_env demo_registry = Some R' \<and> connected_client_count R' = length (infos R')"
proof -
  obtain R' where w: "work quiet_env demo_registry = Some R'" using work_refines[OF demo_hyps] by blast
  have "reg_ok demo_registry" using demo_good(1) by (rule good_reg_ok)
  from work_preserves_consistency[OF this w] w show ?thesis by blast
qed

text \<open>
  C20. A failing \<open>EPOLL_CTL_MOD\<close> makes the registry read an erased session. When a message is
  appended to an idle client's empty send buffer and the kernel refuses to change the interest,
  \<open>sync_interest\<close> erases the session behind the reference its callers still hold: sending to that
  client is undefined as soon as warnings are logged (the warning names the erased session), and
  a broadcast is undefined at every log level (the loop advances the iterator of the erased
  element).
\<close>

theorem failed_mod_is_undefined:
  assumes "reg_ok R" and "info R f = Some si" and "pending (send si) = []"
    and "k_epoll_mod E (epfd R) f (interest si OR EPOLLOUT) (kst R) = (Inl ec, k)"
  shows "(should_log (log_threshold E) level_warn \<longrightarrow> handle_send_one E f c R = None) \<and>
    (\<forall>fs. keys (infos R) = f # fs \<longrightarrow> handle_broadcast E g c R = None)"
proof -
  have ok: "socket_ok f si" by (rule reg_ok_socket[OF assms(1,2)])
  have own: "ufd si = f" "f \<noteq> - 1" using ok by (auto simp: socket_ok_def)
  have a: "append_send E f c' R = None \<or> (\<exists>e R1. append_send E f c' R = Some (Inl e, R1) \<and>
      info R1 f = None \<and> \<not> should_log (log_threshold E) level_warn)" for c'
  proof -
    have flag: "fst (send_append_cmd c' (send si))"
      using ok assms(3) by (simp add: send_append_cmd_def send_append_flag socket_ok_def)
    have erased: "info (snd (unregister_fd E f R')) f = None" for R' :: "('a, 'b) registry"
      using own(2) by (cases "info R' f") (simp_all add: unregister_fd_none unregister_fd_some)
    show ?thesis
      using flag assms(4) own erased
      by (auto simp: append_send_def assms(2) case_prod_beta sync_interest_def update_interest_def
          lift_errno_def Let_def)
  qed
  have "handle_broadcast E g c R = broadcast_loop E (named_payload g c R) (keys (infos R)) R"
    by (simp add: handle_broadcast_def named_payload_def split: command.splits)
  then show ?thesis using a[of c] a[of "named_payload g c R"] by (auto simp: handle_send_one_def assms(2))
qed

theorem failed_mod_is_undefined_witness:
  "handle_send_one quiet_env 5 (cmd_response ''x'')
     ((registry_init 3 4 True ({}, 0))\<lparr>infos := [(5, pipe_socket [] [])],
       connected_client_count := 1\<rparr>) = None"
proof -
  let ?R = "(registry_init 3 4 True ({}, 0))\<lparr>infos := [(5, pipe_socket [] [])],
      connected_client_count := 1\<rparr>"
  have ok: "reg_ok ?R"
    by (auto simp: reg_ok_def core_ok_def registry_init_def socket_ok_def pipe_socket_def rooms_of_def
        users_of_def user_keys_def buf_ok_def empty_buffer_def)
  have i: "info ?R 5 = Some (pipe_socket [] [])" by simp
  have p: "pending (send (pipe_socket [] [])) = []" by (simp add: pipe_socket_def pending_def)
  have m: "k_epoll_mod quiet_env (epfd ?R) 5 (interest (pipe_socket [] []) OR EPOLLOUT) (kst ?R) =
      (Inl ENOENT, ({}, 0))"
    by (simp add: quiet_env_def registry_init_def)
  have "should_log (log_threshold quiet_env) level_warn"
    by (simp add: quiet_env_def should_log_def less_eq_log_level_def)
  then show ?thesis using failed_mod_is_undefined[OF ok i p m, of "cmd_response ''x''"] by blast
qed

end
