(* ===== verification/Executor_Contract.thy ===== *)
theory Executor_Contract
  imports Db_Executor Registry_Refinement
begin

section \<open>What executing a command may do\<close>

text \<open>
  The security and consistency properties of the executor: it keeps the database's integrity, asks
  the registry for changes of the requester's session only, lets nobody act who is not logged in,
  changes a session's user only after the right password, and broadcasts only stored messages of
  members. The rooms it hands to the registry are those of the database.
\<close>

subsection \<open>Integrity\<close>

lemma load_state: "snd (load_joined_room_ids D uid d) = d"
  using read_only_methods(5)[of D uid d]
  by (simp add: load_joined_room_ids_def case_prod_beta split: sum.splits prod.splits)

lemma load_cases:
  obtains e where "load_joined_room_ids D uid d = (Inl e, d)"
  | ids where "load_joined_room_ids D uid d = (Inr ids, d)"
  using load_state[of D uid d] by (cases "load_joined_room_ids D uid d"; cases "fst (load_joined_room_ids D uid d)") auto

lemma refresh_state: "snd (refresh_user D uid d) = d"
  by (rule load_cases[of D uid d]) (simp_all add: refresh_user_def)

lemma refresh_cases: obtains qs where "refresh_user D uid d = (qs, d)"
  using refresh_state[of D uid d] by (metis prod.collapse)

text \<open>The one call of the service that changes the database, if the command makes one.\<close>

fun main_call :: "command \<Rightarrow> string \<Rightarrow> db_call option" where
  "main_call (cmd_register uid p) _ = Some (call_signup uid p)"
| "main_call (cmd_say room body) uid = map_option (\<lambda>r. call_message r uid body) (parse_room_id room)"
| "main_call (cmd_nick nk) uid = Some (call_change_nickname uid nk)"
| "main_call (cmd_friend_request u) uid = Some (call_request_friend uid u)"
| "main_call (cmd_friend_accept u) uid = Some (call_accept u uid)"
| "main_call (cmd_friend_reject u) uid = Some (call_reject u uid)"
| "main_call (cmd_friend_remove u) uid = Some (call_remove_friend uid u)"
| "main_call (cmd_create_room nm) uid = Some (call_create_room uid nm)"
| "main_call (cmd_delete_room room) uid = map_option (call_delete_room uid) (parse_room_id room)"
| "main_call (cmd_invite_room room u) uid = map_option (\<lambda>r. call_invite uid r u) (parse_room_id room)"
| "main_call (cmd_leave_room room) uid = map_option (call_leave uid) (parse_room_id room)"
| "main_call _ _ = None"

lemma pair_cases:
  obtains r d' where "x = (r, d')" and "snd x = d'"
  by (cases x) simp

lemma execute_command_effect:
  "snd (execute_command D c f uid d) = d \<or>
   (\<exists>k. main_call c uid = Some k \<and> snd (execute_command D c f uid d) = db_effect (D 0) k d)"
proof (cases c)
  case (cmd_login u p)
  obtain r where r: "login (D 0) u p d = (r, d)" using read_only_methods(2)[of "D 0" u p d] by (metis prod.collapse)
  obtain q where q: "load_joined_room_ids (D (Suc 0)) u d = (q, d)" using load_state by (metis prod.collapse)
  show ?thesis
    by (auto simp: cmd_login exec_login_def r q split: sum.splits option.splits)
next
  case (cmd_list_friend)
  have "snd (list_friends (D 0) uid d) = d" by (rule read_only_methods)
  then show ?thesis
    by (auto simp: cmd_list_friend exec_list_friend_def case_prod_beta split: sum.splits)
next
  case (cmd_list_friend_request)
  have "snd (list_friend_requests (D 0) uid d) = d" by (rule read_only_methods)
  then show ?thesis
    by (auto simp: cmd_list_friend_request exec_list_friend_request_def case_prod_beta split: sum.splits)
next
  case (cmd_list_room)
  have "snd (list_rooms (D 0) uid d) = d" by (rule read_only_methods)
  then show ?thesis
    by (auto simp: cmd_list_room exec_list_room_def case_prod_beta split: sum.splits)
next
  case (cmd_history room lim)
  have "snd (list_room_messages (D 0) uid r n d) = d" for r n by (rule read_only_methods)
  then show ?thesis
    by (auto simp: cmd_history exec_history_def case_prod_beta split: sum.splits option.splits)
next
  case (cmd_create_room nm)
  obtain r d1 where r: "create_room (D 0) uid nm d = (r, d1)" by fastforce
  show ?thesis
    by (cases r; rule load_cases[of "D 1" uid d1])
       (auto simp: cmd_create_room exec_create_room_def r Let_def)
next
  case (cmd_delete_room room)
  show ?thesis
  proof (cases "parse_room_id room")
    case (Some q)
    obtain r d1 where r: "delete_room (D 0) uid q d = (r, d1)" by fastforce
    show ?thesis
      by (cases r; rule load_cases[of "D 1" uid d1])
         (auto simp: cmd_delete_room exec_delete_room_def r Some Let_def)
  qed (simp add: cmd_delete_room exec_delete_room_def)
next
  case (cmd_invite_room room u)
  show ?thesis
  proof (cases "parse_room_id room")
    case (Some q)
    obtain r d1 where r: "invite_room (D 0) uid q u d = (r, d1)" by fastforce
    obtain x where x: "refresh_user (D (Suc 0)) uid d1 = (x, d1)" by (rule refresh_cases)
    obtain y where y: "refresh_user (D 2) u d1 = (y, d1)" by (rule refresh_cases)
    show ?thesis
      by (cases r) (auto simp: cmd_invite_room exec_invite_room_def r Some x y split: invite_room_result.splits)
  qed (simp add: cmd_invite_room exec_invite_room_def)
next
  case (cmd_leave_room room)
  show ?thesis
  proof (cases "parse_room_id room")
    case (Some q)
    obtain r d1 where r: "leave_room (D 0) uid q d = (r, d1)" by fastforce
    obtain x where x: "refresh_user (D (Suc 0)) uid d1 = (x, d1)" by (rule refresh_cases)
    show ?thesis
      by (cases r) (auto simp: cmd_leave_room exec_leave_room_def r Some x split: leave_room_result.splits)
  qed (simp add: cmd_leave_room exec_leave_room_def)
next
  case (cmd_say room body)
  show ?thesis
    by (auto simp: cmd_say exec_say_def case_prod_beta split: option.splits sum.splits)
qed (auto simp: exec_register_def exec_nick_def exec_friend_request_def exec_friend_accept_def
      exec_friend_reject_def exec_friend_remove_def case_prod_beta split: sum.splits)

subsection \<open>Requests\<close>

text \<open>What a command of user \<open>uid\<close> on connection \<open>f\<close> may ask of the registry.\<close>

fun addressed_to :: "command \<Rightarrow> fd \<Rightarrow> string \<Rightarrow> reg_command \<Rightarrow> bool" where
  "addressed_to c f uid (send_one_command g (cmd_response body)) = (g = f)"
| "addressed_to c f uid (change_nickname_command g nk) = (g = f)"
| "addressed_to c f uid (set_user_id_command g u) = (g = f)"
| "addressed_to c f uid (set_joined_rooms_command g rs) = (g = f)"
| "addressed_to c f uid (send_friend_list_command g us) = (g = f)"
| "addressed_to c f uid (room_broadcast_command g r (cmd_response body)) =
     (g = f \<and> (\<exists>room. c = cmd_say room body \<and> parse_room_id room = Some r))"
| "addressed_to c f uid (set_joined_rooms_for_user_command u rs) =
     (u = uid \<or> (\<exists>room. c = cmd_invite_room room u))"
| "addressed_to c f uid _ = False"

lemma refresh_requests:
  "q \<in> set (fst (refresh_user D u d)) \<Longrightarrow> \<exists>rs. q = set_joined_rooms_for_user_command u rs"
  by (rule load_cases[of D u d]) (auto simp: refresh_user_def)

lemma refresh_addressed:
  "u = uid \<or> (\<exists>room. c = cmd_invite_room room u) \<Longrightarrow>
   \<forall>q \<in> set (fst (refresh_user D u d)). addressed_to c f uid q"
  using refresh_requests by fastforce

lemma execute_command_addressed:
  "\<forall>q \<in> set (fst (execute_command D c f uid d)). addressed_to c f uid q"
proof (cases c)
  case (cmd_invite_room room u)
  show ?thesis
    using refresh_addressed[of uid uid c] refresh_addressed[of u uid c] cmd_invite_room
    by (auto simp: exec_invite_room_def case_prod_beta Let_def
        split: option.splits sum.splits invite_room_result.splits)
next
  case (cmd_leave_room room)
  show ?thesis
    using refresh_addressed[of uid uid c] cmd_leave_room
    by (auto simp: exec_leave_room_def case_prod_beta Let_def
        split: option.splits sum.splits leave_room_result.splits)
qed (auto simp: exec_defs logged_out_def case_prod_beta Let_def split: option.splits sum.splits if_splits)

subsection \<open>Who a session is\<close>

lemma login_Some:
  assumes "login D uid p d = (Inr (Some nk), d')"
  shows "\<exists>row. map_of (users d) uid = Some row \<and> pw row = p \<and> nick row = nk"
  using assms by (auto simp: login_def run_tx_def split: fault.splits option.splits if_splits)

lemma set_user_id_from_login:
  assumes "set_user_id_command g u \<in> set (fst (execute_command D c f uid d))" and "u \<noteq> []"
  shows "\<exists>p row. c = cmd_login u p \<and> g = f \<and> map_of (users d) u = Some row \<and> pw row = p"
proof (cases c)
  case (cmd_login v p)
  obtain r d1 where r: "login (D 0) v p d = (r, d1)" by fastforce
  obtain q d2 where q: "load_joined_room_ids (D (Suc 0)) v d1 = (q, d2)" by fastforce
  from assms obtain nk where "r = Inr (Some nk)" "u = v" "g = f"
    by (auto simp: cmd_login exec_login_def r q logged_out_def split: sum.splits option.splits)
  then show ?thesis using login_Some[of "D 0" v p d nk d1] r cmd_login by auto
next
  case (cmd_invite_room room v)
  then show ?thesis using assms refresh_requests[of "set_user_id_command g u"]
    by (auto simp: exec_invite_room_def case_prod_beta Let_def
        split: option.splits sum.splits invite_room_result.splits if_splits)
next
  case (cmd_leave_room room)
  then show ?thesis using assms refresh_requests[of "set_user_id_command g u"]
    by (auto simp: exec_leave_room_def case_prod_beta Let_def
        split: option.splits sum.splits leave_room_result.splits if_splits)
qed (use assms in \<open>auto simp: exec_defs case_prod_beta Let_def split: option.splits sum.splits if_splits\<close>)

lemma broadcast_from_say:
  assumes "room_broadcast_command g r m \<in> set (fst (execute_command D c f uid d))"
  shows "\<exists>room body i d'. c = cmd_say room body \<and> parse_room_id room = Some r \<and> g = f \<and>
    m = cmd_response body \<and> uid \<noteq> [] \<and> create_room_message (D 0) r uid body d = (Inr (Some i), d') \<and>
    snd (execute_command D c f uid d) = d'"
proof -
  have "addressed_to c f uid (room_broadcast_command g r m)"
    using execute_command_addressed assms by blast
  then obtain room body where c: "c = cmd_say room body" "parse_room_id room = Some r" "g = f"
    by (cases m) auto
  obtain res d1 where r: "create_room_message (D 0) r uid body d = (res, d1)" by fastforce
  show ?thesis using assms c r
    by (cases res) (auto simp: exec_say_def split: if_splits option.splits)
qed

lemma create_room_message_Some:
  assumes "create_room_message D r u b d = (Inr (Some i), d')"
  shows "is_member r u d \<and> (i, \<lparr>m_room = r, m_sender = u, m_body = b, m_created = now D\<rparr>) \<in> set (messages d')"
  using assms
  by (auto simp: create_room_message_def run_tx_def insert_message_def split: fault.splits if_splits)

lemma parse_room_id_positive: "parse_room_id s = Some r \<Longrightarrow> 0 < r \<and> r \<le> i64_max"
  using stoll_range[of s] by (auto simp: parse_room_id_def split: sum.splits prod.splits if_splits)

subsection \<open>The rooms of a session\<close>

lemma load_joined_room_ids_eq:
  assumes "fault_of D = no_fault" and "db_ok le d"
  obtains ids where "load_joined_room_ids D uid d = (Inr ids, d)" and "set ids = {r. is_member r uid d}"
proof -
  define rs where "rs = order_by (\<lambda>x y. fst x \<le> fst y) (filter (\<lambda>(r, row). is_member r uid d) (rooms d))"
  define info_of where "info_of = (\<lambda>(r, row :: room_row). \<lparr>ri_id = r, ri_name = r_name row, ri_owner = r_owner row,
              ri_members = length (filter (\<lambda>((r', u), role). r' = r) (room_members d))\<rparr>)"
  have "list_rooms D uid d = (Inr (map info_of rs), d)"
    by (simp add: list_rooms_def run_tx_def assms(1) select_rooms_def rs_def info_of_def)
  then have l: "load_joined_room_ids D uid d = (Inr (map (ri_id \<circ> info_of) rs), d)"
    by (simp add: load_joined_room_ids_def)
  have "ri_id (info_of p) = fst p" for p by (simp add: info_of_def case_prod_beta)
  then have "set (map (ri_id \<circ> info_of) rs) = fst ` {p \<in> set (rooms d). is_member (fst p) uid d}"
    by (auto simp: rs_def case_prod_beta)
  also have "\<dots> = {r. is_member r uid d}"
    using db_ok_member(1)[OF assms(2)] by (fastforce simp: room_exists_def keys_def)
  finally show thesis using that[OF l] by simp
qed

lemma parse_to_string: "0 < r \<Longrightarrow> r \<le> i64_max \<Longrightarrow> parse_room_id (to_string r) = Some r"
  by (simp add: parse_room_id_def stoll_to_string)

subsection \<open>Properties\<close>

text \<open>
  C3. Nobody becomes a user without the password. Whatever command any connection sends, whatever
  user the session had, and whatever the database does, a request to set a non-empty user id comes
  only from a login command of that connection, for that id, with the password stored in the
  database.
\<close>

theorem authentication_sound:
  assumes "set_user_id_command g u \<in> set (fst (execute D t d))" and "u \<noteq> []"
  shows "\<exists>p row. t_cmd t = cmd_login u p \<and> g = t_fd t \<and> map_of (users d) u = Some row \<and> pw row = p"
  using set_user_id_from_login[of g u D "t_cmd t" "t_fd t" "t_user_id t" d] assms
  by (simp add: execute_def)

definition quiet_db_env :: "nat \<Rightarrow> db_env" where
  "quiet_db_env i = calm i 1"

lemma quiet_db_env_simps [simp]:
  "fault_of (quiet_db_env i) = no_fault" "le_text (quiet_db_env i) = lex_le" "next_id (quiet_db_env i) = 1"
  by (simp_all add: quiet_db_env_def)

theorem authentication_sound_witness:
  "set_user_id_command 5 ''ann'' \<in>
     set (fst (execute quiet_db_env \<lparr>t_cmd = cmd_login ''ann'' ''x'', t_fd = 5, t_user_id = []\<rparr> demo_db)) \<and>
   (\<exists>row. map_of (users demo_db) ''ann'' = Some row \<and> pw row = ''x'')"
proof -
  let ?t = "\<lparr>t_cmd = cmd_login ''ann'' ''x'', t_fd = 5, t_user_id = []\<rparr>"
  obtain ids where l: "load_joined_room_ids (quiet_db_env (Suc 0)) ''ann'' demo_db = (Inr ids, demo_db)"
    by (rule load_joined_room_ids_eq[OF _ demo_db_ok(1), of "quiet_db_env (Suc 0)" "''ann''"]) simp_all
  have "login (quiet_db_env 0) ''ann'' ''x'' demo_db = (Inr (Some ''guest''), demo_db)"
    by (simp add: login_def run_tx_def demo_db_def)
  then have s: "set_user_id_command 5 ''ann'' \<in> set (fst (execute quiet_db_env ?t demo_db))"
    using l by (simp add: execute_def exec_login_def)
  from authentication_sound[OF s] s show ?thesis by auto
qed

text \<open>
  C11. A room message is broadcast only if it was stored, and stored only for members. If executing a
  task asks for a broadcast, then the task says something in that room (a positive room id) on
  behalf of a logged-in member of the room, the broadcast carries exactly the text said and its own
  connection as the sender, and the message is in the database afterwards.
\<close>

theorem broadcast_only_stored_messages:
  assumes "room_broadcast_command g r m \<in> set (fst (execute D t d))"
  shows "\<exists>room body i. t_cmd t = cmd_say room body \<and> parse_room_id room = Some r \<and> 0 < r \<and> g = t_fd t \<and>
    m = cmd_response body \<and> t_user_id t \<noteq> [] \<and> is_member r (t_user_id t) d \<and>
    (i, \<lparr>m_room = r, m_sender = t_user_id t, m_body = body, m_created = now (D 0)\<rparr>)
      \<in> set (messages (snd (execute D t d)))"
proof -
  from assms have b: "room_broadcast_command g r m \<in>
      set (fst (execute_command D (t_cmd t) (t_fd t) (t_user_id t) d))" by (simp add: execute_def)
  from broadcast_from_say[OF b] obtain room body i d' where
    c: "t_cmd t = cmd_say room body" "parse_room_id room = Some r" "g = t_fd t" "m = cmd_response body"
      "t_user_id t \<noteq> []" and m: "create_room_message (D 0) r (t_user_id t) body d = (Inr (Some i), d')"
    and s: "snd (execute D t d) = d'" by (auto simp: execute_def)
  from create_room_message_Some[OF m] parse_room_id_positive[OF c(2)] c s show ?thesis by blast
qed

theorem broadcast_only_stored_messages_witness:
  "room_broadcast_command 5 7 (cmd_response ''hi'') \<in>
     set (fst (execute quiet_db_env \<lparr>t_cmd = cmd_say (to_string 7) ''hi'', t_fd = 5, t_user_id = ''ann''\<rparr> demo_room_db)) \<and>
   is_member 7 ''ann'' demo_room_db"
proof -
  let ?t = "\<lparr>t_cmd = cmd_say (to_string 7) ''hi'', t_fd = 5, t_user_id = ''ann''\<rparr>"
  have p: "parse_room_id (to_string 7) = Some 7" by (rule parse_to_string) (simp_all add: i64_max_def)
  have "\<exists>d'. create_room_message (quiet_db_env 0) 7 ''ann'' ''hi'' demo_room_db = (Inr (Some 1), d')"
    by (simp add: create_room_message_def run_tx_def insert_message_def is_member_def room_exists_def
        user_exists_def demo_room_db_def demo_db_def)
  then have s: "room_broadcast_command 5 7 (cmd_response ''hi'') \<in> set (fst (execute quiet_db_env ?t demo_room_db))"
    using p by (auto simp: execute_def exec_say_def)
  from broadcast_only_stored_messages[OF s] s show ?thesis by auto
qed

text \<open>
  C19. Without a login nothing happens: for a session with no user, every command except login and
  register answers \<open>login first\<close> to its own connection and changes nothing; and no command of any
  session asks the registry for anything but replies to its own connection, changes of its own
  session, a broadcast to the room it spoke in, and a refresh of the rooms of the requesting user
  or of the user it invites.
\<close>

theorem commands_stay_in_their_session:
  "(t_user_id t = [] \<longrightarrow> is_db_command (t_cmd t) \<longrightarrow>
     (\<forall>u p. t_cmd t \<noteq> cmd_login u p \<and> t_cmd t \<noteq> cmd_register u p) \<longrightarrow>
     execute D t d = ([reply (t_fd t) ''login first''], d)) \<and>
   (\<forall>q \<in> set (fst (execute D t d)). addressed_to (t_cmd t) (t_fd t) (t_user_id t) q)"
proof (intro conjI impI)
  assume "t_user_id t = []" "is_db_command (t_cmd t)"
    "\<forall>u p. t_cmd t \<noteq> cmd_login u p \<and> t_cmd t \<noteq> cmd_register u p"
  then show "execute D t d = ([reply (t_fd t) ''login first''], d)"
    by (cases "t_cmd t") (simp_all add: execute_def exec_defs)
next
  show "\<forall>q \<in> set (fst (execute D t d)). addressed_to (t_cmd t) (t_fd t) (t_user_id t) q"
    using execute_command_addressed by (simp add: execute_def)
qed

theorem commands_stay_in_their_session_witness:
  "execute quiet_db_env \<lparr>t_cmd = cmd_list_room, t_fd = 5, t_user_id = []\<rparr> demo_db =
     ([reply 5 ''login first''], demo_db)"
  using commands_stay_in_their_session[of "\<lparr>t_cmd = cmd_list_room, t_fd = 5, t_user_id = []\<rparr>" quiet_db_env demo_db]
  by simp

text \<open>
  The executor keeps the database's integrity, and a command makes at most one changing call of
  the service: whatever faults occur, the tables after a task are those before it or those after
  the one call that belongs to its command.
\<close>

theorem execute_keeps_integrity:
  assumes "db_ok le d" and "total_le le" and "le_text (D 0) = le" and "seq_ok (D 0) d"
  shows "db_ok le (snd (execute D t d)) \<and>
    (snd (execute D t d) = d \<or>
     (\<exists>k. main_call (t_cmd t) (t_user_id t) = Some k \<and> snd (execute D t d) = db_effect (D 0) k d))"
  using execute_command_effect[of D "t_cmd t" "t_fd t" "t_user_id t" d] db_effect_ok[OF assms] assms(1)
  by (auto simp: execute_def)

theorem execute_keeps_integrity_witness:
  "db_ok lex_le (snd (execute quiet_db_env
     \<lparr>t_cmd = cmd_friend_accept ''ann'', t_fd = 5, t_user_id = ''bob''\<rparr> demo_db))"
  using execute_keeps_integrity[OF demo_db_ok(1) lex_le_total, of quiet_db_env] demo_db_ok(2)[of 0]
  by (simp add: quiet_db_env_def)

text \<open>What each of the four commands sends, when nothing fails.\<close>

lemma login_sends_rooms:
  assumes "db_ok le d" and "total_le le" and "\<forall>i. le_text (D i) = le \<and> fault_of (D i) = no_fault"
    and u: "map_of (users d) uid = Some row" "pw row = p"
  shows "\<exists>ids. fst (execute_command D (cmd_login uid p) f v d) =
    [set_user_id_command f uid, set_joined_rooms_command f ids, change_nickname_command f (nick row),
     reply f ''login success''] \<and> set ids = {q. is_member q uid d}"
proof -
  have "login (D 0) uid p d = (Inr (Some (nick row)), d)"
    using u assms(3) by (simp add: login_def run_tx_def)
  moreover obtain ids where "load_joined_room_ids (D (Suc 0)) uid d = (Inr ids, d)"
    "set ids = {q. is_member q uid d}"
    using load_joined_room_ids_eq[OF _ assms(1), of "D (Suc 0)" uid] assms(3) by metis
  ultimately show ?thesis by (auto simp: exec_login_def)
qed

lemma leave_refreshes_rooms:
  assumes "db_ok le d" and "total_le le" and "\<forall>i. le_text (D i) = le \<and> fault_of (D i) = no_fault"
    and "seq_ok (D 0) d" and "uid \<noteq> []" and "parse_room_id room = Some r"
    and member: "\<not> (owns uid r d \<or> \<not> is_member r uid d)"
  shows "\<exists>ids. execute_command D (cmd_leave_room room) f uid d =
      ([set_joined_rooms_for_user_command uid ids, reply f (''left room: '' @ to_string r)],
       d\<lparr>room_members := map_erase (r, uid) (room_members d)\<rparr>) \<and>
    set ids = {q. is_member q uid d} - {r}"
proof -
  let ?d1 = "d\<lparr>room_members := map_erase (r, uid) (room_members d)\<rparr>"
  have l: "leave_room (D 0) uid r d = (Inr left_room, ?d1)"
    using leave_room_eq[OF assms(1), of "D 0" uid r] assms(3) member by simp
  have "db_ok le ?d1" using leave_room_ok[OF assms(1), of "D 0" uid r] l by simp
  then obtain ids where "load_joined_room_ids (D (Suc 0)) uid ?d1 = (Inr ids, ?d1)"
    "set ids = {q. is_member q uid ?d1}"
    using load_joined_room_ids_eq[of "D (Suc 0)" le ?d1 uid] assms(3) by metis
  then show ?thesis using l assms(5,6)
    by (auto simp: exec_leave_room_def refresh_user_def is_member_erase)
qed

lemma invite_refreshes_rooms:
  assumes "db_ok le d" and "total_le le" and "\<forall>i. le_text (D i) = le \<and> fault_of (D i) = no_fault"
    and "seq_ok (D 0) d" and "uid \<noteq> []" and "parse_room_id room = Some r"
    and u: "u \<noteq> uid" "is_member r uid d" "are_friends (D 0) uid u d" "\<not> is_member r u d"
  shows "\<exists>own other d'. execute_command D (cmd_invite_room room u) f uid d =
      ([set_joined_rooms_for_user_command uid own, set_joined_rooms_for_user_command u other,
        reply f (''room invite sent: room='' @ to_string r @ '' user='' @ u)], d') \<and>
    set own = {q. is_member q uid d} \<and> set other = insert r {q. is_member q u d}"
proof -
  let ?d1 = "d\<lparr>room_members := room_members d @ [((r, u), member_role)]\<rparr>"
  have i: "invite_room (D 0) uid r u d = (Inr invited, ?d1)"
    using invite_room_eq[OF assms(1,2), of "D 0" uid r u] assms(3) u by simp
  have ok: "db_ok le ?d1" using invite_room_ok[OF assms(1), of "D 0" uid r u] i by simp
  have m: "is_member q v ?d1 \<longleftrightarrow> is_member q v d \<or> (q = r \<and> v = u)" for q v
    by (auto simp: is_member_def)
  obtain own where own: "load_joined_room_ids (D (Suc 0)) uid ?d1 = (Inr own, ?d1)"
    "set own = {q. is_member q uid ?d1}"
    using load_joined_room_ids_eq[OF _ ok, of "D (Suc 0)" uid] assms(3) by metis
  obtain other where other: "load_joined_room_ids (D 2) u ?d1 = (Inr other, ?d1)"
    "set other = {q. is_member q u ?d1}"
    using load_joined_room_ids_eq[OF _ ok, of "D 2" u] assms(3) by metis
  show ?thesis
    using own other i u(1) assms(5,6)
    by (auto simp: exec_invite_room_def refresh_user_def m)
qed

lemma create_refreshes_rooms:
  assumes "db_ok le d" and "total_le le" and "\<forall>i. le_text (D i) = le \<and> fault_of (D i) = no_fault"
    and "seq_ok (D 0) d" and "uid \<noteq> []" and "parse_room_id room = Some r"
    and nm: "nm \<noteq> []" "user_exists uid d"
  shows "\<exists>ids d'. execute_command D (cmd_create_room nm) f uid d =
      ([reply f (''room created: '' @ to_string (next_id (D 0)) @ '' ('' @ nm @ '')''),
        set_joined_rooms_command f ids], d') \<and>
    set ids = insert (next_id (D 0)) {q. is_member q uid d} \<and> is_member (next_id (D 0)) uid d'"
proof -
  let ?n = "next_id (D 0)"
  let ?d1 = "d\<lparr>rooms := rooms d @ [(?n, \<lparr>r_name = nm, r_owner = uid\<rparr>)],
      room_members := room_members d @ [((?n, uid), owner_role)]\<rparr>"
  have fresh: "\<not> is_member ?n uid d"
    using db_ok_member(1)[OF assms(1), of ?n uid] assms(4) by (auto simp: seq_ok_def room_exists_def)
  have c: "create_room (D 0) uid nm d = (Inr ?n, ?d1)"
    using assms(3) nm(2) fresh
    by (simp add: create_room_def run_tx_def tx_bind_def insert_room_def insert_member_def tx_return_def
        is_member_def room_exists_def user_exists_def)
  have ok: "db_ok le ?d1" using create_room_ok[OF assms(1,4), of uid nm] c by simp
  have m: "is_member q uid ?d1 \<longleftrightarrow> is_member q uid d \<or> q = ?n" for q by (auto simp: is_member_def)
  obtain ids where "load_joined_room_ids (D (Suc 0)) uid ?d1 = (Inr ids, ?d1)"
    "set ids = {q. is_member q uid ?d1}"
    using load_joined_room_ids_eq[OF _ ok, of "D (Suc 0)" uid] assms(3) by metis
  then show ?thesis using c nm(1) assms(5) m by (auto simp: exec_create_room_def)
qed



end
