(* ===== verification/Epoll_Server.thy ===== *)
theory Epoll_Server
  imports Executor_Contract
begin

section \<open>The server's event handlers and the event loop\<close>

text \<open>
  \<open>server/epoll_server\<close> and \<open>reactor/event_loop\<close>: what happens when a connection is readable,
  writable or broken, and the loop that runs the registry's commands and then these handlers. The
  handlers get a reference to a session of the registry, here its descriptor; \<open>None\<close> is a use of a
  reference whose session is gone, or a receive that does not return. A turn of the loop takes what
  \<open>epoll_wait\<close> returned as its argument.
\<close>

unbundle bit_operations_syntax

record ('k, 's) server =
  registry_of :: "('k, 's) registry"
  thread_pool_of :: "pool_task pool"
  db_pool_of :: "db_task pool"

definition put_registry :: "('k, 's) registry \<Rightarrow> ('k, 's) server \<Rightarrow> ('k, 's) server" where
  "put_registry R S = S\<lparr>registry_of := R\<rparr>"

subsection \<open>TLS progress and closing\<close>

definition sync_tls_interest ::
  "('k, 's) env \<Rightarrow> fd \<Rightarrow> ('k, 's) registry \<Rightarrow> ((error_code + unit) \<times> ('k, 's) registry) option" where
  "sync_tls_interest E f R = do {
     si \<leftarrow> info R f;
     let next_interest = (if has_pending (send si) \<or> needs_write (tls si)
                          then interest si OR EPOLLOUT else interest si AND NOT EPOLLOUT);
     if next_interest = interest si then Some (Inr (), R)
     else
       (let (res, si1, k1) = update_interest E (epfd R) si next_interest (kst R)
        in Some (res, put_info f si1 (R\<lparr>kst := k1\<rparr>)))
   }"

definition handle_disconnect ::
  "('k, 's) env \<Rightarrow> fd \<Rightarrow> ('k, 's) registry \<Rightarrow> ('k, 's) registry option" where
  "handle_disconnect E f R = do {
     si \<leftarrow> info R f;
     if is_closed si then Some R
     else
       (let si1 = si\<lparr>is_closed := True\<rparr>
        in Some (request_unregister E (ufd si1) (put_info f si1 R)))
   }"

text \<open>A failing shutdown is only logged.\<close>

definition handle_close ::
  "('k, 's) env \<Rightarrow> fd \<Rightarrow> ('k, 's) registry \<Rightarrow> ('k, 's) registry option" where
  "handle_close E f R = do {
     si \<leftarrow> info R f;
     if is_closed si then Some R
     else
       (let si1 = (if is_handshake_done (tls si) \<and> \<not> tls_is_closed (tls si)
                   then si\<lparr>tls := snd (tls_shutdown (lib E) (tls si))\<rparr> else si)
        in handle_disconnect E f (put_info f si1 R))
   }"

definition progress_tls_handshake ::
  "('k, 's) env \<Rightarrow> fd \<Rightarrow> ('k, 's) registry \<Rightarrow> ((error_code + unit) \<times> ('k, 's) registry) option" where
  "progress_tls_handshake E f R = do {
     si \<leftarrow> info R f;
     if ssl (tls si) = None then Some (Inr (), R)
     else if is_handshake_done (tls si) then Some (Inr (), R)
     else
       (let (hs_exp, t) = handshake (lib E) (tls si); R1 = put_info f (si\<lparr>tls := t\<rparr>) R in
        case hs_exp of
          Inl e \<Rightarrow> do { R2 \<leftarrow> handle_disconnect E f R1; Some (Inl e, R2) }
        | Inr io \<Rightarrow>
            if closed io
            then do { R2 \<leftarrow> handle_close E f R1; Some (Inl (from_errno ECONNRESET), R2) }
            else do {
              (sync_exp, R2) \<leftarrow> sync_tls_interest E f R1;
              case sync_exp of
                Inl e \<Rightarrow> do { R3 \<leftarrow> handle_disconnect E f R2; Some (Inl e, R3) }
              | Inr _ \<Rightarrow> Some (Inr (), R2)
            })
   }"

text \<open>The handshake is still to be waited for.\<close>

definition tls_waiting :: "fd \<Rightarrow> ('k, 's) registry \<Rightarrow> bool" where
  "tls_waiting f R =
     (case info R f of
        None \<Rightarrow> False | Some si \<Rightarrow> ssl (tls si) \<noteq> None \<and> \<not> is_handshake_done (tls si))"

definition handle_send ::
  "('k, 's) env \<Rightarrow> fd \<Rightarrow> ('k, 's) registry \<Rightarrow> ('k, 's) registry option" where
  "handle_send E f R = do {
     (hs_exp, R1) \<leftarrow> progress_tls_handshake E f R;
     case hs_exp of
       Inl _ \<Rightarrow> Some R1
     | Inr _ \<Rightarrow>
         if tls_waiting f R1 then Some R1
         else do {
           si \<leftarrow> info R1 f;
           let (fs_exp, si1) = flush_send (lib E) si;
           let R2 = put_info f si1 R1;
           case fs_exp of
             Inl _ \<Rightarrow> handle_disconnect E f R2
           | Inr _ \<Rightarrow> do {
               (sync_exp, R3) \<leftarrow> sync_tls_interest E f R2;
               case sync_exp of Inl _ \<Rightarrow> handle_disconnect E f R3 | Inr _ \<Rightarrow> Some R3
             }
         }
   }"

text \<open>The result says whether the connection is kept for the rest of this event.\<close>

definition handle_recv ::
  "('k, 's) env \<Rightarrow> fd \<Rightarrow> u32 \<Rightarrow> ('k, 's) registry \<Rightarrow> (bool \<times> ('k, 's) registry) option" where
  "handle_recv E f ev R = do {
     (hs_exp, R1) \<leftarrow> progress_tls_handshake E f R;
     case hs_exp of
       Inl _ \<Rightarrow> Some (False, R1)
     | Inr _ \<Rightarrow>
         if tls_waiting f R1 then Some (True, R1)
         else do {
           si \<leftarrow> info R1 f;
           (dr_exp, si1) \<leftarrow> drain_recv (lib E) si;
           let R2 = put_info f si1 R1;
           case dr_exp of
             Inl _ \<Rightarrow> do { R3 \<leftarrow> handle_disconnect E f R2; Some (False, R3) }
           | Inr ri \<Rightarrow> do {
               (sync_exp, R3) \<leftarrow> sync_tls_interest E f R2;
               case sync_exp of
                 Inl _ \<Rightarrow> do { R4 \<leftarrow> handle_disconnect E f R3; Some (False, R4) }
               | Inr _ \<Rightarrow>
                   if ri_closed ri \<or> ev AND EPOLLRDHUP \<noteq> 0
                   then do { R4 \<leftarrow> handle_close E f R3; Some (False, R4) }
                   else Some (True, R3)
             }
         }
   }"

text \<open>The error that is read from the socket is only logged; reading it clears it in the kernel.\<close>

definition handle_client_error ::
  "('k, 's) env \<Rightarrow> fd \<Rightarrow> ('k, 's) registry \<Rightarrow> ('k, 's) registry option" where
  "handle_client_error E f R =
     (case info R f of
        None \<Rightarrow> Some R
      | Some si \<Rightarrow>
          if is_closed si then Some R
          else
            (let si1 = (if is_handshake_done (tls si)
                        then si\<lparr>tls := snd (tls_shutdown (lib E) (tls si))\<rparr> else si);
                 k1 = snd (k_so_error E f (kst R))
             in handle_disconnect E f (put_info f si1 (R\<lparr>kst := k1\<rparr>))))"

subsection \<open>Executing one line\<close>

definition handle_execute ::
  "('k, 's) env \<Rightarrow> fd \<Rightarrow> ('k, 's) server \<Rightarrow> (bool \<times> ('k, 's) server) option" where
  "handle_execute E f S = do {
     si \<leftarrow> info (registry_of S) f;
     case parse_line (recv si) of
       None \<Rightarrow> Some (False, S)
     | Some (line, b) \<Rightarrow>
         (let si1 = si\<lparr>recv := b\<rparr>;
              R1 = put_info f si1 (registry_of S);
              S1 = S\<lparr>registry_of := R1\<rparr>
          in case decode line of
               Inl _ \<Rightarrow> Some (True, S1)
             | Inr c \<Rightarrow>
                 if is_db_command c then
                   (let (ok, q) = db_enqueue_si c si1 (db_pool_of S1) in Some (ok, S1\<lparr>db_pool_of := q\<rparr>))
                 else if is_pool_command c then
                   (let (ok, q) = thread_pool_enqueue_si c si1 (thread_pool_of S1)
                    in Some (ok, S1\<lparr>thread_pool_of := q\<rparr>))
                 else
                   (let R2 = (case c of
                        cmd_say room body \<Rightarrow> request_broadcast E (ufd si1) (cmd_response body) R1
                      | cmd_nick nk \<Rightarrow> request_change_nickname E (ufd si1) nk R1
                      | cmd_response body \<Rightarrow> request_send E (ufd si1) (cmd_response body) R1
                      | _ \<Rightarrow> R1)
                    in Some (True, S1\<lparr>registry_of := R2\<rparr>)))
   }"

subsection \<open>The event loop\<close>

definition is_read_event :: "u32 \<Rightarrow> bool" where
  "is_read_event ev \<longleftrightarrow> ev AND (EPOLLIN OR EPOLLRDHUP OR EPOLLHUP) \<noteq> 0"

definition is_write_event :: "u32 \<Rightarrow> bool" where
  "is_write_event ev \<longleftrightarrow> ev AND EPOLLOUT \<noteq> 0"

definition is_error_event :: "u32 \<Rightarrow> bool" where
  "is_error_event ev \<longleftrightarrow> ev AND EPOLLERR \<noteq> 0"

lemma put_info_info [simp]: "info (put_info f si R) g = (if g = f then Some si else info R g)"
  by simp

lemma request_infos [simp]:
  "infos (request E c R) = infos R" "epfd (request E c R) = epfd R" "wake_fd (request E c R) = wake_fd R"
  "room_online_fds (request E c R) = room_online_fds R"
  "user_online_fds (request E c R) = user_online_fds R"
  "connected_client_count (request E c R) = connected_client_count R"
  "cmd_q (request E c R) = cmd_q R @ [c]"
  by (simp_all add: request_def)

text \<open>The bytes that are waiting to be executed.\<close>

definition unread :: "fd \<Rightarrow> ('k, 's) server \<Rightarrow> nat" where
  "unread f S = (case info (registry_of S) f of None \<Rightarrow> 0 | Some si \<Rightarrow> length (pending (recv si)))"

lemma handle_execute_unread:
  assumes "handle_execute E f S = Some (True, S')"
  shows "unread f S' < unread f S"
proof -
  obtain si where si: "info (registry_of S) f = Some si"
    using assms by (auto simp: handle_execute_def bind_eq_Some_conv)
  obtain line b where p: "parse_line (recv si) = Some (line, b)"
    using assms by (auto simp: handle_execute_def si split: option.splits)
  have "length (pending b) < length (pending (recv si))" using parse_line_Some(1)[OF p] by simp
  then show ?thesis using assms
    by (auto simp: handle_execute_def si p unread_def Let_def case_prod_beta request_defs
        split: sum.splits if_splits command.splits)
qed

text \<open>\<open>while(on_execute(si));\<close> ends because each turn that goes on has taken a line.\<close>

function execute_loop ::
  "('k, 's) env \<Rightarrow> fd \<Rightarrow> ('k, 's) server \<Rightarrow> ('k, 's) server option" where
  "execute_loop E f S =
     (case handle_execute E f S of
        None \<Rightarrow> None
      | Some (again, S1) \<Rightarrow> if again then execute_loop E f S1 else Some S1)"
  by pat_completeness auto
termination
  by (relation "measure (\<lambda>(E, f, S). unread f S)") (auto dest: handle_execute_unread)

declare execute_loop.simps [simp del]

definition handle_event ::
  "('k, 's) env \<Rightarrow> fd \<times> u32 \<Rightarrow> ('k, 's) server \<Rightarrow> ('k, 's) server option" where
  "handle_event E p S =
     (let (f, ev) = p in
      if is_error_event ev then do {
        R \<leftarrow> handle_client_error E f (registry_of S);
        Some (put_registry R S)
      }
      else if info (registry_of S) f = None then Some S
      else do {
        (keep_alive, R1) \<leftarrow> (if is_read_event ev then handle_recv E f ev (registry_of S)
                            else Some (True, registry_of S));
        let S1 = put_registry R1 S;
        if \<not> keep_alive then Some S1
        else do {
          R2 \<leftarrow> (if is_write_event ev then handle_send E f R1 else Some R1);
          let S2 = put_registry R2 S1;
          if is_read_event ev then execute_loop E f S2 else Some S2
        }
      })"

fun handle_events ::
  "('k, 's) env \<Rightarrow> (fd \<times> u32) list \<Rightarrow> ('k, 's) server \<Rightarrow> ('k, 's) server option" where
  "handle_events E [] S = Some S"
| "handle_events E (p # ps) S = do { S1 \<leftarrow> handle_event E p S; handle_events E ps S1 }"

text \<open>
  One turn: what \<open>epoll_wait\<close> returned, and whether a stop was requested when it was last looked at.
  The loop is run on a list of turns; it returns early on a stop and on an error other than \<open>EINTR\<close>.
\<close>

datatype poll_result = poll_failed c_int | poll_ready "(fd \<times> u32) list" bool

fun event_loop_run ::
  "('k, 's) env \<Rightarrow> poll_result list \<Rightarrow> ('k, 's) server \<Rightarrow> ((error_code + unit) \<times> ('k, 's) server) option" where
  "event_loop_run E [] S = Some (Inr (), S)"
| "event_loop_run E (poll_failed ec # ps) S =
     (if ec = EINTR then event_loop_run E ps S else Some (Inl (from_errno ec), S))"
| "event_loop_run E (poll_ready evs stop_now # ps) S = do {
     R \<leftarrow> work E (registry_of S);
     let S1 = put_registry R S;
     if stop_now then Some (Inr (), S1)
     else do { S2 \<leftarrow> handle_events E evs S1; event_loop_run E ps S2 }
   }"

end
