(* ===== verification/Clean_Text.thy ===== *)
theory Clean_Text
  imports Command_Codec
begin

section \<open>Text that stays inside its line\<close>

text \<open>
  A field is \<open>clean\<close> when it is not empty and holds neither of the two bytes the protocol gives a
  meaning. Everything a line decodes to is clean, and a command of clean fields survives the trip
  through its line.
\<close>

definition clean :: "string \<Rightarrow> bool" where
  "clean s \<longleftrightarrow> s \<noteq> [] \<and> CR \<notin> set s \<and> LF \<notin> set s"

definition plain :: "string \<Rightarrow> bool" where
  "plain s \<longleftrightarrow> CR \<notin> set s \<and> LF \<notin> set s"

definition clean_command :: "command \<Rightarrow> bool" where
  "clean_command c \<longleftrightarrow> (\<forall>f \<in> set (cmd_fields c). clean f)"

lemma clean_command_wf: "clean_command c \<Longrightarrow> wf_command c \<and> line_safe c"
  by (auto simp: clean_command_def wf_command_def line_safe_def wf_field_def clean_def)
     (metis hd_in_set)

lemma decode_clean:
  assumes "decode line = Inr c" and "LF \<notin> set line"
  shows "clean_command c"
proof -
  have "last line \<noteq> LF" if "line \<noteq> []" using that assms(2) last_in_set by fastforce
  then have "erase_delimeter line = line" by (auto simp: erase_delimeter_def)
  then show ?thesis using decode_fields_wf[OF assms(1)] assms(2)
    by (auto simp: clean_command_def wf_command_def line_safe_def wf_field_def clean_def)
qed

lemma plain_append [simp]: "plain (a @ b) \<longleftrightarrow> plain a \<and> plain b"
  and plain_Cons [simp]: "plain (x # b) \<longleftrightarrow> x \<noteq> CR \<and> x \<noteq> LF \<and> plain b"
  and plain_Nil [simp]: "plain []"
  by (auto simp: plain_def)

lemma clean_plain: "clean s \<longleftrightarrow> s \<noteq> [] \<and> plain s"
  by (auto simp: clean_def plain_def)

lemma clean_imp_plain: "clean s \<Longrightarrow> plain s"
  by (simp add: clean_plain)

lemma plain_to_string [simp]: "plain (to_string i)"
  using show_nat_digits[of "nat i"] show_nat_digits[of "nat (- i)"] is_digit_not
  by (auto simp: to_string_def plain_def)

lemma clean_to_string [simp]: "clean (to_string i)"
  using plain_to_string[of i] show_nat_not_Nil
  by (simp add: clean_plain del: plain_to_string) (simp add: to_string_def)

end
