(* ===== verification/Wire_Clean.thy ===== *)
theory Wire_Clean
  imports Executor_Contract Clean_Text "HOL-Library.Sublist"
begin

section \<open>Clean commands stay clean\<close>

text \<open>
  The executor, fed with clean commands and working on a database of clean texts, stores and
  requests clean texts only; and so does the registry with what it sends. The locale
  \<open>statement_invariant\<close> is the interface of the statements of the database service: what every
  statement keeps, every method keeps.
\<close>

subsection \<open>A database of clean texts\<close>

definition db_clean :: "db \<Rightarrow> bool" where
  "db_clean d \<longleftrightarrow>
     (\<forall>(u, row) \<in> set (users d). clean u \<and> clean (nick row)) \<and>
     (\<forall>(a, b) \<in> set (friendships d). clean a \<and> clean b) \<and>
     (\<forall>((a, b), row) \<in> set (friend_requests d). clean a \<and> clean b) \<and>
     (\<forall>(r, row) \<in> set (rooms d). clean (r_name row) \<and> clean (r_owner row)) \<and>
     (\<forall>(i, m) \<in> set (messages d). clean (m_sender m) \<and> clean (m_body m))"

lemma db_clean_empty: "db_clean empty_db"
  by (simp add: db_clean_def empty_db_def)

lemma set_map_put: "set (map_put k v m) \<subseteq> insert (k, v) (set m)"
  unfolding map_put_def by (induction m) auto

lemma map_erase_subset: "set (map_erase k m) \<subseteq> set m"
  unfolding map_erase_def by (induction m) auto

lemma clean_order: "clean a \<Longrightarrow> clean b \<Longrightarrow> clean (least_of D a b) \<and> clean (greatest_of D a b)"
  by (simp add: least_of_def greatest_of_def)

lemma clean_insert_user: "clean u \<Longrightarrow> clean n \<Longrightarrow> preserves db_clean (insert_user u p n)"
  by (auto simp: preserves_def insert_user_def db_clean_def split: if_splits)

lemma clean_update_nickname: "clean n \<Longrightarrow> preserves db_clean (update_nickname u n)"
  unfolding preserves_def
proof (intro allI impI)
  fix d a d' assume n: "clean n" and ok: "db_clean d" and e: "update_nickname u n d = Inr (a, d')"
  show "db_clean d'"
  proof (cases "map_of (users d) u")
    case None
    then show ?thesis using e ok by (simp add: update_nickname_def)
  next
    case (Some row)
    have "clean u" using map_of_SomeD[OF Some] ok by (auto simp: db_clean_def)
    moreover have "d' = d\<lparr>users := map_put u (row\<lparr>nick := n\<rparr>) (users d)\<rparr>"
      using e Some by (simp add: update_nickname_def)
    ultimately show ?thesis
      using ok n set_map_put[of u "row\<lparr>nick := n\<rparr>" "users d"] unfolding db_clean_def by auto
  qed
qed

lemma clean_insert_friendship: "clean a \<Longrightarrow> clean b \<Longrightarrow> preserves db_clean (insert_friendship D a b)"
  using clean_order[of a b D]
  by (auto simp: preserves_def insert_friendship_def db_clean_def split: if_splits)

lemma clean_delete_friendship: "preserves db_clean (delete_friendship D a b)"
  by (auto simp: preserves_def delete_friendship_def db_clean_def)

lemma clean_put_request:
  assumes "db_clean d" and "clean a" and "clean b"
  shows "db_clean (d\<lparr>friend_requests := map_put (a, b) row (friend_requests d)\<rparr>)"
  using assms set_map_put[of "(a, b)" row "friend_requests d"] unfolding db_clean_def by auto

lemma clean_insert_friend_request:
  "clean a \<Longrightarrow> clean b \<Longrightarrow> preserves db_clean (insert_friend_request D a b)"
  unfolding preserves_def
proof (intro allI impI)
  fix d r d' assume c: "clean a" "clean b" and ok: "db_clean d"
    and e: "insert_friend_request D a b d = Inr (r, d')"
  consider "d' = d" | row where "d' = d\<lparr>friend_requests := map_put (a, b) row (friend_requests d)\<rparr>"
    | row where "d' = d\<lparr>friend_requests := friend_requests d @ [((a, b), row)]\<rparr>"
    using e by (auto simp: insert_friend_request_def split: if_splits option.splits)
  then show "db_clean d'"
  proof cases
    case 3
    then show ?thesis using ok c by (auto simp: db_clean_def)
  qed (use ok c clean_put_request in simp_all)
qed

lemma clean_update_pending:
  "clean a \<Longrightarrow> clean b \<Longrightarrow> preserves db_clean (update_pending_request D st a b)"
  by (auto simp: preserves_def update_pending_request_def clean_put_request split: option.splits if_splits)

lemma clean_insert_room:
  "clean nm \<Longrightarrow> clean u \<Longrightarrow> preserves db_clean (insert_room D nm u)"
  by (auto simp: preserves_def insert_room_def db_clean_def split: if_splits)

lemma clean_insert_member: "preserves db_clean (insert_member r u role)"
  by (auto simp: preserves_def insert_member_def db_clean_def split: if_splits)

lemma clean_delete_room_row: "preserves db_clean (delete_room_row u r)"
  unfolding preserves_def
proof (intro allI impI)
  fix d a d' assume ok: "db_clean d" and e: "delete_room_row u r d = Inr (a, d')"
  show "db_clean d'" using ok e map_erase_subset[of r "rooms d"]
    by (auto simp: delete_room_row_def db_clean_def split: option.splits if_splits)
qed

lemma clean_delete_member: "preserves db_clean (delete_member r u)"
  by (auto simp: preserves_def delete_member_def db_clean_def)

lemma clean_insert_message:
  "clean u \<Longrightarrow> clean b \<Longrightarrow> preserves db_clean (insert_message D r u b)"
  by (auto simp: preserves_def insert_message_def db_clean_def split: if_splits)

subsection \<open>What every statement keeps, every call keeps\<close>

text \<open>The texts that a call may store.\<close>

fun stored :: "db_call \<Rightarrow> string set" where
  "stored (call_signup u p) = {u, ''guest''}"
| "stored (call_change_nickname u n) = {n}"
| "stored (call_add_friend u v) = {u, v}"
| "stored (call_request_friend u v) = {u, v}"
| "stored (call_accept u v) = {u, v}"
| "stored (call_reject u v) = {u, v}"
| "stored (call_create_room u n) = {u, n}"
| "stored (call_message r u b) = {u, b}"
| "stored _ = {}"

locale statement_invariant =
  fixes P :: "db \<Rightarrow> bool" and ok :: "string \<Rightarrow> bool" and D :: db_env
  assumes keeps_user: "ok u \<Longrightarrow> ok n \<Longrightarrow> preserves P (insert_user u p n)"
    and keeps_nickname: "ok n \<Longrightarrow> preserves P (update_nickname u n)"
    and keeps_friendship: "ok u \<Longrightarrow> ok v \<Longrightarrow> preserves P (insert_friendship D u v)"
    and keeps_unfriend: "preserves P (delete_friendship D u v)"
    and keeps_request: "ok u \<Longrightarrow> ok v \<Longrightarrow> preserves P (insert_friend_request D u v)"
    and keeps_pending: "ok u \<Longrightarrow> ok v \<Longrightarrow> preserves P (update_pending_request D st u v)"
    and keeps_room: "ok n \<Longrightarrow> ok u \<Longrightarrow> preserves P (insert_room D n u)"
    and keeps_member: "preserves P (insert_member r u role)"
    and keeps_delete_room: "preserves P (delete_room_row u r)"
    and keeps_delete_member: "preserves P (delete_member r u)"
    and keeps_message: "ok u \<Longrightarrow> ok b \<Longrightarrow> preserves P (insert_message D r u b)"
begin

lemmas keeps_statements = keeps_user keeps_nickname keeps_friendship keeps_unfriend keeps_request
  keeps_pending keeps_room keeps_member keeps_delete_room keeps_delete_member keeps_message

lemma keeps_accept:
  assumes "ok u" and "ok v" and "P d"
  shows "P (snd (accept_friend_request D u v d))"
  unfolding accept_friend_request_def
  by (rule run_tx_preserves[where P = P, OF _ assms(3)], intro preserves_bind)
     (use assms(1,2) in \<open>auto intro!: keeps_statements preserves_bind\<close>)

lemma keeps_create_room:
  assumes "ok u" and "ok n" and "P d"
  shows "P (snd (create_room D u n d))"
  unfolding create_room_def
  by (rule run_tx_preserves[where P = P, OF _ assms(3)], intro preserves_bind keeps_room keeps_member preserves_return)
     (use assms(1,2) in simp_all)

lemma keeps_invite:
  assumes "P d"
  shows "P (snd (invite_room D u r v d))"
  unfolding invite_room_def
  by (rule run_tx_preserves[where P = P, OF _ assms])
     (use preserves_bind[OF keeps_member[of r v member_role],
          of "\<lambda>inserted. tx_return (if \<not> inserted then already_member else invited)"]
      in \<open>auto simp: preserves_def tx_return_def split: if_splits\<close>)

lemma keeps_leave:
  assumes "P d"
  shows "P (snd (leave_room D u r d))"
  unfolding leave_room_def
  by (rule run_tx_preserves[where P = P, OF _ assms])
     (use preserves_bind[OF keeps_delete_member[of r u],
          of "\<lambda>deleted. tx_return (if \<not> deleted then not_member_or_room_not_found else left_room)"]
      in \<open>auto simp: preserves_def tx_return_def split: if_splits option.splits\<close>)

lemma keeps_db_effect: "P d \<Longrightarrow> \<forall>x \<in> stored k. ok x \<Longrightarrow> P (db_effect D k d)"
  by (cases k)
     (auto simp: keeps_accept keeps_create_room keeps_invite keeps_leave signup_def
       change_nickname_def add_friend_def remove_friend_def request_friend_def
       reject_friend_request_def delete_room_def create_room_message_def
       intro!: run_tx_preserves keeps_statements)

end

interpretation clean_db: statement_invariant db_clean clean D for D
  by unfold_locales
     (intro clean_insert_user clean_update_nickname clean_insert_friendship clean_delete_friendship
       clean_insert_friend_request clean_update_pending clean_insert_room clean_insert_member
       clean_delete_room_row clean_delete_member clean_insert_message; assumption)+

definition clean_call :: "db_call \<Rightarrow> bool" where
  "clean_call k \<longleftrightarrow> (\<forall>x \<in> stored k. clean x)"

lemma clean_guest [simp]: "clean ''guest''"
  by (simp add: clean_def)

text \<open>No statement deletes a user.\<close>

lemma keys_map_put_mono: "set (keys m) \<subseteq> set (keys (map_put k v m))"
  by (cases "k \<in> set (keys m)") (auto simp: keys_put_new)

interpretation users_stay: statement_invariant "\<lambda>d. U \<subseteq> set (keys (users d))" "\<lambda>_. True" D for U D
proof unfold_locales
  fix u n show "preserves (\<lambda>d. U \<subseteq> set (keys (users d))) (update_nickname u n)"
    unfolding preserves_def update_nickname_def
    using keys_map_put_mono by (fastforce split: option.splits)
qed (auto simp: preserves_def insert_user_def insert_friendship_def delete_friendship_def
    insert_friend_request_def update_pending_request_def insert_room_def insert_member_def
    delete_room_row_def delete_member_def insert_message_def split: if_splits option.splits)

lemma db_effect_clean: "db_clean d \<Longrightarrow> clean_call k \<Longrightarrow> db_clean (db_effect D k d)"
  by (rule clean_db.keeps_db_effect) (simp_all add: clean_call_def)

lemma db_effect_users: "set (keys (users d)) \<subseteq> set (keys (users (db_effect D k d)))"
  by (rule users_stay.keeps_db_effect) simp_all

subsection \<open>Clean requests\<close>

fun clean_request :: "reg_command \<Rightarrow> bool" where
  "clean_request (send_one_command f c) = clean_command c"
| "clean_request (broadcast_command f c) = clean_command c"
| "clean_request (change_nickname_command f nk) = clean nk"
| "clean_request (set_user_id_command f u) = (u = [] \<or> clean u)"
| "clean_request (send_friend_list_command f us) = (\<forall>u \<in> set us. clean u)"
| "clean_request (room_broadcast_command f r c) = clean_command c"
| "clean_request _ = True"

lemma clean_response [simp]: "clean_command (cmd_response t) = clean t"
  by (simp add: clean_command_def)

lemma order_by_subset: "x \<in> set (order_by le xs) \<Longrightarrow> x \<in> set xs"
proof -
  have "set (insert_by le y ys) \<subseteq> insert y (set ys)" for y ys
    by (induction ys) auto
  then have "set (order_by le xs) \<subseteq> set xs" unfolding order_by_def by (induction xs) fastforce+
  then show "x \<in> set (order_by le xs) \<Longrightarrow> x \<in> set xs" by blast
qed

lemma run_tx_Inr: "run_tx D m d = (Inr a, d') \<Longrightarrow> m d = Inr (a, d')"
  by (auto simp: run_tx_def split: fault.splits sum.splits prod.splits)

lemma login_clean:
  assumes "db_clean d" and "login D u p d = (Inr (Some nk), d')"
  shows "clean nk"
proof -
  obtain row where r: "map_of (users d) u = Some row" "nick row = nk" using login_Some[OF assms(2)] by blast
  have "\<forall>p \<in> set (users d). clean (nick (snd p))"
    using assms(1) by (simp add: db_clean_def case_prod_beta)
  then show ?thesis using map_of_SomeD[OF r(1)] r(2) by fastforce
qed

lemma db_cleanD:
  assumes "db_clean d"
  shows "p \<in> set (friendships d) \<Longrightarrow> clean (fst p) \<and> clean (snd p)"
    and "q \<in> set (friend_requests d) \<Longrightarrow> clean (fst (fst q))"
    and "row \<in> set (rooms d) \<Longrightarrow> plain (r_name (snd row)) \<and> plain (r_owner (snd row))"
    and "m \<in> set (messages d) \<Longrightarrow> plain (m_sender (snd m)) \<and> plain (m_body (snd m))"
proof -
  note c = assms[unfolded db_clean_def case_prod_beta]
  show "p \<in> set (friendships d) \<Longrightarrow> clean (fst p) \<and> clean (snd p)" using c by simp
  show "q \<in> set (friend_requests d) \<Longrightarrow> clean (fst (fst q))" using c by simp
  show "row \<in> set (rooms d) \<Longrightarrow> plain (r_name (snd row)) \<and> plain (r_owner (snd row))"
    using c clean_imp_plain by blast
  show "m \<in> set (messages d) \<Longrightarrow> plain (m_sender (snd m)) \<and> plain (m_body (snd m))"
    using c clean_imp_plain by blast
qed

lemma list_friends_clean:
  assumes "db_clean d" and "list_friends D u d = (Inr us, d')"
  shows "\<forall>v \<in> set us. clean v"
proof
  fix v assume "v \<in> set us"
  moreover have "select_friends D u d = Inr (us, d')"
    using assms(2) by (simp add: list_friends_def run_tx_Inr)
  ultimately obtain p where "p \<in> set (friendships d)" "v = (if fst p = u then snd p else fst p)"
    by (auto simp: select_friends_def case_prod_beta dest!: order_by_subset)
  then show "clean v" using db_cleanD(1)[OF assms(1)] by (cases "fst p = u") auto
qed

lemma list_friend_requests_clean:
  assumes "db_clean d" and "list_friend_requests D u d = (Inr us, d')"
  shows "\<forall>v \<in> set us. clean v"
proof
  fix v assume "v \<in> set us"
  moreover have "select_pending_requests u d = Inr (us, d')"
    using assms(2) by (simp add: list_friend_requests_def run_tx_Inr)
  ultimately obtain q where "q \<in> set (friend_requests d)" "v = fst (fst q)"
    by (auto simp: select_pending_requests_def case_prod_beta dest!: order_by_subset)
  then show "clean v" using db_cleanD(2)[OF assms(1)] by simp
qed

lemma list_rooms_clean:
  assumes "db_clean d" and "list_rooms D u d = (Inr rs, d')"
  shows "\<forall>ri \<in> set rs. plain (ri_name ri) \<and> plain (ri_owner ri)"
proof
  fix ri assume "ri \<in> set rs"
  moreover have "select_rooms u d = Inr (rs, d')"
    using assms(2) by (simp add: list_rooms_def run_tx_Inr)
  ultimately obtain row where "row \<in> set (rooms d)" "ri_name ri = r_name (snd row)" "ri_owner ri = r_owner (snd row)"
    by (auto simp: select_rooms_def case_prod_beta dest!: order_by_subset)
  then show "plain (ri_name ri) \<and> plain (ri_owner ri)" using db_cleanD(3)[OF assms(1)] by simp
qed

lemma list_messages_clean:
  assumes "db_clean d" and "\<And>t. plain (time_text D t)"
    and "list_room_messages D u r n d = (Inr (Some ms), d')"
  shows "\<forall>m \<in> set ms. plain (mi_sender m) \<and> plain (mi_body m) \<and> plain (mi_created m)"
proof
  fix mi assume mi: "mi \<in> set ms"
  from run_tx_Inr[OF assms(3)[unfolded list_room_messages_def]]
  have "select_messages D r n d = Inr (ms, d')"
    by (auto simp: tx_bind_def tx_return_def split: if_splits sum.splits)
  with mi obtain m where "m \<in> set (messages d)" "mi_sender mi = m_sender (snd m)"
    "mi_body mi = m_body (snd m)" "mi_created mi = time_text D (m_created (snd m))"
    by (auto simp: select_messages_def case_prod_beta dest!: in_set_takeD order_by_subset)
  then show "plain (mi_sender mi) \<and> plain (mi_body mi) \<and> plain (mi_created mi)"
    using db_cleanD(4)[OF assms(1)] assms(2) by simp
qed

lemma refresh_clean: "\<forall>q \<in> set (fst (refresh_user D u d)). clean_request q"
  using refresh_requests[of _ D u d] by fastforce

lemma execute_command_clean:
  assumes "db_clean d" and "clean_command c" and "uid = [] \<or> clean uid"
    and t: "\<And>i t. plain (time_text (D i) t)"
  shows "\<forall>q \<in> set (fst (execute_command D c f uid d)). clean_request q"
proof (cases c)
  case (cmd_login u p)
  obtain r d1 where r: "login (D 0) u p d = (r, d1)" by fastforce
  obtain q d2 where q: "load_joined_room_ids (D (Suc 0)) u d1 = (q, d2)" by fastforce
  show ?thesis using assms(2) login_clean[OF assms(1), of "D 0" u p] r
    by (auto simp: cmd_login exec_login_def r q logged_out_def clean_plain clean_command_def
        split: sum.splits option.splits)
next
  case (cmd_say room body)
  then show ?thesis using assms(2)
    by (auto simp: exec_say_def case_prod_beta clean_plain clean_command_def
        split: option.splits sum.splits)
next
  case (cmd_list_friend)
  obtain r d1 where r: "list_friends (D 0) uid d = (r, d1)" by fastforce
  have "\<forall>us. r = Inr us \<longrightarrow> (\<forall>v \<in> set us. clean v)" using list_friends_clean[OF assms(1)] r by blast
  then show ?thesis
    by (cases r) (auto simp: cmd_list_friend exec_list_friend_def r clean_response clean_plain[of "CHR ''n'' # _"]
      clean_plain[of "CHR ''f'' # _"] clean_plain[of "CHR ''l'' # _"])
next
  case (cmd_list_friend_request)
  obtain r d1 where r: "list_friend_requests (D 0) uid d = (r, d1)" by fastforce
  have "\<forall>us. r = Inr us \<longrightarrow> (\<forall>v \<in> set us. plain v)"
    using list_friend_requests_clean[OF assms(1)] clean_imp_plain r by blast
  then show ?thesis
    by (cases r) (auto simp: cmd_list_friend_request exec_list_friend_request_def r clean_plain)
next
  case (cmd_create_room nm)
  obtain r d1 where r: "create_room (D 0) uid nm d = (r, d1)" by fastforce
  obtain q d2 where q: "load_joined_room_ids (D (Suc 0)) uid d1 = (q, d2)" by fastforce
  show ?thesis using assms(2)
    by (auto simp: cmd_create_room exec_create_room_def r q Let_def clean_plain clean_command_def
        split: sum.splits)
next
  case (cmd_delete_room room)
  then show ?thesis
    by (auto simp: exec_delete_room_def Let_def case_prod_beta clean_plain split: option.splits sum.splits)
next
  case (cmd_invite_room room u)
  obtain q where q: "c = cmd_invite_room room u" using cmd_invite_room by blast
  show ?thesis using assms(2) refresh_clean
    by (auto simp: q exec_invite_room_def case_prod_beta Let_def clean_plain clean_command_def
        split: option.splits sum.splits invite_room_result.splits)
next
  case (cmd_leave_room room)
  then show ?thesis using refresh_clean
    by (auto simp: exec_leave_room_def case_prod_beta Let_def clean_plain
        split: option.splits sum.splits leave_room_result.splits)
next
  case (cmd_list_room)
  obtain r d1 where r: "list_rooms (D 0) uid d = (r, d1)" by fastforce
  have "\<forall>rs. r = Inr rs \<longrightarrow> (\<forall>ri \<in> set rs. plain (ri_name ri) \<and> plain (ri_owner ri))"
    using list_rooms_clean[OF assms(1)] r by blast
  then show ?thesis
    by (cases r) (auto simp: cmd_list_room exec_list_room_def r clean_plain)
next
  case (cmd_history room lim)
  show ?thesis
  proof (cases "uid = [] \<or> parse_room_id room = None \<or> parse_limit lim = None")
    case True
    then show ?thesis by (auto simp: cmd_history exec_history_def clean_plain split: option.splits)
  next
    case False
    then obtain i n where i: "parse_room_id room = Some i" "parse_limit lim = Some n" by auto
    obtain r d1 where r: "list_room_messages (D 0) uid i n d = (r, d1)" by fastforce
    have "\<forall>ms. r = Inr (Some ms) \<longrightarrow>
        (\<forall>m \<in> set ms. plain (mi_sender m) \<and> plain (mi_body m) \<and> plain (mi_created m))"
      using list_messages_clean[OF assms(1) t] r by blast
    then show ?thesis using False
      by (cases r) (auto simp: cmd_history exec_history_def i r clean_plain split: option.splits)
  qed
qed (use assms(2) in \<open>auto simp: exec_defs case_prod_beta Let_def clean_plain clean_command_def
    split: option.splits sum.splits\<close>)

lemma main_call_clean:
  assumes "main_call c uid = Some k" and "clean_command c" and "clean uid"
  shows "clean_call k"
  using assms by (cases c) (auto simp: clean_command_def clean_call_def)

lemma execute_command_db_clean:
  assumes "db_clean d" and "clean_command c" and "uid = [] \<or> clean uid"
  shows "db_clean (snd (execute_command D c f uid d))"
proof (cases "uid = []")
  case True
  then have "snd (execute_command D c f uid d) = d \<or> (\<exists>u p. c = cmd_register u p)"
    using execute_command_effect[of D c f uid d]
    by (cases c) (auto simp: exec_defs)
  then show ?thesis
  proof
    assume "\<exists>u p. c = cmd_register u p"
    then obtain u p where c: "c = cmd_register u p" by blast
    have "clean u" using assms(2) by (simp add: c clean_command_def)
    then have "db_clean (db_effect (D 0) (call_signup u p) d)" by (intro db_effect_clean assms(1)) (simp add: clean_call_def)
    then show ?thesis using execute_command_effect[of D c f uid d] assms(1) by (auto simp: c)
  qed (use assms(1) in simp)
next
  case False
  then show ?thesis
    using execute_command_effect[of D c f uid d] db_effect_clean[OF assms(1)] main_call_clean assms
    by metis
qed

lemma execute_command_users:
  "set (keys (users d)) \<subseteq> set (keys (users (snd (execute_command D c f uid d))))"
  using execute_command_effect[of D c f uid d]
proof
  assume "\<exists>k. main_call c uid = Some k \<and> snd (execute_command D c f uid d) = db_effect (D 0) k d"
  then obtain k where "snd (execute_command D c f uid d) = db_effect (D 0) k d" by blast
  then show ?thesis using db_effect_users[of d "D 0" k] by simp
qed simp

subsection \<open>Clean sessions\<close>

text \<open>
  What waits in a send buffer is the end of a sequence of clean commands: the beginning of the
  sequence may have been sent already, also in the middle of a command.
\<close>

definition wire_suffix :: "string \<Rightarrow> bool" where
  "wire_suffix s \<longleftrightarrow> (\<exists>cs. (\<forall>c \<in> set cs. clean_command c) \<and> suffix s (concat (map encode cs)))"

lemma wire_suffix_Nil [simp]: "wire_suffix []"
  unfolding wire_suffix_def by (intro exI[of _ "[]"]) simp

lemma wire_suffix_drop: "wire_suffix s \<Longrightarrow> suffix t s \<Longrightarrow> wire_suffix t"
  unfolding wire_suffix_def using suffix_order.trans by blast

lemma wire_suffix_append:
  assumes "wire_suffix s" and "\<forall>c \<in> set ds. clean_command c"
  shows "wire_suffix (s @ concat (map encode ds))"
proof -
  obtain cs where cs: "\<forall>c \<in> set cs. clean_command c" "suffix s (concat (map encode cs))"
    using assms(1) unfolding wire_suffix_def by blast
  have "suffix (s @ concat (map encode ds)) (concat (map encode (cs @ ds)))"
    using cs(2) by (auto simp: suffix_def)
  then show ?thesis unfolding wire_suffix_def using cs(1) assms(2) by (intro exI[of _ "cs @ ds"]) auto
qed

definition session_clean :: "session \<Rightarrow> bool" where
  "session_clean v \<longleftrightarrow> clean (s_nick v) \<and> (s_user v = [] \<or> clean (s_user v)) \<and> wire_suffix (s_out v)"

definition sess_clean :: "sessions \<Rightarrow> bool" where
  "sess_clean \<sigma> \<longleftrightarrow> (\<forall>f v. \<sigma> f = Some v \<longrightarrow> session_clean v)"

lemma clean_spec_payload:
  assumes "sess_clean \<sigma>" and "clean_command c"
  shows "clean_command (spec_payload f c \<sigma>)"
proof -
  have "clean (spec_nickname f \<sigma>)"
    using assms(1) by (auto simp: spec_nickname_def sess_clean_def session_clean_def split: option.splits)
  then show ?thesis using assms(2) by (cases c) (simp_all add: spec_payload_def clean_plain)
qed

lemma clean_deliver:
  assumes "sess_clean \<sigma>" and "\<And>h. \<exists>cs. (\<forall>c \<in> set cs. clean_command c) \<and> out h = concat (map encode cs)"
  shows "sess_clean (deliver_to out \<sigma>)"
  unfolding sess_clean_def
proof (intro allI impI)
  fix f v assume "deliver_to out \<sigma> f = Some v"
  then obtain w where w: "\<sigma> f = Some w" "v = w\<lparr>s_out := s_out w @ out f\<rparr>"
    by (auto simp: deliver_to_def)
  obtain cs where "\<forall>c \<in> set cs. clean_command c" "out f = concat (map encode cs)" using assms(2) by blast
  then show "session_clean v"
    using assms(1) w wire_suffix_append[of "s_out w" cs] by (simp add: sess_clean_def session_clean_def)
qed

lemma one_command: "clean_command c \<Longrightarrow>
    \<exists>cs. (\<forall>c \<in> set cs. clean_command c) \<and> encode c = concat (map encode cs)"
  by (intro exI[of _ "[c]"]) simp

lemma no_command: "\<exists>cs. (\<forall>c \<in> set cs. clean_command c) \<and> [] = concat (map encode cs)"
  by (intro exI[of _ "[]"]) simp

lemma friend_list_commands:
  assumes "\<forall>u \<in> set us. clean u"
  shows "\<exists>cs. (\<forall>c \<in> set cs. clean_command c) \<and> friend_list_text \<sigma> us = concat (map encode cs)"
proof (intro exI conjI)
  let ?cs = "cmd_response (''friends: '' @ to_string (int (length us))) # map (friend_text \<sigma>) us"
  show "\<forall>c \<in> set ?cs. clean_command c" using assms by (auto simp: friend_text_def clean_plain)
  show "friend_list_text \<sigma> us = concat (map encode ?cs)" by (simp add: friend_list_text_def o_def)
qed

lemma fresh_session_clean: "session_clean fresh_session"
  by (simp add: session_clean_def fresh_session_def clean_def wire_suffix_def) (intro exI[of _ "[]"], simp)

lemma sess_cleanD: "sess_clean \<sigma> \<Longrightarrow> \<sigma> f = Some v \<Longrightarrow> session_clean v"
  by (simp add: sess_clean_def)

lemma sess_clean_upd:
  assumes "sess_clean \<sigma>" and "\<And>v. session_clean v \<Longrightarrow> session_clean (g v)"
  shows "sess_clean (\<sigma>(f := map_option g (\<sigma> f)))"
  unfolding sess_clean_def
proof (intro allI impI)
  fix h v assume h: "(\<sigma>(f := map_option g (\<sigma> f))) h = Some v"
  show "session_clean v"
  proof (cases "h = f")
    case True
    then obtain w where "\<sigma> f = Some w" "v = g w" using h by auto
    then show ?thesis using assms(2) sess_cleanD[OF assms(1)] by blast
  next
    case False
    then show ?thesis using h sess_cleanD[OF assms(1)] by simp
  qed
qed

lemma spec_step_clean:
  assumes "spec_step c \<sigma> \<sigma>'" and "clean_request c" and "sess_clean \<sigma>"
  shows "sess_clean \<sigma>'"
proof (cases c)
  case (register_command f i)
  then have "\<sigma>' = \<sigma> \<or> \<sigma>' = \<sigma>(f \<mapsto> fresh_session)" using assms(1) by auto
  then show ?thesis using assms(3) fresh_session_clean
    by (auto simp: sess_clean_def split: if_splits)
next
  case (unregister_command f)
  then show ?thesis using assms by (auto simp: sess_clean_def)
next
  case (send_one_command f m)
  have "\<sigma>' = deliver_to (\<lambda>h. if h = f then encode m else []) \<sigma>" "clean_command m"
    using assms(1,2) send_one_command by simp_all
  then show ?thesis using clean_deliver[OF assms(3)] one_command no_command by simp
next
  case (broadcast_command f m)
  have "\<sigma>' = deliver_to (\<lambda>h. encode (spec_payload f m \<sigma>)) \<sigma>" "clean_command m"
    using assms(1,2) broadcast_command by simp_all
  then show ?thesis using clean_deliver[OF assms(3)] one_command clean_spec_payload[OF assms(3)] by simp
next
  case (change_nickname_command f nk)
  have "\<sigma>' = \<sigma>(f := map_option (\<lambda>v. v\<lparr>s_nick := nk\<rparr>) (\<sigma> f))" "clean nk"
    using assms(1,2) change_nickname_command by simp_all
  then show ?thesis by (auto intro!: sess_clean_upd[OF assms(3)] simp: session_clean_def)
next
  case (set_user_id_command f u)
  have "\<sigma>' = \<sigma>(f := map_option (\<lambda>v. v\<lparr>s_user := u, s_rooms := {}\<rparr>) (\<sigma> f))" "u = [] \<or> clean u"
    using assms(1,2) set_user_id_command by simp_all
  then show ?thesis by (auto intro!: sess_clean_upd[OF assms(3)] simp: session_clean_def)
next
  case (set_joined_rooms_command f rs)
  have "\<sigma>' = \<sigma>(f := map_option (\<lambda>v. v\<lparr>s_rooms := positive_rooms rs\<rparr>) (\<sigma> f))"
    using assms(1) set_joined_rooms_command by simp
  then show ?thesis by (auto intro!: sess_clean_upd[OF assms(3)] simp: session_clean_def)
next
  case (set_joined_rooms_for_user_command u rs)
  let ?g = "\<lambda>v. if u \<noteq> [] \<and> s_user v = u then v\<lparr>s_rooms := positive_rooms rs\<rparr> else v"
  have "\<sigma>' = (\<lambda>h. map_option ?g (\<sigma> h))"
    using assms(1) set_joined_rooms_for_user_command by simp
  moreover have "session_clean v \<Longrightarrow> session_clean (?g v)" for v by (auto simp: session_clean_def)
  ultimately show ?thesis using sess_cleanD[OF assms(3)] by (auto simp only: sess_clean_def map_option_eq_Some)
next
  case (send_friend_list_command f us)
  have "\<sigma>' = deliver_to (\<lambda>h. if h = f then friend_list_text \<sigma> us else []) \<sigma>" "\<forall>u \<in> set us. clean u"
    using assms(1,2) send_friend_list_command by simp_all
  then show ?thesis using clean_deliver[OF assms(3)] friend_list_commands no_command by simp
next
  case (room_broadcast_command f r m)
  have "\<sigma>' = deliver_to (\<lambda>h. if (\<exists>v. \<sigma> h = Some v \<and> r \<in> s_rooms v)
      then encode (spec_payload f m \<sigma>) else []) \<sigma>" "clean_command m"
    using assms(1,2) room_broadcast_command by simp_all
  then show ?thesis using clean_deliver[OF assms(3)] one_command no_command clean_spec_payload[OF assms(3)] by simp
qed

lemma spec_run_clean:
  "spec_run cs \<sigma> \<sigma>' \<Longrightarrow> \<forall>c \<in> set cs. clean_request c \<Longrightarrow> sess_clean \<sigma> \<Longrightarrow> sess_clean \<sigma>'"
  by (induction cs arbitrary: \<sigma>) (auto intro: spec_step_clean)

end
