(* ===== verification/Session_Step.thy ===== *)
theory Session_Step
  imports Epoll_Server Wire_Clean
begin

section \<open>What the event handlers do to a session\<close>

text \<open>
  Every handler of \<open>server/epoll_server\<close> changes the registry only by a \<open>session_step\<close>: the entry of
  its own session is replaced by one of the same identity, requests (never registrations) are
  appended to the queue, and a session that becomes closed has its removal requested. The lemmas
  also say that the handlers return, and that they keep a session \<open>armed\<close>: unless it is closed,
  output that is waiting has \<open>EPOLLOUT\<close> in the session's interest. The last part is the exact
  effect of the loop that executes the received lines.
\<close>

unbundle bit_operations_syntax

lemma map_put_same: "map_of m k = Some v \<Longrightarrow> map_put k v m = m"
  by (induction m) (auto simp: map_put_def)

lemma map_put_twice: "map_put k v (map_put k w m) = map_put k v m"
  by (induction m) (auto simp: map_put_def)

subsection \<open>What a handler may do to its session\<close>

definition same_session :: "'s socket_info \<Rightarrow> 's socket_info \<Rightarrow> bool" where
  "same_session si si' \<longleftrightarrow>
     ufd si' = ufd si \<and> user_id si' = user_id si \<and> nickname si' = nickname si \<and>
     joined_room_ids si' = joined_room_ids si \<and> ep si' = ep si \<and>
     (buf_ok (recv si) \<longrightarrow> buf_ok (recv si')) \<and> (buf_ok (send si) \<longrightarrow> buf_ok (send si')) \<and>
     (is_closed si \<longrightarrow> is_closed si') \<and> suffix (pending (send si')) (pending (send si))"

lemma same_session_refl [simp]: "same_session si si"
  by (simp add: same_session_def)

lemma same_session_trans: "same_session a b \<Longrightarrow> same_session b c \<Longrightarrow> same_session a c"
  unfolding same_session_def using suffix_order.trans by auto

lemma same_session_upd [simp]:
  "same_session a (si\<lparr>tls := t\<rparr>) = same_session a si"
  "same_session a (si\<lparr>interest := i\<rparr>) = same_session a si"
  "same_session a si \<Longrightarrow> same_session a (si\<lparr>is_closed := True\<rparr>)"
  by (simp_all add: same_session_def)

definition armed_socket :: "'s socket_info \<Rightarrow> bool" where
  "armed_socket si \<longleftrightarrow>
     is_closed si \<or> pending (send si) = [] \<or> interest si AND EPOLLOUT \<noteq> 0"

definition armed_at :: "fd \<Rightarrow> ('k, 's) registry \<Rightarrow> bool" where
  "armed_at f R \<longleftrightarrow> (\<forall>si. info R f = Some si \<longrightarrow> armed_socket si)"

definition same_server :: "('k \<Rightarrow> fd set) \<Rightarrow> ('k, 's) registry \<Rightarrow> ('k, 's) registry \<Rightarrow> bool" where
  "same_server reg R R' \<longleftrightarrow>
     room_online_fds R' = room_online_fds R \<and> user_online_fds R' = user_online_fds R \<and>
     connected_client_count R' = connected_client_count R \<and> epfd R' = epfd R \<and>
     wake_fd R' = wake_fd R \<and> tls_ctx_is_server R' = tls_ctx_is_server R \<and>
     reg (kst R') = reg (kst R)"

text \<open>What a handler may ask of the registry: a reply to its own client, or the end of its session.\<close>

fun handler_request :: "fd \<Rightarrow> reg_command \<Rightarrow> bool" where
  "handler_request f (send_one_command g c) \<longleftrightarrow> g = f \<and> clean_command c"
| "handler_request f (unregister_command g) \<longleftrightarrow> g = f"
| "handler_request f _ \<longleftrightarrow> False"

definition session_step ::
  "('k \<Rightarrow> fd set) \<Rightarrow> fd \<Rightarrow> ('k, 's) registry \<Rightarrow> ('k, 's) registry \<Rightarrow> bool" where
  "session_step reg f R R' \<longleftrightarrow> same_server reg R R' \<and>
     (\<exists>si si' qs. info R f = Some si \<and> infos R' = map_put f si' (infos R) \<and> same_session si si' \<and>
        cmd_q R' = cmd_q R @ qs \<and> reg_fds qs = [] \<and> (\<forall>q \<in> set qs. handler_request f q) \<and>
        (is_closed si' \<longrightarrow> is_closed si \<or> unregister_command f \<in> set qs))"

lemma session_stepI:
  assumes "same_server reg R R'" and "info R f = Some si" and "infos R' = map_put f si' (infos R)"
    and "same_session si si'" and "cmd_q R' = cmd_q R @ qs" and "reg_fds qs = []"
    and "\<forall>q \<in> set qs. handler_request f q"
    and "is_closed si' \<longrightarrow> is_closed si \<or> unregister_command f \<in> set qs"
  shows "session_step reg f R R'"
  unfolding session_step_def using assms by blast

lemma session_stepE:
  assumes "session_step reg f R R'"
  obtains si si' qs where "same_server reg R R'" and "info R f = Some si"
    and "infos R' = map_put f si' (infos R)" and "same_session si si'" and "cmd_q R' = cmd_q R @ qs"
    and "reg_fds qs = []" and "\<forall>q \<in> set qs. handler_request f q"
    and "is_closed si' \<longrightarrow> is_closed si \<or> unregister_command f \<in> set qs"
  using assms unfolding session_step_def by blast

lemma same_server_trans: "same_server reg R R1 \<Longrightarrow> same_server reg R1 R2 \<Longrightarrow> same_server reg R R2"
  by (simp add: same_server_def)

lemma reg_fds_append [simp]: "reg_fds (xs @ ys) = reg_fds xs @ reg_fds ys"
  by (induction xs rule: reg_fds.induct) auto

lemma session_step_refl: "info R f = Some si \<Longrightarrow> session_step reg f R R"
  by (rule session_stepI[where si = si and si' = si and qs = "[]"])
     (simp_all add: map_put_same same_server_def)

lemma session_step_trans:
  assumes "session_step reg f R R1" and "session_step reg f R1 R2"
  shows "session_step reg f R R2"
proof -
  from assms(1) obtain si si1 qs1 where a: "same_server reg R R1" "info R f = Some si"
    "infos R1 = map_put f si1 (infos R)" "same_session si si1" "cmd_q R1 = cmd_q R @ qs1"
    "reg_fds qs1 = []" "\<forall>q \<in> set qs1. handler_request f q" "is_closed si1 \<longrightarrow> is_closed si \<or> unregister_command f \<in> set qs1"
    by (rule session_stepE)
  from assms(2) obtain si1' si2 qs2 where b: "same_server reg R1 R2" "info R1 f = Some si1'"
    "infos R2 = map_put f si2 (infos R1)" "same_session si1' si2" "cmd_q R2 = cmd_q R1 @ qs2"
    "reg_fds qs2 = []" "\<forall>q \<in> set qs2. handler_request f q" "is_closed si2 \<longrightarrow> is_closed si1' \<or> unregister_command f \<in> set qs2"
    by (rule session_stepE)
  have eq: "si1' = si1" using a(3) b(2) by simp
  show ?thesis
  proof (rule session_stepI[where si = si and si' = si2 and qs = "qs1 @ qs2"])
    show "same_server reg R R2" by (rule same_server_trans[OF a(1) b(1)])
    show "info R f = Some si" by (rule a(2))
    show "infos R2 = map_put f si2 (infos R)" by (simp add: b(3) a(3) map_put_twice)
    show "same_session si si2" using same_session_trans[OF a(4)] b(4) eq by blast
    show "cmd_q R2 = cmd_q R @ qs1 @ qs2" by (simp add: b(5) a(5))
    show "reg_fds (qs1 @ qs2) = []" by (simp add: a(6) b(6))
    show "\<forall>q \<in> set (qs1 @ qs2). handler_request f q" using a(7) b(7) by auto
    show "is_closed si2 \<longrightarrow> is_closed si \<or> unregister_command f \<in> set (qs1 @ qs2)"
      using a(8) b(8) eq by auto
  qed
qed

lemma session_step_info:
  assumes "session_step reg f R R'"
  obtains si' where "info R' f = Some si'"
  using assms by (auto elim: session_stepE)

lemma session_step_other: "session_step reg f R R' \<Longrightarrow> g \<noteq> f \<Longrightarrow> info R' g = info R g"
  by (auto elim: session_stepE)

lemma session_step_keys: "session_step reg f R R' \<Longrightarrow> keys (infos R') = keys (infos R)"
  by (erule session_stepE) (simp add: map_of_in_keys)

lemma session_step_reg_ok:
  assumes "session_step reg f R R'" and "reg_ok R"
  shows "reg_ok R'"
proof -
  from assms(1) obtain si si' qs where a: "same_server reg R R'" "info R f = Some si"
    "infos R' = map_put f si' (infos R)" "same_session si si'" "cmd_q R' = cmd_q R @ qs"
    by (rule session_stepE)
  have ok: "socket_ok f si" by (rule reg_ok_socket[OF assms(2) a(2)])
  have same: "joined_room_ids si' = joined_room_ids si" "user_id si' = user_id si"
    using a(4) by (simp_all add: same_session_def)
  have "socket_ok f si'" using ok a(4) by (simp add: socket_ok_def same_session_def)
  then have "reg_ok (put_info f si' R)" using reg_ok_put_info[OF assms(2) a(2)] same by simp
  then show ?thesis using a(1,3) by (simp add: reg_ok_def same_server_def)
qed

lemma session_step_good:
  assumes "session_step reg f R R'" and "good reg R"
  shows "good reg R'"
proof -
  have "same_server reg R R'" using assms(1) by (auto elim: session_stepE)
  then show ?thesis
    using session_step_reg_ok[OF assms(1)] session_step_keys[OF assms(1)] assms(2)
    by (simp add: good_def same_server_def)
qed

lemma session_step_put:
  assumes "info R f = Some si" and "same_session si si'" and "is_closed si' = is_closed si"
    and "reg k = reg (kst R)"
  shows "session_step reg f R (put_info f si' (R\<lparr>kst := k\<rparr>))"
  by (rule session_stepI[OF _ assms(1) _ assms(2), where qs = "[]"])
     (simp_all add: same_server_def assms(3,4))

lemma session_step_put':
  assumes "info R f = Some si" and "same_session si si'" and "is_closed si' = is_closed si"
  shows "session_step reg f R (put_info f si' R)"
  by (rule session_stepI[OF _ assms(1) _ assms(2), where qs = "[]"])
     (simp_all add: same_server_def assms(3))

subsection \<open>Every handler is such a step\<close>

lemma or_and_EPOLLOUT: "(x OR EPOLLOUT) AND EPOLLOUT \<noteq> 0"
proof -
  have "(x OR EPOLLOUT) AND EPOLLOUT = EPOLLOUT" by (rule bit_eqI) (auto simp: bit_simps)
  then show ?thesis by (simp add: EPOLLOUT_def)
qed

lemma contract_mod: "epoll_contract E e reg \<Longrightarrow> reg (snd (k_epoll_mod E e f i k)) = reg k"
  by (simp add: epoll_contract_def)

lemma contract_wakeup: "epoll_contract E e reg \<Longrightarrow> reg (request_wakeup E w k) = reg k"
  by (simp add: epoll_contract_def request_wakeup_def)

lemma contract_so_error: "epoll_contract E e reg \<Longrightarrow> reg (snd (k_so_error E f k)) = reg k"
  by (simp add: epoll_contract_def)

lemma update_interest_eq:
  "update_interest E e si i k =
     (fst (lift_errno (k_epoll_mod E e (ufd si) i k)), si\<lparr>interest := i\<rparr>, snd (k_epoll_mod E e (ufd si) i k))"
  by (simp add: update_interest_def lift_errno_def Let_def split: prod.splits sum.splits)

lemma update_interest_reg:
  assumes "epoll_contract E e reg" and "update_interest E e si i k = (res, si1, k1)"
  shows "si1 = si\<lparr>interest := i\<rparr>" and "reg k1 = reg k"
  using assms(2) contract_mod[OF assms(1), of "ufd si" i k] by (auto simp: update_interest_eq)

lemma sync_tls_interest_step:
  assumes "epoll_contract E (epfd R) reg" and "info R f = Some si"
  shows "\<exists>res R'. sync_tls_interest E f R = Some (res, R') \<and> session_step reg f R R' \<and>
    (res = Inr () \<longrightarrow> armed_at f R')"
proof -
  let ?on = "has_pending (send si) \<or> needs_write (tls si)"
  let ?i = "if ?on then interest si OR EPOLLOUT else interest si AND NOT EPOLLOUT"
  have armed: "armed_socket (si\<lparr>interest := ?i\<rparr>)"
    using or_and_EPOLLOUT[of "interest si"] by (auto simp: armed_socket_def has_pending_iff)
  show ?thesis
  proof (cases "?i = interest si")
    case True
    then have "si\<lparr>interest := ?i\<rparr> = si" by simp
    then have "armed_socket si" using armed by metis
    then have "armed_at f R" by (simp add: armed_at_def assms(2))
    moreover have "sync_tls_interest E f R = Some (Inr (), R)"
      using True unfolding sync_tls_interest_def assms(2) by simp
    ultimately show ?thesis using session_step_refl[OF assms(2)] by blast
  next
    case False
    obtain res si1 k1 where u: "update_interest E (epfd R) si ?i (kst R) = (res, si1, k1)"
      by (metis prod.exhaust)
    note u' = update_interest_reg[OF assms(1) u]
    have eq: "sync_tls_interest E f R = Some (res, put_info f si1 (R\<lparr>kst := k1\<rparr>))"
      using False u unfolding sync_tls_interest_def assms(2) by simp
    have "session_step reg f R (put_info f si1 (R\<lparr>kst := k1\<rparr>))"
      by (rule session_step_put[OF assms(2)]) (simp_all add: u')
    moreover have "armed_at f (put_info f si1 (R\<lparr>kst := k1\<rparr>))"
      using armed by (simp add: armed_at_def u'(1))
    ultimately show ?thesis using eq by blast
  qed
qed

lemma handle_disconnect_step:
  assumes "epoll_contract E (epfd R) reg" and "reg_ok R" and "info R f = Some si"
  shows "\<exists>R'. handle_disconnect E f R = Some R' \<and> session_step reg f R R' \<and> armed_at f R'"
proof (cases "is_closed si")
  case True
  then show ?thesis using session_step_refl[OF assms(3)]
    by (simp add: handle_disconnect_def assms(3) armed_at_def armed_socket_def)
next
  case False
  let ?si = "si\<lparr>is_closed := True\<rparr>"
  let ?R = "request_unregister E (ufd si) (put_info f ?si R)"
  have own: "ufd si = f" using reg_ok_ufd[OF assms(2,3)] by blast
  have "handle_disconnect E f R = Some ?R"
    using False by (simp add: handle_disconnect_def assms(3) Let_def)
  moreover have "session_step reg f R ?R"
    by (rule session_stepI[OF _ assms(3), where si' = ?si and qs = "[unregister_command f]"])
       (simp_all add: same_server_def request_unregister_def request_def own contract_wakeup[OF assms(1)])
  moreover have "armed_at f ?R" by (simp add: armed_at_def armed_socket_def request_unregister_def)
  ultimately show ?thesis by blast
qed

lemma session_step_contract:
  "session_step reg f R R1 \<Longrightarrow> epoll_contract E (epfd R) reg \<Longrightarrow> epoll_contract E (epfd R1) reg"
  by (auto elim: session_stepE simp: same_server_def)

text \<open>Closing after something was done to the session.\<close>

lemma then_disconnect:
  assumes "session_step reg f R R1" and "epoll_contract E (epfd R) reg" and "reg_ok R"
  shows "\<exists>R'. handle_disconnect E f R1 = Some R' \<and> session_step reg f R R' \<and> armed_at f R'"
proof -
  obtain si1 where "info R1 f = Some si1" by (rule session_step_info[OF assms(1)])
  from handle_disconnect_step[OF session_step_contract[OF assms(1,2)] session_step_reg_ok[OF assms(1,3)] this]
  show ?thesis using session_step_trans[OF assms(1)] by blast
qed

lemma then_close:
  assumes "session_step reg f R R1" and "epoll_contract E (epfd R) reg" and "reg_ok R"
  shows "\<exists>R'. handle_close E f R1 = Some R' \<and> session_step reg f R R' \<and> armed_at f R'"
proof -
  obtain si where si: "info R1 f = Some si" by (rule session_step_info[OF assms(1)])
  show ?thesis
  proof (cases "is_closed si")
    case True
    then show ?thesis using assms(1) by (simp add: handle_close_def si armed_at_def armed_socket_def)
  next
    case False
    let ?si = "if is_handshake_done (tls si) \<and> \<not> tls_is_closed (tls si)
        then si\<lparr>tls := snd (tls_shutdown (lib E) (tls si))\<rparr> else si"
    have eq: "handle_close E f R1 = handle_disconnect E f (put_info f ?si R1)"
      using False by (simp add: handle_close_def si Let_def)
    have "session_step reg f R1 (put_info f ?si R1)"
      by (rule session_step_put'[OF si]) simp_all
    from then_disconnect[OF session_step_trans[OF assms(1) this] assms(2,3)] show ?thesis
      by (simp only: eq)
  qed
qed

lemma then_sync:
  assumes "session_step reg f R R1" and "epoll_contract E (epfd R) reg"
  obtains res R2 where "sync_tls_interest E f R1 = Some (res, R2)" and "session_step reg f R R2"
    and "res = Inr () \<longrightarrow> armed_at f R2"
proof -
  obtain si where si: "info R1 f = Some si" by (rule session_step_info[OF assms(1)])
  from sync_tls_interest_step[OF session_step_contract[OF assms] si] session_step_trans[OF assms(1)]
  show ?thesis using that by blast
qed

lemma progress_step:
  assumes "epoll_contract E (epfd R) reg" and "reg_ok R" and "info R f = Some si"
  shows "\<exists>res R'. progress_tls_handshake E f R = Some (res, R') \<and> session_step reg f R R' \<and>
    (armed_at f R \<longrightarrow> armed_at f R')"
proof (cases "ssl (tls si) = None \<or> is_handshake_done (tls si)")
  case True
  then show ?thesis using session_step_refl[OF assms(3)]
    by (auto simp: progress_tls_handshake_def assms(3))
next
  case False
  then obtain x where x: "ssl (tls si) = Some x" "\<not> handshake_done (tls si)" by auto
  obtain hs t where h: "handshake (lib E) (tls si) = (hs, t)" by (metis prod.exhaust)
  let ?R1 = "put_info f (si\<lparr>tls := t\<rparr>) R"
  have s1: "session_step reg f R ?R1" by (rule session_step_put'[OF assms(3)]) simp_all
  have eq: "progress_tls_handshake E f R =
      (case hs of
         Inl e \<Rightarrow> do { R2 \<leftarrow> handle_disconnect E f ?R1; Some (Inl e, R2) }
       | Inr io \<Rightarrow>
           if closed io then do { R2 \<leftarrow> handle_close E f ?R1; Some (Inl (from_errno ECONNRESET), R2) }
           else do {
             (sync_exp, R2) \<leftarrow> sync_tls_interest E f ?R1;
             case sync_exp of
               Inl e \<Rightarrow> do { R3 \<leftarrow> handle_disconnect E f R2; Some (Inl e, R3) }
             | Inr _ \<Rightarrow> Some (Inr (), R2)
           })"
    by (simp add: progress_tls_handshake_def assms(3) x h Let_def)
  obtain Rd where d: "handle_disconnect E f ?R1 = Some Rd" "session_step reg f R Rd" "armed_at f Rd"
    using then_disconnect[OF s1 assms(1,2)] by blast
  obtain Rc where c: "handle_close E f ?R1 = Some Rc" "session_step reg f R Rc" "armed_at f Rc"
    using then_close[OF s1 assms(1,2)] by blast
  obtain res R2 where y: "sync_tls_interest E f ?R1 = Some (res, R2)" "session_step reg f R R2"
    "res = Inr () \<longrightarrow> armed_at f R2"
    by (rule then_sync[OF s1 assms(1)])
  obtain Rs where s: "handle_disconnect E f R2 = Some Rs" "session_step reg f R Rs" "armed_at f Rs"
    using then_disconnect[OF y(2) assms(1,2)] by blast
  show ?thesis
  proof (cases hs)
    case (Inl e)
    then show ?thesis using d by (simp add: eq)
  next
    case (Inr io)
    show ?thesis
    proof (cases res)
      case (Inl e)
      then show ?thesis using Inr y c s by (cases "closed io") (simp_all add: eq)
    next
      case inr: (Inr u)
      then show ?thesis using Inr y c s by (cases "closed io") (simp_all add: eq)
    qed
  qed
qed

text \<open>What OpenSSL promises about the data it moves, for the handlers that move any.\<close>

definition transfer_ok :: "'s openssl \<Rightarrow> ('s \<Rightarrow> string) \<Rightarrow> ('s \<Rightarrow> string) \<Rightarrow> ('s \<Rightarrow> nat) \<Rightarrow> bool" where
  "transfer_ok L sent got left \<longleftrightarrow> write_contract L sent \<and> read_contract L got \<and> read_progress L left"

lemma flush_loop_keeps:
  "flush_loop L n si = (res, si') \<Longrightarrow>
     ufd si' = ufd si \<and> user_id si' = user_id si \<and> nickname si' = nickname si \<and>
     joined_room_ids si' = joined_room_ids si \<and> ep si' = ep si \<and> recv si' = recv si \<and>
     is_closed si' = is_closed si \<and> suffix (pending (send si')) (pending (send si))"
proof (induction L n si arbitrary: res si' rule: flush_loop.induct)
  case (1 L n si)
  show ?case
  proof (cases "has_pending (send si)")
    case False
    then show ?thesis using 1(2) by (auto simp: flush_loop.simps[of L n si])
  next
    case hp: True
    obtain wres t where w: "tls_write L (take (remaining (send si)) (current_data (send si))) (tls si) = (wres, t)"
      by (metis prod.exhaust)
    show ?thesis
    proof (cases wres)
      case (Inl e)
      then show ?thesis using 1(2) hp w by (auto simp: flush_loop.simps[of L n si])
    next
      case (Inr wr)
      let ?si1 = "si\<lparr>tls := t\<rparr>"
      let ?si2 = "if io_byte wr > 0 then ?si1\<lparr>send := advance (io_byte wr) (send ?si1)\<rparr> else ?si1"
      let ?n = "if io_byte wr > 0 then n + io_byte wr else n"
      have step: "flush_loop L n si =
          (if closed wr then (Inl (from_errno EPIPE), ?si2)
           else if io_want_read wr \<or> io_want_write wr
           then (Inr ?n, ?si2\<lparr>send := snd (compact_if_needed (send ?si2))\<rparr>)
           else if io_byte wr = 0 then (Inl (from_tls protocol_error), ?si2)
           else flush_loop L ?n ?si2)"
        using hp w Inr by (simp only: flush_loop.simps[of L n si] Let_def split: prod.split) simp
      have drop: "suffix (pending (send ?si2)) (pending (send si))" by (simp add: suffix_drop)
      show ?thesis
      proof (cases "closed wr \<or> io_want_read wr \<or> io_want_write wr \<or> io_byte wr = 0")
        case True
        then show ?thesis using 1(2) step drop by (auto split: if_splits)
      next
        case False
        then have "flush_loop L ?n ?si2 = (res, si')" using 1(2) step by simp
        from 1(1)[OF _ w[symmetric] Inr refl refl refl _ _ _ this] hp False drop show ?thesis
          using suffix_order.trans by fastforce
      qed
    qed
  qed
qed

lemma flush_send_same:
  assumes "write_contract L sent" and "buf_ok (send si)" and "flush_send L si = (res, si')"
  shows "same_session si si'" and "is_closed si' = is_closed si"
proof -
  have "(ssl (tls si) = None \<and> si' = si) \<or> (\<exists>s. ssl (tls si) = Some s \<and> flush_loop L 0 si = (res, si'))"
    using assms(3) by (auto simp: flush_send_def split: if_splits)
  then have *: "same_session si si' \<and> is_closed si' = is_closed si"
  proof
    assume "\<exists>s. ssl (tls si) = Some s \<and> flush_loop L 0 si = (res, si')"
    then obtain s where s: "ssl (tls si) = Some s" and l: "flush_loop L 0 si = (res, si')" by blast
    obtain s' where "buf_ok (send si')" using flush_loop_exact[OF assms(1,2) s l] by blast
    then show ?thesis using flush_loop_keeps[OF l] by (simp add: same_session_def)
  qed simp
  then show "same_session si si'" and "is_closed si' = is_closed si" by blast+
qed

definition keeps_identity :: "'s socket_info \<Rightarrow> 's socket_info \<Rightarrow> bool" where
  "keeps_identity si si' \<longleftrightarrow>
     ufd si' = ufd si \<and> user_id si' = user_id si \<and> nickname si' = nickname si \<and>
     joined_room_ids si' = joined_room_ids si \<and> ep si' = ep si \<and> send si' = send si \<and>
     is_closed si' = is_closed si"

lemma drain_loop_keeps:
  fixes si :: "'s socket_info"
  assumes ret: "drain_loop L ret si = Some out"
  shows "keeps_identity si (snd out)"
proof -
  define P :: "'s openssl \<Rightarrow> recv_info \<Rightarrow> 's socket_info \<Rightarrow>
      ((error_code + recv_info) \<times> 's socket_info) \<Rightarrow> bool"
    where "P L ret si out \<longleftrightarrow> keeps_identity si (snd out)" for L ret si out
  have "P L ret si out"
  proof (rule drain_loop.raw_induct[where P = P, OF _ ret])
    fix f L ret si out
    assume IH: "\<And>L ret si out. f L ret si = Some out \<Longrightarrow> P L ret si out"
      and eq: "(let (res, tmp, t) = tls_read L BUF_SIZE (tls si); si1 = si\<lparr>tls := t\<rparr> in
        case res of
          Inl e \<Rightarrow> Some (Inl e, si1)
        | Inr rd \<Rightarrow>
            if io_byte rd > 0 then
              (let si2 = si1\<lparr>recv := recv_append (take (io_byte rd) tmp) (recv si1)\<rparr>;
                   ret2 = ret\<lparr>ri_byte := ri_byte ret + io_byte rd\<rparr>
               in if io_want_read rd \<or> io_want_write rd then Some (Inr ret2, si2)
                  else f L ret2 si2)
            else if closed rd then Some (Inr (ret\<lparr>ri_closed := True\<rparr>), si1)
            else Some (Inr ret, si1)) = Some out"
    obtain rres tmp t where rd: "tls_read L BUF_SIZE (tls si) = (rres, tmp, t)" by (metis prod.exhaust)
    show "P L ret si out"
    proof (cases "\<exists>io. rres = Inr io \<and> 0 < io_byte io \<and> \<not> io_want_read io \<and> \<not> io_want_write io")
      case True
      then obtain io where io: "rres = Inr io" "0 < io_byte io" "\<not> io_want_read io" "\<not> io_want_write io"
        by blast
      let ?si2 = "si\<lparr>tls := t, recv := recv_append (take (io_byte io) tmp) (recv si)\<rparr>"
      have "f L (ret\<lparr>ri_byte := ri_byte ret + io_byte io\<rparr>) ?si2 = Some out"
        using eq io by (simp add: rd Let_def)
      then have "P L (ret\<lparr>ri_byte := ri_byte ret + io_byte io\<rparr>) ?si2 out" by (rule IH)
      then show ?thesis by (simp add: P_def keeps_identity_def)
    next
      case False
      then show ?thesis using eq
        by (auto simp: rd Let_def P_def keeps_identity_def split: sum.splits if_splits)
    qed
  qed
  then show ?thesis by (simp add: P_def)
qed

lemma drain_recv_step:
  assumes "transfer_ok L sent got left" and "buf_ok (recv si)"
  shows "\<exists>res si'. drain_recv L si = Some (res, si') \<and> same_session si si' \<and>
    is_closed si' = is_closed si \<and> send si' = send si"
proof (cases "ssl (tls si)")
  case None
  then show ?thesis by (simp add: drain_recv_def)
next
  case (Some s)
  have c: "read_contract L got" "read_progress L left"
    using assms(1) by (simp_all add: transfer_ok_def)
  let ?ret = "\<lparr>ri_byte = 0, ri_closed = False\<rparr>"
  obtain res si' where out: "drain_loop L ?ret si = Some (res, si')"
    using drain_loop_total[OF c Some, of ?ret] by auto
  have "keeps_identity si si'" using drain_loop_keeps[OF out] by simp
  moreover have "buf_ok (recv si')"
    using drain_loop_exact[OF out c(1) assms(2)] Some by (auto simp: received_def)
  ultimately show ?thesis using out Some
    by (simp add: drain_recv_def same_session_def keeps_identity_def)
qed

lemma handle_send_step:
  assumes "epoll_contract E (epfd R) reg" and "transfer_ok (lib E) sent got left"
    and "reg_ok R" and "info R f = Some si"
  shows "\<exists>R'. handle_send E f R = Some R' \<and> session_step reg f R R' \<and> (armed_at f R \<longrightarrow> armed_at f R')"
proof -
  obtain hs R1 where h: "progress_tls_handshake E f R = Some (hs, R1)" "session_step reg f R R1"
    "armed_at f R \<longrightarrow> armed_at f R1"
    using progress_step[OF assms(1,3,4)] by blast
  obtain si1 where i: "info R1 f = Some si1" by (rule session_step_info[OF h(2)])
  obtain fs si2 where fl: "flush_send (lib E) si1 = (fs, si2)" by (metis prod.exhaust)
  have "buf_ok (send si1)"
    using reg_ok_socket[OF session_step_reg_ok[OF h(2) assms(3)] i] by (simp add: socket_ok_def)
  note same = flush_send_same[OF _ this fl]
  have w: "write_contract (lib E) sent" using assms(2) by (simp add: transfer_ok_def)
  let ?R2 = "put_info f si2 R1"
  have s2: "session_step reg f R ?R2"
    using session_step_trans[OF h(2)] session_step_put'[OF i] same[OF w] by blast
  obtain Rd where d: "handle_disconnect E f ?R2 = Some Rd" "session_step reg f R Rd" "armed_at f Rd"
    using then_disconnect[OF s2 assms(1,3)] by blast
  obtain res R3 where y: "sync_tls_interest E f ?R2 = Some (res, R3)" "session_step reg f R R3"
    "res = Inr () \<longrightarrow> armed_at f R3"
    by (rule then_sync[OF s2 assms(1)])
  obtain Rs where s: "handle_disconnect E f R3 = Some Rs" "session_step reg f R Rs" "armed_at f Rs"
    using then_disconnect[OF y(2) assms(1,3)] by blast
  show ?thesis
  proof (cases "isl hs \<or> tls_waiting f R1")
    case True
    then show ?thesis using h by (auto simp: handle_send_def split: sum.splits)
  next
    case False
    then obtain u where hu: "hs = Inr u" by (cases hs) auto
    have eq: "handle_send E f R =
        (case fs of Inl _ \<Rightarrow> handle_disconnect E f ?R2
         | Inr _ \<Rightarrow> do { (sync_exp, R3) \<leftarrow> sync_tls_interest E f ?R2;
             case sync_exp of Inl _ \<Rightarrow> handle_disconnect E f R3 | Inr _ \<Rightarrow> Some R3 })"
      using False by (simp add: handle_send_def h(1) hu i fl Let_def)
    show ?thesis
    proof (cases fs)
      case (Inl e)
      then show ?thesis using d by (simp add: eq)
    next
      case (Inr n)
      then show ?thesis using y s by (cases res) (simp_all add: eq)
    qed
  qed
qed

lemma handle_recv_step:
  assumes "epoll_contract E (epfd R) reg" and "transfer_ok (lib E) sent got left"
    and "reg_ok R" and "info R f = Some si"
  shows "\<exists>keep R'. handle_recv E f ev R = Some (keep, R') \<and> session_step reg f R R' \<and>
    (armed_at f R \<longrightarrow> armed_at f R')"
proof -
  obtain hs R1 where h: "progress_tls_handshake E f R = Some (hs, R1)" "session_step reg f R R1"
    "armed_at f R \<longrightarrow> armed_at f R1"
    using progress_step[OF assms(1,3,4)] by blast
  obtain si1 where i: "info R1 f = Some si1" by (rule session_step_info[OF h(2)])
  have "buf_ok (recv si1)"
    using reg_ok_socket[OF session_step_reg_ok[OF h(2) assms(3)] i] by (simp add: socket_ok_def)
  then obtain dr si2 where dr: "drain_recv (lib E) si1 = Some (dr, si2)" "same_session si1 si2"
    "is_closed si2 = is_closed si1"
    using drain_recv_step[OF assms(2)] by blast
  let ?R2 = "put_info f si2 R1"
  have s2: "session_step reg f R ?R2"
    using session_step_trans[OF h(2) session_step_put'[OF i dr(2,3)]] .
  obtain Rd where d: "handle_disconnect E f ?R2 = Some Rd" "session_step reg f R Rd" "armed_at f Rd"
    using then_disconnect[OF s2 assms(1,3)] by blast
  obtain res R3 where y: "sync_tls_interest E f ?R2 = Some (res, R3)" "session_step reg f R R3"
    "res = Inr () \<longrightarrow> armed_at f R3"
    by (rule then_sync[OF s2 assms(1)])
  obtain Rs where s: "handle_disconnect E f R3 = Some Rs" "session_step reg f R Rs" "armed_at f Rs"
    using then_disconnect[OF y(2) assms(1,3)] by blast
  obtain Rc where c: "handle_close E f R3 = Some Rc" "session_step reg f R Rc" "armed_at f Rc"
    using then_close[OF y(2) assms(1,3)] by blast
  show ?thesis
  proof (cases "isl hs \<or> tls_waiting f R1")
    case True
    then show ?thesis using h by (auto simp: handle_recv_def split: sum.splits)
  next
    case False
    then obtain u where hu: "hs = Inr u" by (cases hs) auto
    have eq: "handle_recv E f ev R =
        (case dr of
           Inl _ \<Rightarrow> do { R3 \<leftarrow> handle_disconnect E f ?R2; Some (False, R3) }
         | Inr ri \<Rightarrow> do {
             (sync_exp, R3) \<leftarrow> sync_tls_interest E f ?R2;
             case sync_exp of
               Inl _ \<Rightarrow> do { R4 \<leftarrow> handle_disconnect E f R3; Some (False, R4) }
             | Inr _ \<Rightarrow>
                 if ri_closed ri \<or> ev AND EPOLLRDHUP \<noteq> 0
                 then do { R4 \<leftarrow> handle_close E f R3; Some (False, R4) }
                 else Some (True, R3)
           })"
      using False by (simp add: handle_recv_def h(1) hu i dr(1) Let_def)
    show ?thesis
    proof (cases dr)
      case (Inl e)
      then have "handle_recv E f ev R = Some (False, Rd)" using d by (simp add: eq)
      then show ?thesis using d by blast
    next
      case (Inr ri)
      let ?stop = "ri_closed ri \<or> ev AND EPOLLRDHUP \<noteq> 0"
      have "handle_recv E f ev R =
          (case res of Inl _ \<Rightarrow> Some (False, Rs) | Inr _ \<Rightarrow> if ?stop then Some (False, Rc) else Some (True, R3))"
        using Inr y(1) s(1) c(1) by (simp add: eq split: sum.split)
      then show ?thesis using y s c by (cases res; cases ?stop; simp) blast+
    qed
  qed
qed

lemma handle_client_error_step:
  assumes "epoll_contract E (epfd R) reg" and "reg_ok R" and "info R f = Some si"
  shows "\<exists>R'. handle_client_error E f R = Some R' \<and> session_step reg f R R' \<and> armed_at f R'"
proof (cases "is_closed si")
  case True
  then show ?thesis using session_step_refl[OF assms(3)]
    by (simp add: handle_client_error_def assms(3) armed_at_def armed_socket_def)
next
  case False
  let ?si = "if is_handshake_done (tls si) then si\<lparr>tls := snd (tls_shutdown (lib E) (tls si))\<rparr> else si"
  let ?k = "snd (k_so_error E f (kst R))"
  have s1: "session_step reg f R (put_info f ?si (R\<lparr>kst := ?k\<rparr>))"
    by (rule session_step_put[OF assms(3)]) (simp_all add: contract_so_error[OF assms(1)])
  have "handle_client_error E f R = handle_disconnect E f (put_info f ?si (R\<lparr>kst := ?k\<rparr>))"
    using False by (simp add: handle_client_error_def assms(3) Let_def)
  then show ?thesis using then_disconnect[OF s1 assms(1,2)] by simp
qed

subsection \<open>Executing lines\<close>

text \<open>The tasks that a session of user \<open>u\<close> on \<open>f\<close> may add to the queue of the database workers.\<close>

definition queued_by :: "fd \<Rightarrow> string \<Rightarrow> db_task pool \<Rightarrow> db_task pool \<Rightarrow> bool" where
  "queued_by f u q q' \<longleftrightarrow> run q' = run q \<and>
     (\<exists>ts. tasks q' = tasks q @ ts \<and>
        (\<forall>t \<in> set ts. t_fd t = f \<and> t_user_id t = u \<and> clean_command (t_cmd t)))"

lemma queued_by_refl [simp]: "queued_by f u q q"
  by (simp add: queued_by_def)

lemma queued_by_trans: "queued_by f u q q1 \<Longrightarrow> queued_by f u q1 q2 \<Longrightarrow> queued_by f u q q2"
  unfolding queued_by_def by (elim conjE exE) auto

lemma queued_by_push:
  "clean_command c \<Longrightarrow> queued_by f u q (snd (pool_push \<lparr>t_cmd = c, t_fd = f, t_user_id = u\<rparr> q))"
  by (simp add: queued_by_def pool_push_def)

lemma not_db_command: "\<not> is_db_command c \<Longrightarrow> \<exists>txt. c = cmd_response txt"
  by (cases c) auto

text \<open>The commands among the lines, in order; lines that do not decode are skipped.\<close>

definition commands_of :: "string list \<Rightarrow> command list" where
  "commands_of ls = concat (map (\<lambda>l. case decode l of Inl _ \<Rightarrow> [] | Inr c \<Rightarrow> [c]) ls)"

lemma commands_of_simps [simp]:
  "commands_of [] = []"
  "commands_of (l # ls) = (case decode l of Inl _ \<Rightarrow> [] | Inr c \<Rightarrow> [c]) @ commands_of ls"
  by (simp_all add: commands_of_def)

lemma request_send_sel [simp]:
  "infos (request_send E f c R) = infos R" "cmd_q (request_send E f c R) = cmd_q R @ [send_one_command f c]"
  by (simp_all add: request_send_def)

text \<open>One turn, when a line is there.\<close>

lemma handle_execute_line:
  assumes "info (registry_of S) f = Some si" and "parse_line (recv si) = Some (line, b)"
  shows "handle_execute E f S =
    (let S1 = S\<lparr>registry_of := put_info f (si\<lparr>recv := b\<rparr>) (registry_of S)\<rparr> in
     case decode line of
       Inl _ \<Rightarrow> Some (True, S1)
     | Inr c \<Rightarrow>
         if is_db_command c then
           Some (run (db_pool_of S), S1\<lparr>db_pool_of := snd (pool_push \<lparr>t_cmd = c, t_fd = ufd si, t_user_id = user_id si\<rparr> (db_pool_of S))\<rparr>)
         else Some (True, S1\<lparr>registry_of := request_send E (ufd si) c (registry_of S1)\<rparr>))"
proof (cases "decode line")
  case (Inl e)
  then show ?thesis by (simp add: handle_execute_def assms Let_def)
next
  case (Inr c)
  show ?thesis
  proof (cases "is_db_command c")
    case True
    then show ?thesis using Inr
      by (simp add: handle_execute_def assms Let_def db_enqueue_si_def pool_push_def)
  next
    case False
    then obtain body where "c = cmd_response body" using not_db_command by blast
    then show ?thesis using Inr
      by (simp add: handle_execute_def assms Let_def is_pool_command_def)
  qed
qed

lemma handle_execute_none:
  assumes "info (registry_of S) f = Some si" and "parse_line (recv si) = None"
  shows "handle_execute E f S = Some (False, S)"
  by (simp add: handle_execute_def assms)

lemma handle_execute_step:
  assumes "epoll_contract E (epfd (registry_of S)) reg" and "reg_ok (registry_of S)"
    and "info (registry_of S) f = Some si"
  shows "\<exists>again S'. handle_execute E f S = Some (again, S') \<and>
    session_step reg f (registry_of S) (registry_of S') \<and>
    (armed_at f (registry_of S) \<longrightarrow> armed_at f (registry_of S')) \<and>
    queued_by f (user_id si) (db_pool_of S) (db_pool_of S')"
proof (cases "parse_line (recv si)")
  case None
  then show ?thesis using handle_execute_none[OF assms(3)] session_step_refl[OF assms(3)]
    queued_by_refl by blast
next
  case (Some p)
  obtain line b where p: "parse_line (recv si) = Some (line, b)" using Some by (cases p) simp
  let ?si = "si\<lparr>recv := b\<rparr>"
  let ?R1 = "put_info f ?si (registry_of S)"
  have b: "buf_ok b" using parse_line_Some(3)[OF p] .
  have own: "ufd si = f" using reg_ok_ufd[OF assms(2,3)] by blast
  have step1: "session_step reg f (registry_of S) ?R1"
    by (rule session_step_put'[OF assms(3)]) (simp_all add: same_session_def b)
  have step2: "session_step reg f (registry_of S) (request_send E f c ?R1)"
    if "clean_command c" for c
    by (rule session_stepI[OF _ assms(3), where si' = ?si and qs = "[send_one_command f c]"])
       (simp_all add: same_server_def request_send_def request_def contract_wakeup[OF assms(1)]
         same_session_def b that)
  have armed: "armed_at f (registry_of S) \<longrightarrow> armed_at f ?R1"
    "armed_at f (registry_of S) \<longrightarrow> armed_at f (request_send E f c ?R1)" for c
    by (simp_all add: armed_at_def armed_socket_def assms(3))
  note turn = handle_execute_line[OF assms(3) p, of E, unfolded Let_def own]
  show ?thesis
  proof (cases "decode line")
    case (Inl e)
    then have "handle_execute E f S = Some (True, S\<lparr>registry_of := ?R1\<rparr>)" by (simp add: turn)
    then show ?thesis using step1 armed by fastforce
  next
    case (Inr c)
    have clean: "clean_command c" using decode_clean[OF Inr parse_line_Some(2)[OF p]] .
    show ?thesis
    proof (cases "is_db_command c")
      case True
      then show ?thesis using Inr step1 armed queued_by_push[OF clean] by (simp add: turn)
    next
      case False
      then have "handle_execute E f S =
          Some (True, S\<lparr>registry_of := request_send E f c ?R1\<rparr>)" using Inr by (simp add: turn)
      then show ?thesis using step2[OF clean] armed by fastforce
    qed
  qed
qed

lemma session_step_user:
  assumes "session_step reg f R R'" and "info R f = Some si" and "info R' f = Some si'"
  shows "user_id si' = user_id si"
  using assms by (auto elim!: session_stepE simp: same_session_def)

lemma execute_loop_step:
  "epoll_contract E (epfd (registry_of S)) reg \<Longrightarrow> reg_ok (registry_of S) \<Longrightarrow>
   info (registry_of S) f = Some si \<Longrightarrow>
   \<exists>S'. execute_loop E f S = Some S' \<and> session_step reg f (registry_of S) (registry_of S') \<and>
    (armed_at f (registry_of S) \<longrightarrow> armed_at f (registry_of S')) \<and>
    queued_by f (user_id si) (db_pool_of S) (db_pool_of S')"
proof (induction "unread f S" arbitrary: S si rule: less_induct)
  case less
  obtain again S1 where h: "handle_execute E f S = Some (again, S1)"
    "session_step reg f (registry_of S) (registry_of S1)"
    "armed_at f (registry_of S) \<longrightarrow> armed_at f (registry_of S1)"
    "queued_by f (user_id si) (db_pool_of S) (db_pool_of S1)"
    using handle_execute_step[OF less.prems] by blast
  show ?case
  proof (cases again)
    case False
    then show ?thesis using h by (simp add: execute_loop.simps)
  next
    case True
    then have "handle_execute E f S = Some (True, S1)" using h(1) by simp
    then have lt: "unread f S1 < unread f S" by (rule handle_execute_unread)
    obtain si1 where i1: "info (registry_of S1) f = Some si1" by (rule session_step_info[OF h(2)])
    have u: "user_id si1 = user_id si" by (rule session_step_user[OF h(2) less.prems(3) i1])
    from less.hyps[OF lt session_step_contract[OF h(2) less.prems(1)]
        session_step_reg_ok[OF h(2) less.prems(2)] i1]
    obtain S2 where "execute_loop E f S1 = Some S2" "session_step reg f (registry_of S1) (registry_of S2)"
      "armed_at f (registry_of S1) \<longrightarrow> armed_at f (registry_of S2)"
      "queued_by f (user_id si) (db_pool_of S1) (db_pool_of S2)" using u by auto
    then show ?thesis using True h session_step_trans[OF h(2)] queued_by_trans[OF h(4)]
      by (simp add: execute_loop.simps[of E f S])
  qed
qed

text \<open>What the loop does when the pool accepts work.\<close>

definition loop_effect :: "fd \<Rightarrow> ('k, 's) server \<Rightarrow> 's socket_info \<Rightarrow> ('k, 's) server \<Rightarrow> bool" where
  "loop_effect f S si S' \<longleftrightarrow>
     (let (ls, rest) = split_lines (pending (recv si)); cs = commands_of ls in
      tasks (db_pool_of S') = tasks (db_pool_of S) @
        map (\<lambda>c. \<lparr>t_cmd = c, t_fd = f, t_user_id = user_id si\<rparr>) (filter is_db_command cs) \<and>
      cmd_q (registry_of S') = cmd_q (registry_of S) @
        map (send_one_command f) (filter (\<lambda>c. \<not> is_db_command c) cs) \<and>
      run (db_pool_of S') \<and> thread_pool_of S' = thread_pool_of S \<and>
      (\<exists>b. infos (registry_of S') = map_put f (si\<lparr>recv := b\<rparr>) (infos (registry_of S)) \<and> pending b = rest \<and>
         (buf_ok (recv si) \<longrightarrow> buf_ok b)))"

lemma execute_loop_effect:
  "info (registry_of S) f = Some si \<Longrightarrow> ufd si = f \<Longrightarrow> run (db_pool_of S) \<Longrightarrow>
   \<exists>S'. execute_loop E f S = Some S' \<and> loop_effect f S si S'"
proof (induction "unread f S" arbitrary: S si rule: less_induct)
  case less
  show ?case
  proof (cases "parse_line (recv si)")
    case None
    then have nl: "LF \<notin> set (pending (recv si))" by (simp add: parse_line_None)
    have "execute_loop E f S = Some S"
      using handle_execute_none[OF less.prems(1) None] by (simp add: execute_loop.simps)
    moreover have "loop_effect f S si S"
      unfolding loop_effect_def split_lines_no_LF[OF nl] using less.prems
      by (auto simp: Let_def map_put_same intro!: exI[of _ "recv si"])
    ultimately show ?thesis by blast
  next
    case (Some p)
    obtain line b where p: "parse_line (recv si) = Some (line, b)" using Some by (cases p) simp
    note v = parse_line_Some[OF p]
    have split: "split_lines (pending (recv si)) =
        (line # fst (split_lines (pending b)), snd (split_lines (pending b)))"
      unfolding v(1) by (rule split_lines_line[OF v(2)])
    let ?si = "si\<lparr>recv := b\<rparr>"
    note turn = handle_execute_line[OF less.prems(1) p, of E, unfolded Let_def]
    obtain S1 where S1: "handle_execute E f S = Some (True, S1)"
      "infos (registry_of S1) = map_put f ?si (infos (registry_of S))"
      "run (db_pool_of S1)" "thread_pool_of S1 = thread_pool_of S"
      "tasks (db_pool_of S1) = tasks (db_pool_of S) @
        map (\<lambda>c. \<lparr>t_cmd = c, t_fd = f, t_user_id = user_id si\<rparr>) (filter is_db_command (commands_of [line]))"
      "cmd_q (registry_of S1) = cmd_q (registry_of S) @
        map (send_one_command f) (filter (\<lambda>c. \<not> is_db_command c) (commands_of [line]))"
    proof (cases "decode line")
      case (Inl e)
      then show ?thesis using that turn less.prems by simp
    next
      case (Inr c)
      then show ?thesis using that turn less.prems
        by (cases "is_db_command c") (simp_all add: pool_push_def)
    qed
    have lt: "unread f S1 < unread f S" using S1(1) by (rule handle_execute_unread)
    have "info (registry_of S1) f = Some ?si" by (simp add: S1(2))
    from less.hyps[OF lt this] less.prems(2) S1(3) obtain S2 where
      S2: "execute_loop E f S1 = Some S2" "loop_effect f S1 ?si S2" by auto
    have "execute_loop E f S = Some S2" using S1(1) S2(1) by (simp add: execute_loop.simps[of E f S])
    moreover have "loop_effect f S si S2"
      using S2(2) S1(4-6) unfolding loop_effect_def split
      by (auto simp: case_prod_beta Let_def S1(2) map_put_twice v(3))
    ultimately show ?thesis by blast
  qed
qed

end
