(* ===== verification/Server_Contract.thy ===== *)
theory Server_Contract
  imports Session_Step
begin

section \<open>What the server's loop keeps\<close>

text \<open>
  The invariant of the server between two turns of its loop, \<open>server_inv\<close>: the registry is consistent
  and registered in \<open>epoll\<close> (\<open>good\<close>), a closed session has its removal queued (\<open>closing_by\<close>),
  waiting output is armed, and no descriptor is registered twice. It is kept by every command, event
  and turn, and all of them return when the kernel and OpenSSL do what \<open>env_ok\<close> says.
\<close>

unbundle bit_operations_syntax

subsection \<open>What the registry's commands leave of a session's state\<close>

definition quiet_change :: "('k, 's) registry \<Rightarrow> ('k, 's) registry \<Rightarrow> bool" where
  "quiet_change R R' \<longleftrightarrow>
     (\<forall>g si'. info R' g = Some si' \<longrightarrow>
        (is_closed si' \<longrightarrow> (\<exists>si. info R g = Some si \<and> is_closed si)) \<and>
        (armed_at g R \<longrightarrow> armed_socket si'))"

lemma quiet_change_refl [simp]: "quiet_change R R"
  by (simp add: quiet_change_def armed_at_def)

lemma quiet_change_trans: "quiet_change R R1 \<Longrightarrow> quiet_change R1 R2 \<Longrightarrow> quiet_change R R2"
  unfolding quiet_change_def armed_at_def by metis

lemma quiet_change_infos:
  "infos R' = infos R \<Longrightarrow> quiet_change R R'" "infos R1 = infos R \<Longrightarrow> quiet_change R1 R' \<Longrightarrow> quiet_change R R'"
  by (simp_all add: quiet_change_def armed_at_def)

lemma quiet_change_put:
  assumes "info R f = Some si" and "is_closed si' = is_closed si"
    and "armed_socket si \<longrightarrow> armed_socket si'" and "infos R' = map_put f si' (infos R)"
  shows "quiet_change R R'"
  unfolding quiet_change_def using assms by (auto simp: armed_at_def)

lemma quiet_change_erase: "infos R' = map_erase f (infos R) \<Longrightarrow> quiet_change R R'"
  unfolding quiet_change_def by (auto simp: armed_at_def)

lemma quiet_unregister: "quiet_change R (snd (unregister_fd E f R))"
proof (cases "f = - 1 \<or> info R f = None")
  case True
  then show ?thesis by (simp add: unregister_fd_none)
next
  case False
  then obtain si where si: "info R f = Some si" by auto
  show ?thesis using False by (intro quiet_change_erase[where f = f]) (simp add: unregister_fd_some[OF _ si])
qed

lemma quiet_sync_interest:
  assumes "info R f = Some si0" and "is_closed si = is_closed si0"
    and "armed_socket si0 \<longrightarrow> armed_socket si"
  shows "quiet_change R (snd (sync_interest E f si R))"
proof -
  let ?k = "snd (k_epoll_mod E (epfd R) (ufd si) (interest si) (kst R))"
  let ?R1 = "put_info f (si\<lparr>interest := interest si\<rparr>) (R\<lparr>kst := ?k\<rparr>)"
  have "quiet_change R ?R1" by (rule quiet_change_put[OF assms(1), where si' = si]) (use assms in simp_all)
  moreover have "snd (sync_interest E f si R) = ?R1 \<or>
      snd (sync_interest E f si R) = snd (unregister_fd E (ufd si) ?R1)"
    by (simp add: sync_interest_def update_interest_eq Let_def split: sum.split)
  ultimately show ?thesis using quiet_change_trans[OF _ quiet_unregister] by metis
qed

lemma quiet_append_send:
  assumes "reg_ok R" and "append_send E f c R = Some (res, R')"
  shows "quiet_change R R'"
proof -
  obtain si where si: "info R f = Some si"
    using assms(2) by (auto simp: append_send_def split: option.splits)
  let ?b = "send_append_cmd c (send si)"
  let ?si1 = "si\<lparr>send := snd ?b\<rparr>"
  let ?si2 = "?si1\<lparr>interest := interest ?si1 OR EPOLLOUT\<rparr>"
  have ok: "buf_ok (send si)" using reg_ok_socket[OF assms(1) si] by (simp add: socket_ok_def)
  have flag: "fst ?b \<longleftrightarrow> pending (send si) = []"
    using send_append_flag[OF ok, of "encode c"] by (simp add: send_append_cmd_def)
  show ?thesis
  proof (cases "fst ?b")
    case False
    have "R' = put_info f ?si1 R"
      using assms(2) False by (simp add: append_send_def si case_prod_beta Let_def)
    moreover have "quiet_change R (put_info f ?si1 R)"
      by (rule quiet_change_put[OF si, where si' = ?si1]) (use False flag in \<open>auto simp: armed_socket_def\<close>)
    ultimately show ?thesis by simp
  next
    case True
    have "R' = snd (sync_interest E f ?si2 R)"
      using assms(2) True
      by (auto simp: append_send_def si case_prod_beta Let_def split: sum.splits if_splits)
    moreover have "quiet_change R (snd (sync_interest E f ?si2 R))"
      by (rule quiet_sync_interest[OF si]) (simp_all add: armed_socket_def, simp add: EPOLLOUT_def)
    ultimately show ?thesis by simp
  qed
qed

lemma quiet_broadcast_loop:
  "broadcast_loop E c fs R = Some R' \<Longrightarrow> reg_ok R \<Longrightarrow> quiet_change R R'"
  by (induction fs arbitrary: R)
     (auto simp: bind_eq_Some_conv split: if_splits
       dest: quiet_append_send reg_ok_append_send intro: quiet_change_trans)

lemma quiet_targets_loop:
  "targets_loop E c fs R = Some R' \<Longrightarrow> reg_ok R \<Longrightarrow> quiet_change R R'"
proof (induction fs arbitrary: R)
  case (Cons f fs)
  show ?case
  proof (cases "info R f")
    case (Some si)
    then obtain res R1 where "append_send E f c R = Some (res, R1)" "targets_loop E c fs R1 = Some R'"
      using Cons.prems(1) by (auto simp: bind_eq_Some_conv)
    then show ?thesis
      using Cons.IH Cons.prems(2) quiet_append_send reg_ok_append_send quiet_change_trans by metis
  qed (use Cons in simp)
qed simp

lemma quiet_friend_loop:
  "friend_loop E f ids R = Some R' \<Longrightarrow> reg_ok R \<Longrightarrow> quiet_change R R'"
  by (induction ids arbitrary: R)
     (auto simp: bind_eq_Some_conv dest: quiet_append_send reg_ok_append_send intro: quiet_change_trans)

lemma quiet_register:
  assumes "register_fd E f i R = Some (res, R')"
  shows "quiet_change R R'"
  using assms
proof (cases rule: register_fd_cases)
  case (2 t e k)
  then have f: "info R f = None" by (auto simp: mem_keys_iff)
  have i: "info R' g = (if g = f then Some (new_socket t i f e) else info R g)" for g
    using 2(5) f by (auto simp: map_add_def split: option.splits)
  show ?thesis unfolding quiet_change_def
    by (auto simp: i new_socket_def armed_at_def armed_socket_def split: if_splits)
qed (simp add: quiet_change_infos)

lemma quiet_set_rooms_at: "quiet_change R (set_rooms_at rs f R)"
proof (cases "info R f")
  case (Some si)
  show ?thesis
    by (rule quiet_change_put[OF Some, where si' = "si\<lparr>joined_room_ids := fold set_insert (joinable rs) []\<rparr>"])
       (simp_all add: set_rooms_at_def Some set_fd_joined_rooms_eq armed_socket_def)
qed (simp add: set_rooms_at_def)

lemma quiet_fold_set_rooms: "quiet_change R (fold (set_rooms_at rs) fds R)"
  by (induction fds arbitrary: R) (auto intro: quiet_change_trans quiet_set_rooms_at)

lemma quiet_handle_command:
  assumes "reg_ok R" and "handle_command E c R = Some R'"
  shows "quiet_change R R'"
proof (cases c)
  case (register_command f i)
  then show ?thesis using assms quiet_register by (auto simp: handle_register_def)
next
  case (unregister_command f)
  then show ?thesis using assms quiet_unregister by (auto simp: handle_unregister_def)
next
  case (send_one_command f c)
  then show ?thesis using assms
    by (auto simp: handle_send_one_def split: option.splits dest: quiet_append_send)
next
  case (broadcast_command f c)
  then show ?thesis using assms quiet_broadcast_loop
    by (auto simp: handle_broadcast_def split: command.splits)
next
  case (change_nickname_command f nick)
  show ?thesis
  proof (cases "info R f")
    case (Some si)
    show ?thesis
      by (rule quiet_change_put[OF Some, where si' = "si\<lparr>nickname := nick\<rparr>"])
         (use assms change_nickname_command Some in \<open>auto simp: handle_change_nickname_def armed_socket_def\<close>)
  qed (use assms change_nickname_command in \<open>simp add: handle_change_nickname_def\<close>)
next
  case (set_user_id_command f uid)
  show ?thesis
  proof (cases "info R f")
    case (Some si)
    have own: "ufd si = f" using reg_ok_ufd[OF assms(1) Some] by simp
    show ?thesis
      by (rule quiet_change_put[OF Some, where si' = "si\<lparr>joined_room_ids := [], user_id := uid\<rparr>"])
         (use assms set_user_id_command in
           \<open>auto simp: handle_set_user_id_eq[OF Some own] armed_socket_def\<close>)
  qed (use assms set_user_id_command in \<open>simp add: handle_set_user_id_def\<close>)
next
  case (set_joined_rooms_command f rooms)
  then show ?thesis using assms quiet_set_rooms_at by (auto simp: handle_set_joined_rooms_def)
next
  case (set_joined_rooms_for_user_command uid rooms)
  then show ?thesis using assms quiet_fold_set_rooms
    by (auto simp: handle_set_joined_rooms_for_user_def split: option.splits)
next
  case (send_friend_list_command f ids)
  show ?thesis
  proof (cases "info R f")
    case (Some si)
    then obtain h R1 where h: "append_send E f (cmd_response (''friends: '' @ to_string (int (length ids)))) R
        = Some (h, R1)" and r: "(case h of Inl _ \<Rightarrow> Some R1 | Inr _ \<Rightarrow> friend_loop E f ids R1) = Some R'"
      using assms(2) send_friend_list_command by (auto simp: handle_send_friend_list_def bind_eq_Some_conv)
    have q: "quiet_change R R1" "reg_ok R1"
      using quiet_append_send[OF assms(1) h] reg_ok_append_send[OF assms(1) h] by blast+
    show ?thesis
    proof (cases h)
      case (Inr u)
      then show ?thesis using r q quiet_friend_loop quiet_change_trans by fastforce
    qed (use r q in simp)
  qed (use assms send_friend_list_command in \<open>simp add: handle_send_friend_list_def\<close>)
next
  case (room_broadcast_command f room c)
  then show ?thesis using assms quiet_targets_loop
    by (auto simp: handle_room_broadcast_def split: option.splits)
qed

subsection \<open>The server's invariant\<close>

text \<open>A closed session has its removal among the commands \<open>cs\<close>.\<close>

definition closing_by :: "reg_command list \<Rightarrow> ('k, 's) registry \<Rightarrow> bool" where
  "closing_by cs R \<longleftrightarrow>
     (\<forall>f si. info R f = Some si \<longrightarrow> is_closed si \<longrightarrow> unregister_command f \<in> set cs)"

definition armed :: "('k, 's) registry \<Rightarrow> bool" where
  "armed R \<longleftrightarrow> (\<forall>f. armed_at f R)"

lemma quiet_armed: "quiet_change R R' \<Longrightarrow> armed R \<Longrightarrow> armed R'"
  unfolding quiet_change_def armed_def armed_at_def by blast

lemma closing_by_handle_command:
  assumes "reg_ok R" and "handle_command E c R = Some R'" and "closing_by (c # cs) R"
  shows "closing_by cs R'"
  unfolding closing_by_def
proof (intro allI impI)
  fix f si' assume a: "info R' f = Some si'" "is_closed si'"
  then obtain si where si: "info R f = Some si" "is_closed si"
    using quiet_handle_command[OF assms(1,2)] unfolding quiet_change_def by blast
  then have "unregister_command f \<in> set (c # cs)" using assms(3) unfolding closing_by_def by blast
  moreover have "c \<noteq> unregister_command f"
  proof
    assume c: "c = unregister_command f"
    have "f \<noteq> - 1" using reg_ok_ufd[OF assms(1) si(1)] by auto
    then have "info (snd (unregister_fd E f R)) f = None" by (simp add: unregister_fd_some[OF _ si(1)])
    then show False using a(1) assms(2) c by (auto simp: handle_unregister_def)
  qed
  ultimately show "unregister_command f \<in> set cs" by auto
qed

lemma run_commands_keeps:
  "run_commands E cs R = Some R' \<Longrightarrow> reg_ok R \<Longrightarrow> closing_by cs R \<Longrightarrow> armed R \<Longrightarrow>
   closing_by [] R' \<and> armed R'"
proof (induction cs arbitrary: R)
  case (Cons c cs)
  then obtain R1 where h: "handle_command E c R = Some R1" "run_commands E cs R1 = Some R'"
    by (auto simp: bind_eq_Some_conv)
  show ?case
    using Cons.IH[OF h(2) reg_ok_handle_command[OF Cons.prems(2) h(1)]
        closing_by_handle_command[OF Cons.prems(2) h(1) Cons.prems(3)]
        quiet_armed[OF quiet_handle_command[OF Cons.prems(2) h(1)] Cons.prems(4)]] .
qed simp

definition server_inv :: "('k \<Rightarrow> fd set) \<Rightarrow> ('k, 's) registry \<Rightarrow> bool" where
  "server_inv reg R \<longleftrightarrow>
     good reg R \<and> closing_by (cmd_q R) R \<and> armed R \<and> distinct (reg_fds (cmd_q R)) \<and>
     set (reg_fds (cmd_q R)) \<inter> set (keys (infos R)) = {}"

lemma server_inv_init: "server_inv reg (registry_init epf wfd b k)"
  by (simp add: server_inv_def good_def closing_by_def armed_def armed_at_def)
     (simp add: registry_init_def)

lemma session_step_inv:
  assumes "session_step reg f R R'" and "armed_at f R \<longrightarrow> armed_at f R'" and "server_inv reg R"
  shows "server_inv reg R'"
proof -
  from assms(1) obtain si si' qs where a: "info R f = Some si" "infos R' = map_put f si' (infos R)"
    "cmd_q R' = cmd_q R @ qs" "reg_fds qs = []"
    "is_closed si' \<longrightarrow> is_closed si \<or> unregister_command f \<in> set qs"
    by (rule session_stepE)
  have "closing_by (cmd_q R') R'"
    using a assms(3) unfolding closing_by_def server_inv_def by auto
  moreover have "armed_at g R'" for g
    using assms a(2) by (cases "g = f") (auto simp: armed_at_def armed_def server_inv_def)
  ultimately show ?thesis
    using session_step_good[OF assms(1)] session_step_keys[OF assms(1)] a(3,4) assms(3)
    by (simp add: server_inv_def armed_def)
qed

text \<open>What the server relies on: the kernel, its event counter and \<open>getpeername\<close>, and OpenSSL.\<close>

definition env_ok ::
  "('k, 's) env \<Rightarrow> fd \<Rightarrow> ('k \<Rightarrow> fd set) \<Rightarrow> ('k \<Rightarrow> nat) \<Rightarrow> ('k \<Rightarrow> nat) \<Rightarrow>
     ('s \<Rightarrow> string) \<Rightarrow> ('s \<Rightarrow> string) \<Rightarrow> ('s \<Rightarrow> nat) \<Rightarrow> bool" where
  "env_ok E e reg ticks tries sent got left \<longleftrightarrow>
     epoll_contract E e reg \<and> eventfd_progress E ticks \<and> getpeername_progress E tries \<and>
     transfer_ok (lib E) sent got left"

lemma work_inv:
  assumes "env_ok E (epfd R) reg ticks tries sent got left" and "server_inv reg R"
  shows "\<exists>R'. work E R = Some R' \<and> cmd_q R' = [] \<and> server_inv reg R' \<and> closing_by [] R' \<and>
    epfd R' = epfd R \<and> spec_run (cmd_q R) (sess R) (sess R')"
proof -
  have c: "epoll_contract E (epfd R) reg" "eventfd_progress E ticks" "getpeername_progress E tries"
    using assms(1) by (simp_all add: env_ok_def)
  have i: "good reg R" "closing_by (cmd_q R) R" "armed R" "distinct (reg_fds (cmd_q R))"
    "set (reg_fds (cmd_q R)) \<inter> set (keys (infos R)) = {}"
    using assms(2) by (simp_all add: server_inv_def)
  obtain k where k: "consume_wakeup E (wake_fd R) (kst R) = Some k"
    using consume_wakeup_total[OF c(2)] by blast
  let ?R = "R\<lparr>kst := k, cmd_q := []\<rparr>"
  have "good reg ?R" using i(1) consume_wakeup_reg[OF c(1) k] by (simp add: good_def)
  then obtain R' where r: "run_commands E (cmd_q R) ?R = Some R'" "good reg R'"
    "spec_run (cmd_q R) (sess R) (sess R')" "frame ?R R'"
    using run_commands_refines[of E ?R reg tries "cmd_q R"] c i by auto
  have "closing_by [] R' \<and> armed R'"
    by (rule run_commands_keeps[OF r(1)])
       (use i in \<open>simp_all add: good_def closing_by_def armed_def armed_at_def\<close>)
  moreover have "work E R = Some R'" using k r(1) by (simp add: work_def)
  moreover have "cmd_q R' = []" "epfd R' = epfd R" using r(4) by (simp_all add: frame_def)
  ultimately show ?thesis using r(2,3) by (simp add: server_inv_def)
qed

lemma handle_event_none:
  "info (registry_of S) f = None \<Longrightarrow> handle_event E (f, ev) S = Some S"
  by (simp add: handle_event_def handle_client_error_def put_registry_def)

lemma put_registry_sel [simp]:
  "registry_of (put_registry R S) = R" "db_pool_of (put_registry R S) = db_pool_of S"
  "thread_pool_of (put_registry R S) = thread_pool_of S"
  "put_registry R (put_registry R1 S) = put_registry R S"
  by (simp_all add: put_registry_def)

lemma handle_event_step:
  assumes "epoll_contract E (epfd (registry_of S)) reg" and "transfer_ok (lib E) sent got left"
    and "reg_ok (registry_of S)" and Some: "info (registry_of S) f = Some si"
  shows "\<exists>S'. handle_event E (f, ev) S = Some S' \<and>
    session_step reg f (registry_of S) (registry_of S') \<and>
    (armed_at f (registry_of S) \<longrightarrow> armed_at f (registry_of S')) \<and>
    queued_by f (user_id si) (db_pool_of S) (db_pool_of S')"
proof -
  let ?R = "registry_of S"
  show ?thesis
  proof (cases "is_error_event ev")
    case True
    then show ?thesis using handle_client_error_step[OF assms(1,3) Some]
      by (auto simp: handle_event_def)
  next
    case noerr: False
    obtain keep R1 where r: "(if is_read_event ev then handle_recv E f ev ?R else Some (True, ?R)) = Some (keep, R1)"
      "session_step reg f ?R R1" "armed_at f ?R \<longrightarrow> armed_at f R1"
    proof (cases "is_read_event ev")
      case True
      then show ?thesis using that handle_recv_step[OF assms, of ev] by auto
    next
      case False
      then show ?thesis using that[of True ?R] session_step_refl[OF Some] by simp
    qed
    have c1: "epoll_contract E (epfd R1) reg" "reg_ok R1"
      using session_step_contract[OF r(2) assms(1)] session_step_reg_ok[OF r(2) assms(3)] .
    obtain si1 where i1: "info R1 f = Some si1" by (rule session_step_info[OF r(2)])
    obtain R2 where w: "(if is_write_event ev then handle_send E f R1 else Some R1) = Some R2"
      "session_step reg f R1 R2" "armed_at f R1 \<longrightarrow> armed_at f R2"
      using handle_send_step[OF c1(1) assms(2) c1(2) i1] session_step_refl[OF i1]
      by (cases "is_write_event ev") auto
    let ?S2 = "put_registry R2 S"
    have c2: "epoll_contract E (epfd (registry_of ?S2)) reg" "reg_ok (registry_of ?S2)"
      using session_step_contract[OF w(2) c1(1)] session_step_reg_ok[OF w(2) c1(2)] by simp_all
    have rw: "session_step reg f ?R R2" by (rule session_step_trans[OF r(2) w(2)])
    obtain si2 where i2: "info (registry_of ?S2) f = Some si2"
      using session_step_info[OF w(2)] by auto
    have u: "user_id si2 = user_id si" using session_step_user[OF rw Some] i2 by simp
    obtain S3 where x: "(if is_read_event ev then execute_loop E f ?S2 else Some ?S2) = Some S3"
      "session_step reg f R2 (registry_of S3)" "armed_at f R2 \<longrightarrow> armed_at f (registry_of S3)"
      "queued_by f (user_id si) (db_pool_of S) (db_pool_of S3)"
      using execute_loop_step[OF c2 i2] session_step_refl[of R2 f si2 reg] i2 u
      by (cases "is_read_event ev") auto
    have "handle_event E (f, ev) S = (if \<not> keep then Some (put_registry R1 S) else Some S3)"
      using noerr Some r(1) w(1) x(1) by (simp add: handle_event_def)
    moreover have "session_step reg f ?R (registry_of S3)"
      by (rule session_step_trans[OF rw x(2)])
    ultimately show ?thesis using r w x by (cases keep) auto
  qed
qed

lemma handle_event_inv:
  assumes "env_ok E (epfd (registry_of S)) reg ticks tries sent got left"
    and "server_inv reg (registry_of S)"
  shows "\<exists>S'. handle_event E p S = Some S' \<and> server_inv reg (registry_of S') \<and>
    epfd (registry_of S') = epfd (registry_of S) \<and>
    keys (infos (registry_of S')) = keys (infos (registry_of S)) \<and>
    reg_fds (cmd_q (registry_of S')) = reg_fds (cmd_q (registry_of S))"
proof -
  obtain f ev where p: "p = (f, ev)" by (cases p)
  show ?thesis
  proof (cases "info (registry_of S) f")
    case None
    then show ?thesis using handle_event_none assms(2) p by blast
  next
    case (Some si)
    have "reg_ok (registry_of S)" using assms(2) by (simp add: server_inv_def good_def)
    with handle_event_step[OF _ _ _ Some, of E reg sent got left ev] assms(1) obtain S' where
      S': "handle_event E p S = Some S'" and a: "session_step reg f (registry_of S) (registry_of S')"
      "armed_at f (registry_of S) \<longrightarrow> armed_at f (registry_of S')"
      by (auto simp: env_ok_def p)
    have "reg_fds (cmd_q (registry_of S')) = reg_fds (cmd_q (registry_of S))"
      "epfd (registry_of S') = epfd (registry_of S)"
      using a(1) by (auto elim!: session_stepE simp: same_server_def)
    then show ?thesis using S' session_step_inv[OF a assms(2)] session_step_keys[OF a(1)] by blast
  qed
qed

lemma handle_events_inv:
  "env_ok E (epfd (registry_of S)) reg ticks tries sent got left \<Longrightarrow> server_inv reg (registry_of S) \<Longrightarrow>
   \<exists>S'. handle_events E evs S = Some S' \<and> server_inv reg (registry_of S') \<and>
    epfd (registry_of S') = epfd (registry_of S) \<and>
    keys (infos (registry_of S')) = keys (infos (registry_of S)) \<and>
    reg_fds (cmd_q (registry_of S')) = reg_fds (cmd_q (registry_of S))"
proof (induction evs arbitrary: S)
  case (Cons p evs)
  obtain S1 where S1: "handle_event E p S = Some S1" "server_inv reg (registry_of S1)"
    "epfd (registry_of S1) = epfd (registry_of S)"
    "keys (infos (registry_of S1)) = keys (infos (registry_of S))"
    "reg_fds (cmd_q (registry_of S1)) = reg_fds (cmd_q (registry_of S))"
    using handle_event_inv[OF Cons.prems] by blast
  have "env_ok E (epfd (registry_of S1)) reg ticks tries sent got left" using Cons.prems(1) S1(3) by simp
  from Cons.IH[OF this S1(2)] S1 show ?case by simp
qed simp

lemma event_loop_inv:
  "env_ok E (epfd (registry_of S)) reg ticks tries sent got left \<Longrightarrow> server_inv reg (registry_of S) \<Longrightarrow>
   \<exists>r S'. event_loop_run E ps S = Some (r, S') \<and> server_inv reg (registry_of S') \<and>
    epfd (registry_of S') = epfd (registry_of S)"
proof (induction E ps S rule: event_loop_run.induct)
  case (3 E evs stop_now ps S)
  obtain R where R: "work E (registry_of S) = Some R" "server_inv reg R" "epfd R = epfd (registry_of S)"
    using work_inv[OF 3(2,3)] by blast
  let ?S1 = "put_registry R S"
  have S1: "registry_of ?S1 = R" by simp
  obtain S2 where S2: "handle_events E evs ?S1 = Some S2" "server_inv reg (registry_of S2)"
    "epfd (registry_of S2) = epfd R"
    using handle_events_inv[of E ?S1 reg ticks tries sent got left evs] 3(2) R S1 by auto
  show ?case
  proof (cases stop_now)
    case True
    then show ?thesis using R S1 by simp
  next
    case False
    then have "\<exists>r S'. event_loop_run E ps S2 = Some (r, S') \<and> server_inv reg (registry_of S') \<and>
        epfd (registry_of S') = epfd (registry_of S2)"
      using 3(1)[OF R(1) refl False S2(1)] 3(2) S2(2,3) R(3) by simp
    then show ?thesis using False R S2 by simp
  qed
qed simp_all

end
