(* ===== verification/Chat_System.thy ===== *)
theory Chat_System
  imports Server_Contract
begin

section \<open>The running server: event loop, acceptor and database workers\<close>

text \<open>
  The threads that \<open>epoll_server::run\<close> and \<open>db_executor\<close> start share the registry's command queue
  (under its mutex), the task queue of the database workers and the database. A state is the
  server, the database and the requests that the database worker still has to post. The steps: the
  acceptor hands over a descriptor, the event loop runs the queued commands or handles one event,
  the worker takes a task and executes it against the database, the worker posts one of its
  requests, the pool is stopped. They may come in any order. \<open>epoll_server\<close> makes its \<open>db_executor\<close>
  with one worker, which alone uses the database, so that the calls of one task are not interleaved
  with those of another; its posts interleave with everything else.
\<close>

unbundle bit_operations_syntax

record ('k, 's) system =
  srv :: "('k, 's) server"
  database :: db
  outbox :: "reg_command list"

abbreviation reg_of :: "('k, 's) system \<Rightarrow> ('k, 's) registry" where
  "reg_of X \<equiv> registry_of (srv X)"

abbreviation task_pool :: "('k, 's) system \<Rightarrow> db_task pool" where
  "task_pool X \<equiv> db_pool_of (srv X)"

definition put_reg :: "('k, 's) registry \<Rightarrow> ('k, 's) system \<Rightarrow> ('k, 's) system" where
  "put_reg R X = X\<lparr>srv := put_registry R (srv X)\<rparr>"

text \<open>What the workers rely on in the database server, for one task.\<close>

definition db_env_ok :: "(string \<Rightarrow> string \<Rightarrow> bool) \<Rightarrow> (nat \<Rightarrow> db_env) \<Rightarrow> db \<Rightarrow> bool" where
  "db_env_ok le D d \<longleftrightarrow>
     le_text (D 0) = le \<and> seq_ok (D 0) d \<and> (\<forall>i t. plain (time_text (D i) t))"

inductive system_step ::
  "('k, 's) env \<Rightarrow> (string \<Rightarrow> string \<Rightarrow> bool) \<Rightarrow> ('k, 's) system \<Rightarrow> ('k, 's) system \<Rightarrow> bool"
  for E le where
  accept_step:
    "f \<notin> set (keys (infos (reg_of X))) \<Longrightarrow> f \<notin> set (reg_fds (cmd_q (reg_of X))) \<Longrightarrow>
     system_step E le X (put_reg (request_register E f (EPOLLIN OR EPOLLRDHUP) (reg_of X)) X)"
| work_step:
    "work E (reg_of X) = Some R \<Longrightarrow> system_step E le X (put_reg R X)"
| event_step:
    "handle_event E p (srv X) = Some S \<Longrightarrow> system_step E le X (X\<lparr>srv := S\<rparr>)"
| task_step:
    "outbox X = [] \<Longrightarrow> pool_wait stop (task_pool X) = (take_task t, q) \<Longrightarrow> db_env_ok le D (database X) \<Longrightarrow>
     execute D t (database X) = (reqs, d) \<Longrightarrow>
     system_step E le X \<lparr>srv = (srv X)\<lparr>db_pool_of := q\<rparr>, database = d, outbox = reqs\<rparr>"
| post_step:
    "outbox X = c # cs \<Longrightarrow>
     system_step E le X ((put_reg (request E c (reg_of X)) X)\<lparr>outbox := cs\<rparr>)"
| stop_step:
    "system_step E le X (X\<lparr>srv := (srv X)\<lparr>db_pool_of := snd (pool_stop (task_pool X))\<rparr>\<rparr>)"

inductive system_reachable ::
  "('k, 's) env \<Rightarrow> (string \<Rightarrow> string \<Rightarrow> bool) \<Rightarrow> ('k, 's) system \<Rightarrow> ('k, 's) system \<Rightarrow> bool"
  for E le X0 where
  here: "system_reachable E le X0 X0"
| there: "system_reachable E le X0 X \<Longrightarrow> system_step E le X Y \<Longrightarrow> system_reachable E le X0 Y"

text \<open>The server that \<open>epoll_server::create\<close> returns, on a database.\<close>

definition system_init :: "fd \<Rightarrow> fd \<Rightarrow> 'k \<Rightarrow> db \<Rightarrow> ('k, 's) system" where
  "system_init epf wfd k d =
     \<lparr>srv = \<lparr>registry_of = registry_init epf wfd True k, thread_pool_of = pool_init, db_pool_of = pool_init\<rparr>,
      database = d, outbox = []\<rparr>"

subsection \<open>The invariant\<close>

text \<open>A user a session or task may claim to be: none, or one of the users table.\<close>

definition known :: "db \<Rightarrow> string \<Rightarrow> bool" where
  "known d u \<longleftrightarrow> u = [] \<or> u \<in> set (keys (users d))"

fun request_ok :: "db \<Rightarrow> reg_command \<Rightarrow> bool" where
  "request_ok d (set_user_id_command f u) \<longleftrightarrow> known d u"
| "request_ok d q \<longleftrightarrow> clean_request q"

definition task_ok :: "db \<Rightarrow> db_task \<Rightarrow> bool" where
  "task_ok d t \<longleftrightarrow> clean_command (t_cmd t) \<and> known d (t_user_id t)"

definition users_known :: "db \<Rightarrow> sessions \<Rightarrow> bool" where
  "users_known d \<sigma> \<longleftrightarrow> (\<forall>f v. \<sigma> f = Some v \<longrightarrow> known d (s_user v))"

definition system_inv ::
  "('k \<Rightarrow> fd set) \<Rightarrow> (string \<Rightarrow> string \<Rightarrow> bool) \<Rightarrow> fd \<Rightarrow> ('k, 's) system \<Rightarrow> bool" where
  "system_inv reg le e X \<longleftrightarrow>
     server_inv reg (reg_of X) \<and> epfd (reg_of X) = e \<and> sess_clean (sess (reg_of X)) \<and>
     users_known (database X) (sess (reg_of X)) \<and>
     (\<forall>q \<in> set (cmd_q (reg_of X)). request_ok (database X) q) \<and>
     (\<forall>t \<in> set (tasks (task_pool X)). task_ok (database X) t) \<and>
     db_ok le (database X) \<and> db_clean (database X) \<and>
     (\<forall>q \<in> set (outbox X). request_ok (database X) q \<and> reg_fds [q] = [])"

lemma known_clean: "db_clean d \<Longrightarrow> known d u \<Longrightarrow> u = [] \<or> clean u"
  by (auto simp: known_def keys_def db_clean_def)

lemma request_ok_clean: "db_clean d \<Longrightarrow> request_ok d q \<Longrightarrow> clean_request q"
  using known_clean by (cases q) auto

lemma known_mono: "known d u \<Longrightarrow> set (keys (users d)) \<subseteq> set (keys (users d')) \<Longrightarrow> known d' u"
  by (auto simp: known_def)

lemma request_ok_mono:
  "request_ok d q \<Longrightarrow> set (keys (users d)) \<subseteq> set (keys (users d')) \<Longrightarrow> request_ok d' q"
  using known_mono by (cases q) auto

lemma put_reg_sel [simp]:
  "srv (put_reg R X) = put_registry R (srv X)" "database (put_reg R X) = database X"
  "outbox (put_reg R X) = outbox X"
  by (simp_all add: put_reg_def)

subsection \<open>Commands keep who is logged in among the known users\<close>

lemma spec_step_users:
  assumes "spec_step c \<sigma> \<sigma>'" and "request_ok d c" and "users_known d \<sigma>"
  shows "users_known d \<sigma>'"
proof (cases c)
  case (register_command f i)
  then have "\<sigma>' = \<sigma> \<or> \<sigma>' = \<sigma>(f \<mapsto> fresh_session)" using assms(1) by auto
  moreover have "known d (s_user fresh_session)" by (simp add: fresh_session_def known_def)
  ultimately show ?thesis using assms(3) by (auto simp: users_known_def split: if_splits)
next
  case (unregister_command f)
  then show ?thesis using assms by (auto simp: users_known_def)
qed (use assms in \<open>auto simp: users_known_def deliver_to_def split: if_splits\<close>)

lemma spec_run_users:
  "spec_run cs \<sigma> \<sigma>' \<Longrightarrow> \<forall>c \<in> set cs. request_ok d c \<Longrightarrow> users_known d \<sigma> \<Longrightarrow> users_known d \<sigma>'"
  by (induction cs arbitrary: \<sigma>) (auto intro: spec_step_users)

subsection \<open>What a task requests\<close>

lemma execute_no_register: "q \<in> set (fst (execute D t d)) \<Longrightarrow> reg_fds [q] = []"
proof -
  assume "q \<in> set (fst (execute D t d))"
  then have "addressed_to (t_cmd t) (t_fd t) (t_user_id t) q"
    using execute_command_addressed by (auto simp: execute_def)
  then show ?thesis by (cases q) auto
qed

lemma execute_requests_ok:
  assumes "db_clean d" and "task_ok d t" and "db_env_ok le D d" and "q \<in> set (fst (execute D t d))"
  shows "request_ok (snd (execute D t d)) q"
proof -
  have clean: "clean_command (t_cmd t)" "t_user_id t = [] \<or> clean (t_user_id t)"
    using assms(2) known_clean[OF assms(1)] by (auto simp: task_ok_def)
  have "clean_request q"
    using execute_command_clean[OF assms(1) clean, of D "t_fd t"] assms(3,4)
    by (simp add: execute_def db_env_ok_def)
  moreover have "known (snd (execute D t d)) u" if q: "q = set_user_id_command f u" for f u
  proof (cases "u = []")
    case False
    then obtain row where "map_of (users d) u = Some row"
      using set_user_id_from_login[of f u D "t_cmd t" "t_fd t" "t_user_id t" d] assms(4)
      by (auto simp: execute_def q)
    then have "known d u" by (auto simp: known_def)
    then show ?thesis
      using known_mono[OF _ execute_command_users] by (simp add: execute_def)
  qed (simp add: known_def)
  ultimately show ?thesis by (cases q) auto
qed

subsection \<open>Every step keeps the invariant\<close>

lemma fold_request_sel [simp]:
  "infos (fold (request E) qs R) = infos R" "cmd_q (fold (request E) qs R) = cmd_q R @ qs"
  "epfd (fold (request E) qs R) = epfd R"
  by (induction qs arbitrary: R) simp_all

lemma requests_inv:
  assumes "epoll_contract E (epfd R) reg" and "server_inv reg R"
    and "distinct (reg_fds (cmd_q R @ qs))" and "set (reg_fds qs) \<inter> set (keys (infos R)) = {}"
  shows "server_inv reg (fold (request E) qs R)"
proof -
  let ?R = "fold (request E) qs R"
  have f: "frame R (?R\<lparr>cmd_q := cmd_q R\<rparr>) \<and> infos ?R = infos R \<and> reg (kst ?R) = reg (kst R) \<and>
      room_online_fds ?R = room_online_fds R \<and> user_online_fds ?R = user_online_fds R \<and>
      connected_client_count ?R = connected_client_count R"
    using assms(1)
    by (induction qs arbitrary: R) (simp_all add: frame_def request_def contract_wakeup)
  then have "good reg ?R" using assms(2)
    by (simp add: server_inv_def good_def reg_ok_def)
  moreover have "closing_by (cmd_q ?R) ?R" "armed ?R"
    using assms(2) by (auto simp: server_inv_def closing_by_def armed_def armed_at_def)
  ultimately show ?thesis using assms(2-4) by (auto simp: server_inv_def)
qed

lemma session_step_sess:
  assumes "session_step reg f R R'"
  shows "sess_clean (sess R) \<Longrightarrow> sess_clean (sess R')"
    and "users_known d (sess R) \<Longrightarrow> users_known d (sess R')"
proof -
  from assms obtain si si' qs where a: "same_server reg R R'" "info R f = Some si"
    "infos R' = map_put f si' (infos R)" "same_session si si'" "cmd_q R' = cmd_q R @ qs"
    by (rule session_stepE)
  let ?v = "session_view si" and ?v' = "session_view si'"
  have v: "s_user ?v' = s_user ?v" "s_nick ?v' = s_nick ?v" "suffix (s_out ?v') (s_out ?v)"
    using a(4) by (simp_all add: same_session_def session_view_def)
  have s: "sess R' = (sess R)(f \<mapsto> ?v')" using a(3) by (auto simp: sess_def fun_eq_iff)
  have o: "sess R f = Some ?v" using a(2) by (simp add: sess_def)
  show "sess_clean (sess R')" if "sess_clean (sess R)"
  proof -
    have "session_clean ?v" by (rule sess_cleanD[OF that o])
    then have "session_clean ?v'" using v wire_suffix_drop by (auto simp: session_clean_def)
    then show ?thesis using that s by (auto simp: sess_clean_def split: if_splits)
  qed
  show "users_known d (sess R')" if "users_known d (sess R)"
  proof -
    have "known d (s_user ?v')" using that o v(1) unfolding users_known_def by simp
    then show ?thesis using that s by (auto simp: users_known_def split: if_splits)
  qed
qed

lemma handler_request_ok: "handler_request f q \<Longrightarrow> request_ok d q"
  by (cases q) simp_all

lemma session_step_queue:
  assumes "session_step reg f R R'" and "\<forall>q \<in> set (cmd_q R). request_ok d q"
  shows "\<forall>q \<in> set (cmd_q R'). request_ok d q"
proof -
  from assms(1) obtain qs where "cmd_q R' = cmd_q R @ qs" "\<forall>q \<in> set qs. handler_request f q"
    by (rule session_stepE)
  then show ?thesis using assms(2) handler_request_ok by auto
qed

lemma session_step_epfd: "session_step reg f R R' \<Longrightarrow> epfd R' = epfd R"
  by (auto elim!: session_stepE simp: same_server_def)

text \<open>The parts of the invariant, for the server \<open>S\<close> and the database \<open>d\<close>.\<close>

lemma system_invD:
  assumes "system_inv reg le e X"
  shows "server_inv reg (reg_of X)" "epfd (reg_of X) = e" "sess_clean (sess (reg_of X))"
    "users_known (database X) (sess (reg_of X))" "\<forall>q \<in> set (cmd_q (reg_of X)). request_ok (database X) q"
    "\<forall>t \<in> set (tasks (task_pool X)). task_ok (database X) t" "db_ok le (database X)"
    "db_clean (database X)" "\<forall>q \<in> set (outbox X). request_ok (database X) q \<and> reg_fds [q] = []"
  using assms by (simp_all add: system_inv_def)

lemma accept_inv:
  assumes "env_ok E e reg ticks tries sent got left" and "system_inv reg le e X"
    and "f \<notin> set (keys (infos (reg_of X)))" and "f \<notin> set (reg_fds (cmd_q (reg_of X)))"
  shows "system_inv reg le e (put_reg (request_register E f i (reg_of X)) X)"
proof -
  note I = system_invD[OF assms(2)]
  have r: "request_register E f i (reg_of X) = fold (request E) [register_command f i] (reg_of X)"
    by (simp add: request_register_def)
  have "server_inv reg (request_register E f i (reg_of X))"
    unfolding r using assms I by (intro requests_inv) (auto simp: env_ok_def server_inv_def)
  then show ?thesis using I unfolding r by (simp add: system_inv_def sess_def)
qed

lemma work_system_inv:
  assumes "env_ok E e reg ticks tries sent got left" and "system_inv reg le e X"
    and "work E (reg_of X) = Some R"
  shows "system_inv reg le e (put_reg R X)" and "closing_by [] R" and "cmd_q R = []"
proof -
  note I = system_invD[OF assms(2)]
  obtain R' where w: "work E (reg_of X) = Some R'" "cmd_q R' = []" "server_inv reg R'" "closing_by [] R'"
    "epfd R' = epfd (reg_of X)" "spec_run (cmd_q (reg_of X)) (sess (reg_of X)) (sess R')"
    using work_inv[of E "reg_of X" reg] assms(1) I(1,2) by blast
  have eq: "R = R'" using w(1) assms(3) by simp
  have "\<forall>q \<in> set (cmd_q (reg_of X)). clean_request q" using I(5,8) request_ok_clean by blast
  then have "sess_clean (sess R)" using spec_run_clean[OF w(6)] I(3) by (simp add: eq)
  moreover have "users_known (database X) (sess R)" using spec_run_users[OF w(6) I(5,4)] by (simp add: eq)
  ultimately show "system_inv reg le e (put_reg R X)" using I w by (simp add: eq system_inv_def)
  show "closing_by [] R" "cmd_q R = []" using w by (simp_all add: eq)
qed

lemma event_inv:
  assumes "env_ok E e reg ticks tries sent got left" and "system_inv reg le e X"
    and "handle_event E p (srv X) = Some S"
  shows "system_inv reg le e (X\<lparr>srv := S\<rparr>)"
proof -
  note I = system_invD[OF assms(2)]
  obtain f ev where p: "p = (f, ev)" by (cases p)
  show ?thesis
  proof (cases "info (reg_of X) f")
    case None
    then have "S = srv X" using assms(3) handle_event_none[OF None, of E ev] by (simp add: p)
    then have "X\<lparr>srv := S\<rparr> = X" by (cases X) simp
    then show ?thesis using assms(2) by simp
  next
    case (Some si)
    have "reg_ok (reg_of X)" using I(1) by (simp add: server_inv_def good_def)
    with handle_event_step[OF _ _ _ Some, of E reg sent got left ev] assms(1,3) I(2)
    have a: "session_step reg f (reg_of X) (registry_of S)"
      "armed_at f (reg_of X) \<longrightarrow> armed_at f (registry_of S)"
      "queued_by f (user_id si) (task_pool X) (db_pool_of S)"
      by (auto simp: env_ok_def p)
    have "sess (reg_of X) f = Some (session_view si)" using Some by (simp add: sess_def)
    then have "known (database X) (user_id si)"
      using I(4) by (fastforce simp: users_known_def session_view_def)
    then have "\<forall>t \<in> set (tasks (db_pool_of S)). task_ok (database X) t"
      using a(3) I(6) by (auto simp: queued_by_def task_ok_def)
    then show ?thesis
      using session_step_inv[OF a(1,2) I(1)] session_step_sess[OF a(1)] session_step_queue[OF a(1) I(5)]
        session_step_epfd[OF a(1)] I by (simp add: system_inv_def)
  qed
qed

lemma task_inv:
  assumes "system_inv reg le e X" and "total_le le" and "outbox X = []"
    and "pool_wait stop (task_pool X) = (take_task t, q)" and "db_env_ok le D (database X)"
    and ex: "execute D t (database X) = (reqs, d)"
  shows "system_inv reg le e \<lparr>srv = (srv X)\<lparr>db_pool_of := q\<rparr>, database = d, outbox = reqs\<rparr>"
proof -
  note I = system_invD[OF assms(1)]
  let ?d = "database X"
  have tq: "t \<in> set (tasks (task_pool X))" "set (tasks q) \<subseteq> set (tasks (task_pool X))"
    using assms(4) by (auto simp: pool_wait_def list.set_sel split: if_splits dest: list.set_sel(2))
  have t: "task_ok ?d t" using tq(1) I(6) by blast
  have d: "d = snd (execute D t ?d)" "reqs = fst (execute D t ?d)" using ex by simp_all
  have grow: "set (keys (users ?d)) \<subseteq> set (keys (users d))"
    unfolding d(1) execute_def by (rule execute_command_users)
  have "t_user_id t = [] \<or> clean (t_user_id t)" using t known_clean[OF I(8)] by (simp add: task_ok_def)
  then have "db_clean d"
    using execute_command_db_clean[OF I(8)] t by (simp add: d(1) execute_def task_ok_def)
  moreover have "db_ok le d"
    using execute_command_effect[of D "t_cmd t" "t_fd t" "t_user_id t" ?d] I(7) assms(2,5)
      db_effect_ok[OF I(7) assms(2)] by (auto simp: d(1) execute_def db_env_ok_def)
  moreover have "request_ok d q" if "q \<in> set (cmd_q (reg_of X))" for q
    using I(5) that request_ok_mono[OF _ grow] by blast
  moreover have "request_ok d q" "reg_fds [q] = []" if "q \<in> set reqs" for q
    using that execute_requests_ok[OF I(8) t assms(5)] execute_no_register[of q D t] by (auto simp: d)
  moreover have "users_known d (sess (reg_of X))"
    using I(4) known_mono[OF _ grow] by (auto simp: users_known_def)
  moreover have "\<forall>t \<in> set (tasks q). task_ok d t"
    using I(6) tq(2) known_mono[OF _ grow] by (auto simp: task_ok_def)
  ultimately show ?thesis using I(1-3) by (simp add: system_inv_def)
qed

lemma post_inv:
  assumes "env_ok E e reg ticks tries sent got left" and "system_inv reg le e X" and "outbox X = c # cs"
  shows "system_inv reg le e ((put_reg (request E c (reg_of X)) X)\<lparr>outbox := cs\<rparr>)"
proof -
  note I = system_invD[OF assms(2)]
  have c: "request_ok (database X) c" "reg_fds [c] = []" "\<forall>q \<in> set cs. request_ok (database X) q \<and> reg_fds [q] = []"
    using I(9) assms(3) by simp_all
  have one: "request E c (reg_of X) = fold (request E) [c] (reg_of X)" by simp
  have "server_inv reg (request E c (reg_of X))"
    unfolding one using assms(1) I(1,2) c(2) by (intro requests_inv) (simp_all add: env_ok_def server_inv_def)
  then show ?thesis using I c unfolding one by (simp add: system_inv_def sess_def)
qed

lemma system_step_inv:
  assumes "system_step E le X Y" and "env_ok E e reg ticks tries sent got left" and "total_le le"
    and "system_inv reg le e X"
  shows "system_inv reg le e Y"
  using assms(1)
proof (cases rule: system_step.cases)
  case (accept_step f)
  then show ?thesis using accept_inv[OF assms(2,4)] by simp
next
  case (work_step R)
  then show ?thesis using work_system_inv(1)[OF assms(2,4)] by simp
next
  case (event_step p S)
  then show ?thesis using event_inv[OF assms(2,4)] by simp
next
  case (task_step stop t q D reqs d)
  then show ?thesis using task_inv[OF assms(4,3)] by simp
next
  case (post_step c cs)
  then show ?thesis using post_inv[OF assms(2,4)] by simp
next
  case stop_step
  have "tasks (snd (pool_stop (task_pool X))) = tasks (task_pool X)" by (simp add: pool_stop_def)
  then show ?thesis using system_invD[OF assms(4)] stop_step by (simp add: system_inv_def)
qed

lemma system_init_inv:
  assumes "db_ok le d" and "db_clean d"
  shows "system_inv reg le epf (system_init epf wfd k d)"
proof -
  have s: "sess (registry_init epf wfd True k) f = None" for f
    by (simp add: sess_def registry_init_def)
  have i: "epfd (registry_init epf wfd True k) = epf" "cmd_q (registry_init epf wfd True k) = []"
    by (simp_all add: registry_init_def)
  show ?thesis unfolding system_inv_def system_init_def
    using assms server_inv_init[of reg epf wfd True k]
    by (simp add: sess_clean_def users_known_def s i pool_init_def)
qed

lemma system_reachable_inv:
  assumes "system_reachable E le X0 X" and "env_ok E e reg ticks tries sent got left" and "total_le le"
    and "system_inv reg le e X0"
  shows "system_inv reg le e X"
  using assms(1) by (induction rule: system_reachable.induct) (use assms system_step_inv in blast)+

end
