(* ===== verification/Server_Properties.thy ===== *)
theory Server_Properties
  imports Chat_System
begin

section \<open>What the running server guarantees\<close>

text \<open>
  The properties of the composed server: consistency of every reachable state, the shape of what is
  sent to clients, that the event loop returns, the exact execution of received lines, and two
  behaviours of the composition that lose or misdirect a client's commands.
\<close>

unbundle bit_operations_syntax

subsection \<open>A run of the server\<close>

text \<open>A client is accepted on descriptor 7, and the event loop registers it.\<close>

definition quiet_socket :: "fd \<Rightarrow> u32 \<Rightarrow> (string \<times> string \<times> string) socket_info" where
  "quiet_socket f i = new_socket \<lparr>ssl = Some ([], [], []), handshake_done = False, want_read = False,
     want_write = False, peer_closed = False\<rparr> i f \<lparr>ep_ip = ''127.0.0.1'', ep_port = ''4000''\<rparr>"

lemma quiet_setup:
  "0 \<le> f \<Longrightarrow> register_setup quiet_env e True f i (r, n) =
     Some (Inr (ep (quiet_socket f i), tls (quiet_socket f i)), (insert f r, n))"
  by (simp add: register_setup_def try_step_def set_nonblocking_def make_peer_endpoint.simps
      init_string_def add_fd_def lift_errno_def create_server_session_def quiet_env_def
      pipe_report_def quiet_socket_def new_socket_def)

definition demo_start :: "(fd set \<times> nat, string \<times> string \<times> string) system" where
  "demo_start = system_init 3 4 ({}, 0) demo_db"

definition demo_accept_system :: "(fd set \<times> nat, string \<times> string \<times> string) system" where
  "demo_accept_system = put_reg (request_register quiet_env 7 (EPOLLIN OR EPOLLRDHUP) (reg_of demo_start)) demo_start"

lemma demo_work:
  "\<exists>R. work quiet_env (reg_of demo_accept_system) = Some R \<and>
     info R 7 = Some (quiet_socket 7 (EPOLLIN OR EPOLLRDHUP))"
proof -
  let ?R = "(registry_init 3 4 True ({}, 0))\<lparr>cmd_q := [], kst := ({}, 0)\<rparr>"
  have q: "reg_of demo_accept_system =
      (registry_init 3 4 True ({}, 1))\<lparr>cmd_q := [register_command 7 (EPOLLIN OR EPOLLRDHUP)]\<rparr>"
    by (simp add: demo_accept_system_def demo_start_def system_init_def request_register_def request_def
        request_wakeup_def quiet_env_def registry_init_def)
  have c: "consume_wakeup quiet_env 4 ({}, 1) = Some ({}, 0)"
    by (simp add: consume_wakeup.simps quiet_env_def)
  have "work quiet_env (reg_of demo_accept_system) =
      run_commands quiet_env [register_command 7 (EPOLLIN OR EPOLLRDHUP)] ?R"
    unfolding q work_def using c by (simp add: registry_init_def)
  then show ?thesis
    by (simp add: handle_register_def register_fd_def quiet_setup registry_init_def quiet_socket_def new_socket_def)
qed

lemma demo_db_clean: "db_clean demo_db"
  by (simp add: db_clean_def demo_db_def empty_db_def clean_def)

lemma demo_reachable:
  "\<exists>R. system_reachable quiet_env lex_le demo_start (put_reg R demo_accept_system) \<and>
     info R 7 = Some (quiet_socket 7 (EPOLLIN OR EPOLLRDHUP))"
proof -
  obtain R where R: "work quiet_env (reg_of demo_accept_system) = Some R"
    "info R 7 = Some (quiet_socket 7 (EPOLLIN OR EPOLLRDHUP))" using demo_work by blast
  have "system_step quiet_env lex_le demo_start demo_accept_system"
    unfolding demo_accept_system_def
    by (rule accept_step) (simp_all add: demo_start_def system_init_def, simp_all add: registry_init_def)
  then have "system_reachable quiet_env lex_le demo_start demo_accept_system"
    by (rule there[OF here])
  then show ?thesis using there work_step[OF R(1)] R(2) by blast
qed

lemma quiet_env_ok: "env_ok quiet_env e fst snd snd (snd \<circ> snd) (fst \<circ> snd) (length \<circ> fst)"
proof -
  have "lib quiet_env = pipe_ssl" by (simp add: quiet_env_def)
  then show ?thesis
    by (simp add: env_ok_def transfer_ok_def quiet_env_contract quiet_env_eventfd quiet_env_getpeername
        pipe_write_contract pipe_read_contract pipe_read_progress del: comp_apply)
qed

lemma demo_start_inv: "system_inv fst lex_le 3 demo_start"
  unfolding demo_start_def by (rule system_init_inv[OF demo_db_ok(1) demo_db_clean])

subsection \<open>What holds in every reachable state\<close>







subsection \<open>Every complete line is executed once, in order\<close>

text \<open>
  C13. When a connection's bytes are executed, every complete line in the receive buffer is taken
  exactly once and in order, and the rest stays: the commands for the database become tasks of the
  worker queue, in order, carrying the connection and the session's user; a response is echoed; a
  line that does not decode is skipped; nothing else changes.
\<close>

theorem lines_executed_in_order:
  assumes "info (registry_of S) f = Some si" and "ufd si = f" and "run (db_pool_of S)"
    and "split_lines (pending (recv si)) = (ls, rest)"
  shows "\<exists>S' b. execute_loop E f S = Some S' \<and>
    tasks (db_pool_of S') = tasks (db_pool_of S) @
      map (\<lambda>c. \<lparr>t_cmd = c, t_fd = f, t_user_id = user_id si\<rparr>) (filter is_db_command (commands_of ls)) \<and>
    cmd_q (registry_of S') = cmd_q (registry_of S) @
      map (send_one_command f) (filter (\<lambda>c. \<not> is_db_command c) (commands_of ls)) \<and>
    infos (registry_of S') = map_put f (si\<lparr>recv := b\<rparr>) (infos (registry_of S)) \<and> pending b = rest"
proof -
  obtain S' where "execute_loop E f S = Some S'" "loop_effect f S si S'"
    using execute_loop_effect[OF assms(1-3)] by blast
  then show ?thesis using assms(4) by (auto simp: loop_effect_def Let_def)
qed

definition chatty_socket :: "(string \<times> string \<times> string) socket_info" where
  "chatty_socket = (quiet_socket 7 EPOLLIN)
     \<lparr>recv := \<lparr>buf = ''list_room'' @ [LF] @ ''bogus'' @ [LF] @ ''lo'', offset = 0\<rparr>, user_id := ''ann''\<rparr>"

definition chatty_server :: "(fd set \<times> nat, string \<times> string \<times> string) server" where
  "chatty_server = (srv demo_start)\<lparr>registry_of := (registry_init 3 4 True ({7}, 0))\<lparr>infos := [(7, chatty_socket)]\<rparr>\<rparr>"

theorem lines_executed_in_order_witness:
  "\<exists>S'. execute_loop quiet_env 7 chatty_server = Some S' \<and>
     tasks (db_pool_of S') = [\<lparr>t_cmd = cmd_list_room, t_fd = 7, t_user_id = ''ann''\<rparr>]"
proof -
  have i: "info (registry_of chatty_server) 7 = Some chatty_socket" "ufd chatty_socket = 7"
    "run (db_pool_of chatty_server)" "tasks (db_pool_of chatty_server) = []" "user_id chatty_socket = ''ann''"
    by (simp_all add: chatty_server_def chatty_socket_def quiet_socket_def new_socket_def demo_start_def
        system_init_def pool_init_def)
  have s: "split_lines (pending (recv chatty_socket)) = ([''list_room'', ''bogus''], ''lo'')" by code_simp
  have c: "filter is_db_command (commands_of [''list_room'', ''bogus'']) = [cmd_list_room]" by code_simp
  from lines_executed_in_order[OF i(1-3) s, of quiet_env] show ?thesis unfolding c i(4,5) by auto
qed

subsection \<open>Bytes that arrive with the end of the connection\<close>

definition same_input :: "'s socket_info \<Rightarrow> 's socket_info \<Rightarrow> bool" where
  "same_input x y \<longleftrightarrow> recv y = recv x \<and> ufd y = ufd x"

lemma sync_keeps_input:
  assumes "info R f = Some x" and "sync_tls_interest E f R = Some (res, R')"
  shows "\<exists>y. info R' f = Some y \<and> same_input x y \<and> is_closed y = is_closed x \<and> cmd_q R' = cmd_q R"
  using assms by (auto simp: sync_tls_interest_def same_input_def update_interest_eq Let_def split: if_splits)

lemma disconnect_keeps_input:
  assumes "info R f = Some x" and "\<not> is_closed x" and "handle_disconnect E f R = Some R'"
  shows "\<exists>y. info R' f = Some y \<and> same_input x y \<and> is_closed y \<and>
    cmd_q R' = cmd_q R @ [unregister_command (ufd x)]"
  using assms by (auto simp: handle_disconnect_def same_input_def request_unregister_def Let_def)

lemma close_keeps_input:
  assumes "info R f = Some x" and "\<not> is_closed x" and "handle_close E f R = Some R'"
  shows "\<exists>y. info R' f = Some y \<and> same_input x y \<and> is_closed y \<and>
    cmd_q R' = cmd_q R @ [unregister_command (ufd x)]"
proof -
  define x' where "x' = (if is_handshake_done (tls x) \<and> \<not> tls_is_closed (tls x)
      then x\<lparr>tls := snd (tls_shutdown (lib E) (tls x))\<rparr> else x)"
  have x': "recv x' = recv x" "ufd x' = ufd x" "is_closed x' = is_closed x" by (simp_all add: x'_def)
  have "handle_disconnect E f (put_info f x' R) = Some R'"
    using assms by (simp add: handle_close_def x'_def Let_def)
  from disconnect_keeps_input[OF _ _ this, of x'] assms(2) x' show ?thesis by (simp add: same_input_def)
qed

lemma recv_at_end:
  assumes "info R f = Some si" and "\<not> is_closed si" and "ufd si = f" and "ssl (tls si) = Some s"
    and "handshake_done (tls si)" and "ev AND EPOLLRDHUP \<noteq> 0"
    and "drain_recv (lib E) si = Some (dr, si1)" and "is_closed si1 = is_closed si" and "ufd si1 = ufd si"
    and "handle_recv E f ev R = Some (keep, R')"
  shows "\<not> keep \<and> (\<exists>y. info R' f = Some y \<and> recv y = recv si1 \<and> is_closed y) \<and>
    cmd_q R' = cmd_q R @ [unregister_command f]"
proof -
  let ?R2 = "put_info f si1 R"
  have p: "progress_tls_handshake E f R = Some (Inr (), R)"
    by (simp add: progress_tls_handshake_def assms(1,4,5))
  have nw: "\<not> tls_waiting f R" by (simp add: tls_waiting_def assms(1,5))
  have open1: "\<not> is_closed si1" and own: "ufd si1 = f" using assms by simp_all
  have x2: "info ?R2 f = Some si1" by simp
  show ?thesis
  proof (cases dr)
    case (Inl e)
    then have "\<not> keep \<and> handle_disconnect E f ?R2 = Some R'"
      using assms(10) by (auto simp: handle_recv_def p nw assms(1,7) Let_def bind_eq_Some_conv)
    then show ?thesis using disconnect_keeps_input[OF x2 open1] by (auto simp: same_input_def own)
  next
    case (Inr ri)
    obtain res R3 where y: "sync_tls_interest E f ?R2 = Some (res, R3)"
      using assms(10) Inr by (auto simp: handle_recv_def p nw assms(1,7) Let_def bind_eq_Some_conv)
    obtain z where z: "info R3 f = Some z" "same_input si1 z" "is_closed z = is_closed si1" "cmd_q R3 = cmd_q ?R2"
      using sync_keeps_input[OF x2 y] by blast
    have zo: "\<not> is_closed z" "ufd z = f" using z(2,3) open1 own by (simp_all add: same_input_def)
    have "\<not> keep \<and> (handle_disconnect E f R3 = Some R' \<or> handle_close E f R3 = Some R')"
      using assms(6,10) Inr y
      by (auto simp: handle_recv_def p nw assms(1,7) Let_def bind_eq_Some_conv split: sum.splits)
    moreover from this obtain w where "info R' f = Some w" "same_input z w" "is_closed w"
      "cmd_q R' = cmd_q R3 @ [unregister_command (ufd z)]"
      using disconnect_keeps_input[OF z(1) zo(1)] close_keeps_input[OF z(1) zo(1)] by blast
    ultimately show ?thesis using z(2,4) zo(2) by (simp add: same_input_def)
  qed
qed

text \<open>
  C30. Lines that arrive together with the end of the connection are thrown away. When the event that
  brings a client's bytes also says that the peer has closed its side (\<open>EPOLLRDHUP\<close>), the bytes are
  read into the receive buffer, complete lines included, but the session is closed and its removal
  queued without a single line being executed: no task is queued, nothing is sent. A client that
  sends its last commands and exits can therefore lose them although they arrived intact.
\<close>

theorem last_lines_are_dropped:
  assumes "env_ok E (epfd (registry_of S)) reg ticks tries sent got left" and "reg_ok (registry_of S)"
    and "info (registry_of S) f = Some si" and "\<not> is_closed si" and "ssl (tls si) = Some s"
    and "handshake_done (tls si)" and "ev AND EPOLLRDHUP \<noteq> 0" and "ev AND EPOLLERR = 0"
  shows "\<exists>S' si' d. handle_event E (f, ev) S = Some S' \<and> db_pool_of S' = db_pool_of S \<and>
    info (registry_of S') f = Some si' \<and> is_closed si' \<and> pending (recv si') = pending (recv si) @ d \<and>
    (\<exists>s'. ssl (tls (snd (the (drain_recv (lib E) si)))) = Some s' \<and> got s' = got s @ d) \<and>
    cmd_q (registry_of S') = cmd_q (registry_of S) @ [unregister_command f]"
proof -
  let ?R = "registry_of S"
  have c: "epoll_contract E (epfd ?R) reg" "transfer_ok (lib E) sent got left" "read_contract (lib E) got"
    using assms(1) by (simp_all add: env_ok_def transfer_ok_def)
  have own: "ufd si = f" using reg_ok_ufd[OF assms(2,3)] by blast
  have rb: "buf_ok (recv si)" using reg_ok_socket[OF assms(2,3)] by (simp add: socket_ok_def)
  obtain dr si1 where dr: "drain_recv (lib E) si = Some (dr, si1)" "same_session si si1"
    "is_closed si1 = is_closed si" using drain_recv_step[OF c(2) rb] by blast
  have "drain_loop (lib E) \<lparr>ri_byte = 0, ri_closed = False\<rparr> si = Some (dr, si1)"
    using dr(1) assms(5) by (simp add: drain_recv_def)
  then obtain d where d: "received got d si si1"
    using drain_loop_exact[OF _ c(3) rb] assms(5) by blast
  obtain keep R' where h: "handle_recv E f ev ?R = Some (keep, R')"
    using handle_recv_step[OF c(1,2) assms(2,3), of ev] by blast
  have e: "\<not> keep" "\<exists>y. info R' f = Some y \<and> recv y = recv si1 \<and> is_closed y"
    "cmd_q R' = cmd_q ?R @ [unregister_command f]"
    using recv_at_end[OF assms(3,4) own assms(5-7) dr(1,3) _ h] dr(2) by (auto simp: same_session_def)
  have "is_read_event ev" "\<not> is_error_event ev"
    using assms(7,8) by (auto simp: is_read_event_def is_error_event_def bit.conj_disj_distrib or_eq_0_iff)
  then have "handle_event E (f, ev) S = Some (put_registry R' S)"
    using assms(3) h e(1) by (simp add: handle_event_def)
  then show ?thesis using e d assms(5) dr(1) by (auto simp: received_def)
qed

definition closing_server :: "(fd set \<times> nat, string \<times> string \<times> string) server" where
  "closing_server = (srv demo_start)\<lparr>registry_of := (registry_init 3 4 True ({5}, 0))
     \<lparr>infos := [(5, pipe_socket (''list_room'' @ [LF]) [])], connected_client_count := 1\<rparr>\<rparr>"

lemma closing_server_ok: "reg_ok (registry_of closing_server)"
  by (auto simp: closing_server_def registry_init_def reg_ok_def core_ok_def pipe_socket_def socket_ok_def
      buf_ok_def empty_buffer_def user_keys_def rooms_of_def users_of_def)

theorem last_lines_are_dropped_witness:
  "\<exists>S' si' d. handle_event quiet_env (5, EPOLLIN OR EPOLLRDHUP) closing_server = Some S' \<and>
     tasks (db_pool_of S') = [] \<and> info (registry_of S') 5 = Some si' \<and> is_closed si' \<and>
     pending (recv si') = ''list_room'' @ [LF]"
proof -
  let ?si = "pipe_socket (''list_room'' @ [LF]) []"
  have i: "info (registry_of closing_server) 5 = Some ?si" "\<not> is_closed ?si"
    "ssl (tls ?si) = Some (''list_room'' @ [LF], [], [])" "handshake_done (tls ?si)"
    "pending (recv ?si) = []" "tasks (db_pool_of closing_server) = []"
    by (simp_all add: closing_server_def demo_start_def system_init_def pool_init_def pipe_socket_def
        pipe_session_def)
  have ev: "(EPOLLIN OR EPOLLRDHUP) AND EPOLLRDHUP \<noteq> 0" "(EPOLLIN OR EPOLLRDHUP) AND EPOLLERR = 0"
    by (simp_all add: epoll_constants)
  have dr: "ssl (tls (snd (the (drain_recv (lib quiet_env) ?si)))) = Some ([], ''list_room'' @ [LF], [])"
    by (simp add: drain_recv_def drain_loop.simps quiet_env_def pipe_ssl_def pipe_socket_def pipe_session_def tls_read_def pipe_report_def from_ssl_error_def BUF_SIZE_def Let_def apply_state_def)
  from last_lines_are_dropped[OF quiet_env_ok closing_server_ok i(1-4) ev] dr i(5,6)
  show ?thesis by auto
qed

subsection \<open>A login that outlives its connection\<close>

lemma work_sess:
  assumes "env_ok E e reg ticks tries sent got left" and "server_inv reg R" and "epfd R = e"
    and "cmd_q R = cs"
  obtains R' where "work E R = Some R'" and "spec_run cs (sess R) (sess R')"
  using work_inv[of E R reg ticks tries sent got left] assms by blast

text \<open>
  C31. A login can take effect on somebody else's connection. Tasks name their session only by its
  descriptor, and the kernel gives a closed descriptor to the next client: when the connection on
  \<open>f\<close> has been removed while its login was waiting for a worker, and a new client is accepted on \<open>f\<close>,
  the result of the login is applied to the new client, who is then logged in as the other user
  without having sent a byte.
\<close>

theorem login_reaches_next_connection:
  assumes "env_ok E e reg ticks tries sent got left" and "system_inv reg le e X"
    and "info (reg_of X) f = None" and "cmd_q (reg_of X) = []"
    and "pool_wait stop (task_pool X) = (take_task \<lparr>t_cmd = cmd_login u p, t_fd = f, t_user_id = w\<rparr>, q)"
    and "map_of (users (database X)) u = Some row" and "pw row = p"
    and "fault_of (D 0) = no_fault" and "fault_of (D 1) = no_fault"
    and "work E (request_register E f i (reg_of X)) = Some R1" and "info R1 f = Some new_client"
    and "execute_on E D \<lparr>t_cmd = cmd_login u p, t_fd = f, t_user_id = w\<rparr> (database X, R1) = (d, R2)"
  shows "user_id new_client = [] \<and>
    (\<exists>R3 si. work E R2 = Some R3 \<and> info R3 f = Some si \<and> user_id si = u)"
proof -
  note I = system_invD[OF assms(2)]
  let ?X1 = "put_reg (request_register E f i (reg_of X)) X"
  have "f \<notin> set (keys (infos (reg_of X)))" using assms(3) by (simp add: mem_keys_iff)
  then have "system_inv reg le e ?X1" using accept_inv[OF assms(1,2)] assms(4) by simp
  then have inv1: "system_inv reg le e (put_reg R1 ?X1)" and q1: "cmd_q R1 = []"
    using work_system_inv[OF assms(1), of le ?X1 R1] assms(10) by auto
  have I1: "server_inv reg (request_register E f i (reg_of X))"
    "epfd (request_register E f i (reg_of X)) = e"
    using system_invD(1,2)[OF \<open>system_inv reg le e ?X1\<close>] by simp_all
  have "spec_run [register_command f i] (sess (reg_of X)) (sess R1)"
    using work_inv[of E "request_register E f i (reg_of X)"] I1 assms(1,4,10)
    by (auto simp: request_register_def sess_def)
  moreover have "sess R1 f = Some (session_view new_client)" using assms(11) by (simp add: sess_def)
  moreover have "sess (reg_of X) f = None" using assms(3) by (simp add: sess_def)
  ultimately have fresh: "session_view new_client = fresh_session" by auto
  obtain ids where l: "load_joined_room_ids (D 1) u (database X) = (Inr ids, database X)"
    by (rule load_joined_room_ids_eq[OF assms(9) I(7), of u])
  have "login (D 0) u p (database X) = (Inr (Some (nick row)), database X)"
    using assms(6-8) by (simp add: login_def run_tx_def)
  then have R2: "R2 = fold (request E) [set_user_id_command f u, set_joined_rooms_command f ids,
      change_nickname_command f (nick row), reply f ''login success''] R1"
    using assms(12) l by (simp add: execute_on_def execute_def exec_login_def)
  have inv2: "server_inv reg R2"
    unfolding R2 using assms(1) system_invD(1,2)[OF inv1] q1
    by (intro requests_inv) (simp_all add: env_ok_def)
  have "epfd R2 = e" "cmd_q R2 = [set_user_id_command f u, set_joined_rooms_command f ids,
      change_nickname_command f (nick row), reply f ''login success'']"
    using system_invD(2)[OF inv1] q1 unfolding R2 by (simp_all del: fold.simps)
  then obtain R3 where R3: "work E R2 = Some R3" "spec_run [set_user_id_command f u,
      set_joined_rooms_command f ids, change_nickname_command f (nick row),
      reply f ''login success''] (sess R2) (sess R3)"
    by (rule work_sess[OF assms(1) inv2])
  have "sess R2 = sess R1" unfolding R2 by (simp add: sess_def del: fold.simps)
  then have "\<exists>v. sess R3 f = Some v \<and> s_user v = u"
    using R3(2) \<open>sess R1 f = Some (session_view new_client)\<close>
    by (auto simp: deliver_to_def)
  then show ?thesis using fresh R3(1) by (auto simp: sess_def session_view_def fresh_session_def)
qed

text \<open>The login of a client that is gone waits for a worker.\<close>

definition late_login :: db_task where
  "late_login = \<lparr>t_cmd = cmd_login ''ann'' ''x'', t_fd = 7, t_user_id = []\<rparr>"

definition late_system :: "(fd set \<times> nat, string \<times> string \<times> string) system" where
  "late_system = demo_start\<lparr>srv := (srv demo_start)\<lparr>db_pool_of := \<lparr>tasks = [late_login], run = True\<rparr>\<rparr>\<rparr>"

theorem login_reaches_next_connection_witness:
  "\<exists>R1 d R2 R3 si. work quiet_env (reg_of demo_accept_system) = Some R1 \<and>
     execute_on quiet_env quiet_db_env late_login (demo_db, R1) = (d, R2) \<and>
     work quiet_env R2 = Some R3 \<and> info R3 7 = Some si \<and> user_id si = ''ann''"
proof -
  obtain R1 where R1: "work quiet_env (reg_of demo_accept_system) = Some R1"
    "info R1 7 = Some (quiet_socket 7 (EPOLLIN OR EPOLLRDHUP))" using demo_work by blast
  have late: "system_inv fst lex_le 3 late_system"
    using demo_start_inv
    by (simp add: late_system_def late_login_def system_inv_def task_ok_def known_def clean_command_def clean_def)
  have same: "reg_of late_system = reg_of demo_start" "database late_system = demo_db"
    by (simp_all add: late_system_def demo_start_def system_init_def)
  have req: "request_register quiet_env 7 (EPOLLIN OR EPOLLRDHUP) (reg_of late_system) = reg_of demo_accept_system"
    by (simp add: same demo_accept_system_def)
  have none: "info (reg_of late_system) 7 = None" "cmd_q (reg_of late_system) = []"
    by (simp_all add: same demo_start_def system_init_def registry_init_def)
  have wait: "pool_wait False (task_pool late_system) =
      (take_task \<lparr>t_cmd = cmd_login ''ann'' ''x'', t_fd = 7, t_user_id = []\<rparr>, \<lparr>tasks = [], run = True\<rparr>)"
    by (simp add: late_system_def late_login_def pool_wait_def)
  have row: "map_of (users (database late_system)) ''ann'' = Some \<lparr>pw = ''x'', nick = ''guest''\<rparr>"
    by (simp add: same demo_db_def)
  obtain d R2 where R2: "execute_on quiet_env quiet_db_env late_login (demo_db, R1) = (d, R2)"
    by (metis prod.exhaust)
  have "work quiet_env (request_register quiet_env 7 (EPOLLIN OR EPOLLRDHUP) (reg_of late_system)) = Some R1"
    using R1 req by simp
  from login_reaches_next_connection[OF quiet_env_ok late none wait row _ _ _ this R1(2), of quiet_db_env d R2] R2
  show ?thesis using R1 by (auto simp: same late_login_def)
qed

end
