(* ===== verification/Chat_Client.thy ===== *)
theory Chat_Client
  imports Work_Queue Clean_Text
begin

section \<open>The chat client\<close>

text \<open>
  \<open>client/chat_io_worker\<close> and \<open>client/chat_executor\<close>: the thread that reads the terminal and the
  socket, and the thread that acts on the server's responses. A \<open>client\<close> is what the two share:
  the socket, the terminal's buffer, the flags, the queue between them, and what was printed. A turn
  of the I/O loop takes what \<open>poll\<close>, \<open>read\<close> and \<open>getsockopt\<close> returned as its argument; between two
  turns the executor may take a command from the queue.
\<close>

unbundle bit_operations_syntax

type_synonym poll_mask = "16 word"

definition POLLIN :: poll_mask where "POLLIN = 0x1"
definition POLLOUT :: poll_mask where "POLLOUT = 0x4"
definition POLLERR :: poll_mask where "POLLERR = 0x8"
definition POLLHUP :: poll_mask where "POLLHUP = 0x10"

record parsed_command =
  pc_cmd :: string
  pc_args :: "string list"

record 's client =
  c_si :: "'s socket_info"
  stdin_buf :: offset_buffer
  peer_verified :: bool
  selected_room_id :: "i64 option"
  logged_in :: bool
  execute_queue :: chat_queue
  console :: "string list"

definition client_init :: "'s socket_info \<Rightarrow> 's client" where
  "client_init si = \<lparr>c_si = si, stdin_buf = empty_buffer, peer_verified = False, selected_room_id = None,
     logged_in = False, execute_queue = \<lparr>execute_q = [], stop_requested = False\<rparr>, console = []\<rparr>"

definition put_si :: "'s socket_info \<Rightarrow> 's client \<Rightarrow> 's client" where
  "put_si si C = C\<lparr>c_si := si\<rparr>"

definition print_line :: "string \<Rightarrow> 's client \<Rightarrow> 's client" where
  "print_line l C = C\<lparr>console := console C @ [l]\<rparr>"

subsection \<open>Typed lines\<close>

abbreviation (input) space :: char where "space \<equiv> CHR '' ''"

text \<open>The loop after the leading spaces: a token, then the spaces behind it.\<close>

function parse_tokens :: "string \<Rightarrow> parsed_command \<Rightarrow> parsed_command" where
  "parse_tokens s parsed =
     (if s = [] then parsed
      else
        (let token = takeWhile (\<lambda>c. c \<noteq> space) s;
             rest = dropWhile (\<lambda>c. c = space) (dropWhile (\<lambda>c. c \<noteq> space) s)
         in parse_tokens rest
              (if pc_cmd parsed = [] then parsed\<lparr>pc_cmd := token\<rparr>
               else parsed\<lparr>pc_args := pc_args parsed @ [token]\<rparr>)))"
  by pat_completeness auto
termination
proof (relation "measure (\<lambda>(s, parsed). length s)")
  fix s :: string and parsed token rest
  assume "s \<noteq> []" and r: "rest = dropWhile (\<lambda>c. c = space) (dropWhile (\<lambda>c. c \<noteq> space) s)"
  then obtain c cs where s: "s = c # cs" by (cases s) auto
  have "length (dropWhile P xs) \<le> length xs" for P :: "char \<Rightarrow> bool" and xs by (induction xs) auto
  then have "length rest \<le> length cs" unfolding r s
    by (cases "c = space") (auto intro: order.trans)
  then show "((rest, if pc_cmd parsed = [] then parsed\<lparr>pc_cmd := token\<rparr>
      else parsed\<lparr>pc_args := pc_args parsed @ [token]\<rparr>), s, parsed) \<in> measure (\<lambda>(s, parsed). length s)"
    by (simp add: s)
qed simp

declare parse_tokens.simps [simp del]

definition parse_typed :: "string \<Rightarrow> parsed_command" where
  "parse_typed line = parse_tokens (dropWhile (\<lambda>c. c = space) line) \<lparr>pc_cmd = [], pc_args = []\<rparr>"

text \<open>\<open>si.send.append(...)\<close>: the result is not looked at.\<close>

definition append_cmd :: "command \<Rightarrow> 's client \<Rightarrow> 's client" where
  "append_cmd c C = put_si ((c_si C)\<lparr>send := snd (send_append_cmd c (send (c_si C)))\<rparr>) C"

definition client_say :: "string \<Rightarrow> 's client \<Rightarrow> 's client" where
  "client_say line C =
     (case selected_room_id C of
        None \<Rightarrow> print_line ''select room first: /select_room <room_id>'' C
      | Some r \<Rightarrow> append_cmd (cmd_say (to_string r) line) C)"

text \<open>The methods that only queue their command.\<close>

definition client_change_nickname :: "string \<Rightarrow> 's client \<Rightarrow> 's client" where
  "client_change_nickname nick C = append_cmd (cmd_nick nick) C"

definition client_login :: "string \<Rightarrow> string \<Rightarrow> 's client \<Rightarrow> 's client" where
  "client_login uid pw C = append_cmd (cmd_login uid pw) C"

definition client_signup :: "string \<Rightarrow> string \<Rightarrow> 's client \<Rightarrow> 's client" where
  "client_signup uid pw C = append_cmd (cmd_register uid pw) C"

definition client_request_friend :: "string \<Rightarrow> 's client \<Rightarrow> 's client" where
  "client_request_friend to_user_id C = append_cmd (cmd_friend_request to_user_id) C"

definition client_accept_friend_request :: "string \<Rightarrow> 's client \<Rightarrow> 's client" where
  "client_accept_friend_request from_user_id C = append_cmd (cmd_friend_accept from_user_id) C"

definition client_reject_friend_request :: "string \<Rightarrow> 's client \<Rightarrow> 's client" where
  "client_reject_friend_request from_user_id C = append_cmd (cmd_friend_reject from_user_id) C"

definition client_remove_friend :: "string \<Rightarrow> 's client \<Rightarrow> 's client" where
  "client_remove_friend friend_user_id C = append_cmd (cmd_friend_remove friend_user_id) C"

definition client_list_friend :: "'s client \<Rightarrow> 's client" where
  "client_list_friend C = append_cmd cmd_list_friend C"

definition client_list_friend_request :: "'s client \<Rightarrow> 's client" where
  "client_list_friend_request C = append_cmd cmd_list_friend_request C"

definition client_create_room :: "string \<Rightarrow> 's client \<Rightarrow> 's client" where
  "client_create_room room_name C = append_cmd (cmd_create_room room_name) C"

definition client_delete_room :: "string \<Rightarrow> 's client \<Rightarrow> 's client" where
  "client_delete_room room_id C = append_cmd (cmd_delete_room room_id) C"

definition client_invite_room :: "string \<Rightarrow> string \<Rightarrow> 's client \<Rightarrow> 's client" where
  "client_invite_room room_id friend_user_id C = append_cmd (cmd_invite_room room_id friend_user_id) C"

definition client_leave_room :: "string \<Rightarrow> 's client \<Rightarrow> 's client" where
  "client_leave_room room_id C = append_cmd (cmd_leave_room room_id) C"

definition client_list_room :: "'s client \<Rightarrow> 's client" where
  "client_list_room C = append_cmd cmd_list_room C"

definition client_history :: "string \<Rightarrow> string \<Rightarrow> 's client \<Rightarrow> 's client" where
  "client_history room_id limit C = append_cmd (cmd_history room_id limit) C"

lemmas client_requests =
  client_change_nickname_def client_login_def client_signup_def client_request_friend_def
  client_accept_friend_request_def client_reject_friend_request_def client_remove_friend_def
  client_list_friend_def client_list_friend_request_def client_create_room_def
  client_delete_room_def client_invite_room_def client_leave_room_def client_list_room_def
  client_history_def

declare client_requests [simp]

definition client_select_room :: "string \<Rightarrow> 's client \<Rightarrow> 's client" where
  "client_select_room room C =
     (case stoll room of
        Inl _ \<Rightarrow> print_line ''invalid room id: /select_room <room_id>'' C
      | Inr (r, pos) \<Rightarrow>
          if pos \<noteq> length room \<or> r \<le> 0 then print_line ''invalid room id: /select_room <room_id>'' C
          else print_line (''selected room: '' @ to_string r) (C\<lparr>selected_room_id := Some r\<rparr>))"

definition client_help :: "'s client \<Rightarrow> 's client" where
  "client_help C = C\<lparr>console := console C @
     [''commands:'', ''  /register <id> <pw>'', ''  /login <id> <pw>'', ''  /friend_request <user_id>'',
      ''  /friend_accept <user_id>'', ''  /friend_reject <user_id>'', ''  /friend_remove <user_id>'',
      ''  /list_friend'', ''  /list_friend_request'', ''  /create_room <room_name>'',
      ''  /delete_room <room_id>'', ''  /invite_room <room_id> <friend_user_id>'',
      ''  /leave_room <room_id>'', ''  /select_room <room_id>'', ''  /list_room'',
      ''  /history <room_id> <limit>'', ''  /nick <nickname>'', ''  /help'',
      ''  <text> (send chat message, room must be selected)'']\<rparr>"

definition client_execute :: "string \<Rightarrow> 's client \<Rightarrow> 's client" where
  "client_execute line C =
     (if line = [] then C
      else
        let parsed = parse_typed line; name = pc_cmd parsed; a = pc_args parsed in
        if name = [] then C
        else if \<not> logged_in C \<and> name \<noteq> ''/login'' \<and> name \<noteq> ''/register'' \<and> name \<noteq> ''/help'' then
          print_line ''login first: /login <id> <pw> or /register <id> <pw>'' C
        else if hd name \<noteq> CHR ''/'' then
          (if selected_room_id C = None then print_line ''select room first: /select_room <room_id>'' C
           else client_say line C)
        else if name = ''/nick'' then
          (if length a \<noteq> 1 then print_line ''/nick <nickname>'' C else client_change_nickname (a ! 0) C)
        else if name = ''/login'' then
          (if length a \<noteq> 2 then print_line ''/login <id> <pw>'' C
           else client_login (a ! 0) (a ! 1) C)
        else if name = ''/register'' then
          (if length a \<noteq> 2 then print_line ''/register <id> <pw>'' C
           else client_signup (a ! 0) (a ! 1) C)
        else if name = ''/friend_request'' then
          (if length a \<noteq> 1 then print_line ''/friend_request <user_id>'' C
           else client_request_friend (a ! 0) C)
        else if name = ''/friend_accept'' then
          (if length a \<noteq> 1 then print_line ''/friend_accept <user_id>'' C
           else client_accept_friend_request (a ! 0) C)
        else if name = ''/friend_reject'' then
          (if length a \<noteq> 1 then print_line ''/friend_reject <user_id>'' C
           else client_reject_friend_request (a ! 0) C)
        else if name = ''/friend_remove'' then
          (if length a \<noteq> 1 then print_line ''/friend_remove <user_id>'' C
           else client_remove_friend (a ! 0) C)
        else if name = ''/list_friend'' then
          (if a \<noteq> [] then print_line ''/list_friend'' C else client_list_friend C)
        else if name = ''/list_friend_request'' then
          (if a \<noteq> [] then print_line ''/list_friend_request'' C else client_list_friend_request C)
        else if name = ''/create_room'' then
          (if length a \<noteq> 1 then print_line ''/create_room <room_name>'' C
           else client_create_room (a ! 0) C)
        else if name = ''/delete_room'' then
          (if length a \<noteq> 1 then print_line ''/delete_room <room_id>'' C
           else client_delete_room (a ! 0) C)
        else if name = ''/invite_room'' then
          (if length a \<noteq> 2 then print_line ''/invite_room <room_id> <friend_user_id>'' C
           else client_invite_room (a ! 0) (a ! 1) C)
        else if name = ''/leave_room'' then
          (if length a \<noteq> 1 then print_line ''/leave_room <room_id>'' C
           else client_leave_room (a ! 0) C)
        else if name = ''/select_room'' then
          (if length a \<noteq> 1 then print_line ''/select_room <room_id>'' C
           else client_select_room (a ! 0) C)
        else if name = ''/list_room'' then
          (if a \<noteq> [] then print_line ''/list_room'' C else client_list_room C)
        else if name = ''/history'' then
          (if length a \<noteq> 2 then print_line ''/history <room_id> <limit>'' C
           else client_history (a ! 0) (a ! 1) C)
        else if name = ''/help'' then
          (if length a \<noteq> 0 then print_line ''/help'' C else client_help C)
        else print_line ''unknown command'' C)"

lemma put_si_sel [simp]:
  "c_si (put_si si C) = si" "stdin_buf (put_si si C) = stdin_buf C"
  "peer_verified (put_si si C) = peer_verified C" "logged_in (put_si si C) = logged_in C"
  "selected_room_id (put_si si C) = selected_room_id C" "console (put_si si C) = console C"
  "execute_queue (put_si si C) = execute_queue C"
  by (simp_all add: put_si_def)

lemma print_line_sel [simp]:
  "c_si (print_line l C) = c_si C" "stdin_buf (print_line l C) = stdin_buf C"
  "peer_verified (print_line l C) = peer_verified C" "logged_in (print_line l C) = logged_in C"
  "selected_room_id (print_line l C) = selected_room_id C"
  "console (print_line l C) = console C @ [l]" "execute_queue (print_line l C) = execute_queue C"
  by (simp_all add: print_line_def)

lemma append_cmd_sel [simp]:
  "c_si (append_cmd c C) = (c_si C)\<lparr>send := snd (send_append_cmd c (send (c_si C)))\<rparr>"
  "stdin_buf (append_cmd c C) = stdin_buf C" "peer_verified (append_cmd c C) = peer_verified C"
  "logged_in (append_cmd c C) = logged_in C" "selected_room_id (append_cmd c C) = selected_room_id C"
  "console (append_cmd c C) = console C" "execute_queue (append_cmd c C) = execute_queue C"
  by (simp_all add: append_cmd_def)

lemma client_help_sel [simp]:
  "c_si (client_help C) = c_si C" "stdin_buf (client_help C) = stdin_buf C"
  "peer_verified (client_help C) = peer_verified C" "logged_in (client_help C) = logged_in C"
  "selected_room_id (client_help C) = selected_room_id C" "execute_queue (client_help C) = execute_queue C"
  by (simp_all add: client_help_def)

lemma client_select_room_sel [simp]:
  "c_si (client_select_room r C) = c_si C" "stdin_buf (client_select_room r C) = stdin_buf C"
  "peer_verified (client_select_room r C) = peer_verified C"
  "logged_in (client_select_room r C) = logged_in C"
  "execute_queue (client_select_room r C) = execute_queue C"
  by (simp_all add: client_select_room_def split: sum.split)

subsection \<open>What a typed line means\<close>

text \<open>
  The specification: a line is its words; a word list is looked up in the table of the commands
  with that many arguments. \<open>typed_command\<close> says which command, if any, a line stands for.
\<close>

fun blank_split :: "string \<Rightarrow> string list" where
  "blank_split [] = [[]]"
| "blank_split (c # cs) =
     (if c = space then [] # blank_split cs
      else case blank_split cs of w # ws \<Rightarrow> (c # w) # ws | [] \<Rightarrow> [[c]])"

definition blank_words :: "string \<Rightarrow> string list" where
  "blank_words s = filter (\<lambda>w. w \<noteq> []) (blank_split s)"

definition commands_0 :: "(string \<times> command) list" where
  "commands_0 = [(''/list_friend'', cmd_list_friend), (''/list_friend_request'', cmd_list_friend_request),
     (''/list_room'', cmd_list_room)]"

definition commands_1 :: "(string \<times> (string \<Rightarrow> command)) list" where
  "commands_1 = [(''/nick'', cmd_nick), (''/friend_request'', cmd_friend_request),
     (''/friend_accept'', cmd_friend_accept), (''/friend_reject'', cmd_friend_reject),
     (''/friend_remove'', cmd_friend_remove), (''/create_room'', cmd_create_room),
     (''/delete_room'', cmd_delete_room), (''/leave_room'', cmd_leave_room)]"

definition commands_2 :: "(string \<times> (string \<Rightarrow> string \<Rightarrow> command)) list" where
  "commands_2 = [(''/login'', cmd_login), (''/register'', cmd_register),
     (''/invite_room'', cmd_invite_room), (''/history'', cmd_history)]"

definition slash_command :: "string \<Rightarrow> string list \<Rightarrow> command option" where
  "slash_command name a =
     (case a of
        [] \<Rightarrow> map_of commands_0 name
      | [x] \<Rightarrow> map_option (\<lambda>c. c x) (map_of commands_1 name)
      | [x, y] \<Rightarrow> map_option (\<lambda>c. c x y) (map_of commands_2 name)
      | _ \<Rightarrow> None)"

definition typed_command :: "bool \<Rightarrow> i64 option \<Rightarrow> string \<Rightarrow> command option" where
  "typed_command logged room line =
     (case blank_words line of
        [] \<Rightarrow> None
      | name # a \<Rightarrow>
          if \<not> logged \<and> name \<notin> {''/login'', ''/register''} then None
          else if hd name \<noteq> CHR ''/'' then map_option (\<lambda>r. cmd_say (to_string r) line) room
          else slash_command name a)"

lemma blank_split_not_Nil [simp]: "blank_split s \<noteq> []"
  by (induction s) (auto split: list.split)

lemma blank_split_word: "space \<notin> set w \<Longrightarrow> blank_split w = [w]"
  by (induction w) auto

lemma blank_split_append: "space \<notin> set w \<Longrightarrow> blank_split (w @ space # s) = w # blank_split s"
  by (induction w) auto

lemma blank_words_space [simp]: "blank_words (space # s) = blank_words s"
  by (simp add: blank_words_def)

lemma blank_words_drop: "blank_words (dropWhile (\<lambda>c. c = space) s) = blank_words s"
  by (induction s) auto

lemma blank_words_step:
  assumes "s \<noteq> []" and "hd s \<noteq> space"
  shows "blank_words s = takeWhile (\<lambda>c. c \<noteq> space) s #
    blank_words (dropWhile (\<lambda>c. c = space) (dropWhile (\<lambda>c. c \<noteq> space) s))"
proof -
  let ?w = "takeWhile (\<lambda>c. c \<noteq> space) s" and ?r = "dropWhile (\<lambda>c. c \<noteq> space) s"
  have w: "space \<notin> set ?w" "?w \<noteq> []" using assms by (auto dest: set_takeWhileD) (cases s; simp)
  have s: "s = ?w @ ?r" by simp
  show ?thesis
  proof (cases ?r)
    case Nil
    then have eq: "?w = s" using s by (metis append_Nil2)
    have "blank_words s = [s]" using w unfolding eq by (simp add: blank_words_def blank_split_word)
    then show ?thesis unfolding Nil eq by (simp add: blank_words_def)
  next
    case (Cons c cs)
    then have "c = space" using hd_dropWhile[of "\<lambda>c. c \<noteq> space" s] by simp
    then have "blank_split s = ?w # blank_split cs" using s Cons blank_split_append[OF w(1)] by metis
    then show ?thesis using w Cons \<open>c = space\<close>
      by (simp add: blank_words_def flip: blank_words_drop) (simp add: blank_words_def blank_words_drop[unfolded blank_words_def])
  qed
qed

lemma parse_tokens_words:
  "s = [] \<or> hd s \<noteq> space \<Longrightarrow>
   parse_tokens s p =
     (if pc_cmd p = [] then (case blank_words s of [] \<Rightarrow> p | w # ws \<Rightarrow> p\<lparr>pc_cmd := w, pc_args := pc_args p @ ws\<rparr>)
      else p\<lparr>pc_args := pc_args p @ blank_words s\<rparr>)"
proof (induction s p rule: parse_tokens.induct)
  case (1 s p)
  show ?case
  proof (cases "s = []")
    case True
    then show ?thesis by (simp add: parse_tokens.simps blank_words_def)
  next
    case False
    let ?w = "takeWhile (\<lambda>c. c \<noteq> space) s"
    let ?r = "dropWhile (\<lambda>c. c = space) (dropWhile (\<lambda>c. c \<noteq> space) s)"
    have h: "hd s \<noteq> space" using 1(2) False by blast
    have w: "?w \<noteq> []" using False h by (cases s) auto
    have r: "?r = [] \<or> hd ?r \<noteq> space" using hd_dropWhile[of "\<lambda>c. c = space"] by blast
    have words: "blank_words s = ?w # blank_words ?r" by (rule blank_words_step[OF False h])
    note IH = 1(1)[OF False refl refl r]
    show ?thesis
      using IH w by (simp add: parse_tokens.simps[of s p] False words Let_def split: list.splits)
  qed
qed

lemma parse_typed_words:
  "parse_typed line = (case blank_words line of
     [] \<Rightarrow> \<lparr>pc_cmd = [], pc_args = []\<rparr> | w # ws \<Rightarrow> \<lparr>pc_cmd = w, pc_args = ws\<rparr>)"
proof -
  let ?s = "dropWhile (\<lambda>c. c = space) line"
  have "?s = [] \<or> hd ?s \<noteq> space" using hd_dropWhile[of "\<lambda>c. c = space"] by blast
  from parse_tokens_words[OF this, of "\<lparr>pc_cmd = [], pc_args = []\<rparr>"] show ?thesis
    by (simp add: parse_typed_def blank_words_drop split: list.split)
qed

lemma blank_split_sub: "w \<in> set (blank_split s) \<Longrightarrow> set w \<subseteq> set s - {space}"
  by (induction s arbitrary: w) (fastforce split: list.splits if_splits)+

lemma blank_words_sub: "w \<in> set (blank_words s) \<Longrightarrow> w \<noteq> [] \<and> set w \<subseteq> set s - {space}"
  using blank_split_sub by (auto simp: blank_words_def)

definition slash_names :: "string list" where
  "slash_names = [''/nick'', ''/login'', ''/register'', ''/friend_request'', ''/friend_accept'',
     ''/friend_reject'', ''/friend_remove'', ''/list_friend'', ''/list_friend_request'', ''/create_room'',
     ''/delete_room'', ''/invite_room'', ''/leave_room'', ''/select_room'', ''/list_room'', ''/history'', ''/help'']"

lemmas command_tables = slash_command_def commands_0_def commands_1_def commands_2_def

text \<open>The socket after a typed line that stands for the command \<open>co\<close>, if for any.\<close>

definition sends :: "command option \<Rightarrow> 's client \<Rightarrow> 's socket_info" where
  "sends co C = (case co of None \<Rightarrow> c_si C
     | Some c \<Rightarrow> (c_si C)\<lparr>send := snd (send_append_cmd c (send (c_si C)))\<rparr>)"

lemma sends_simps [simp]:
  "sends None C = c_si C"
  "sends (Some c) C = (c_si C)\<lparr>send := snd (send_append_cmd c (send (c_si C)))\<rparr>"
  by (simp_all add: sends_def)

lemma slash_distinct: "distinct slash_names" "distinct (rev slash_names)"
  unfolding distinct_rev by (simp_all add: slash_names_def)

lemmas slash_neq = slash_distinct [unfolded slash_names_def rev.simps append.simps distinct.simps list.set insert_iff
  empty_iff de_Morgan_disj simp_thms]

lemma parsed_execute:
  assumes "parse_typed line = \<lparr>pc_cmd = name, pc_args = a\<rparr>" and "line \<noteq> []" and "name \<in> set slash_names"
    and "logged_in C \<or> name \<in> {''/login'', ''/register'', ''/help''}"
  shows "c_si (client_execute line C) = sends (slash_command name a) C"
proof -
  have logged: "(\<not> logged_in C \<and> name \<noteq> ''/login'' \<and> name \<noteq> ''/register'' \<and> name \<noteq> ''/help'') = False"
    using assms(4) by blast
  note run = client_execute_def Let_def assms(1) parsed_command.simps logged if_False if_not_P[OF assms(2)]
  note names = assms(3)[unfolded slash_names_def list.set insert_iff empty_iff simp_thms]
  note table = slash_command_def commands_0_def commands_1_def commands_2_def map_of_Cons_code
  have "c_si (client_execute line C) = sends (slash_command name a) C" if "name = n" "n \<in> set slash_names" for n
    using that(2) unfolding run unfolding that(1) slash_names_def list.set insert_iff empty_iff simp_thms
    by (elim disjE; simp only: table slash_neq if_True if_False list.distinct list.sel simp_thms) (simp_all split: list.split)
  then show ?thesis using assms(3) by blast
qed

lemma slash_command_unknown: "name \<notin> set slash_names \<Longrightarrow> slash_command name a = None"
proof -
  assume n: "name \<notin> set slash_names"
  have "map_of commands_0 name = None" "map_of commands_1 name = None" "map_of commands_2 name = None"
    using n by (auto simp: map_of_eq_None_iff slash_names_def commands_0_def commands_1_def commands_2_def)
  then show ?thesis by (auto simp: slash_command_def split: list.split)
qed

lemma slash_help: "slash_command ''/help'' a = None"
  by (auto simp: command_tables split: list.split)

lemma slash_names_slash: "name \<in> set slash_names \<Longrightarrow> hd name = CHR ''/''"
  by (auto simp: slash_names_def)

lemma unlisted_execute:
  assumes "parse_typed line = \<lparr>pc_cmd = name, pc_args = a\<rparr>" and "line \<noteq> []" and "name \<noteq> []"
    and "name \<notin> set slash_names \<or> \<not> logged_in C \<and> name \<notin> {''/login'', ''/register'', ''/help''}"
  shows "c_si (client_execute line C) =
    (if \<not> logged_in C \<or> hd name = CHR ''/'' then c_si C
     else sends (map_option (\<lambda>r. cmd_say (to_string r) line) (selected_room_id C)) C)"
proof (cases "logged_in C")
  case False
  then have "name \<noteq> ''/login''" "name \<noteq> ''/register''" "name \<noteq> ''/help''"
    using assms(4) by (auto simp: slash_names_def)
  then show ?thesis using False assms(1-3) by (simp add: client_execute_def)
next
  case True
  then have "name \<notin> set slash_names" using assms(4) by blast
  then have n: "\<forall>n \<in> set slash_names. name \<noteq> n" by blast
  show ?thesis
    using n True assms(1-3) unfolding slash_names_def list.set ball_simps
    by (simp add: client_execute_def client_say_def Let_def split: option.split)
qed

lemma client_execute_sends:
  "c_si (client_execute line C) = sends (typed_command (logged_in C) (selected_room_id C) line) C"
proof (cases "blank_words line")
  case Nil
  then show ?thesis by (simp add: client_execute_def parse_typed_words typed_command_def)
next
  case (Cons name a)
  have "name \<in> set (blank_words line)" by (simp add: Cons)
  then have ne: "name \<noteq> []" using blank_words_sub by blast
  have ln: "line \<noteq> []" using Cons by (auto simp: blank_words_def)
  have p: "parse_typed line = \<lparr>pc_cmd = name, pc_args = a\<rparr>" using Cons by (simp add: parse_typed_words)
  show ?thesis
  proof (cases "name \<in> set slash_names \<and> (logged_in C \<or> name \<in> {''/login'', ''/register'', ''/help''})")
    case True
    then have n: "name \<in> set slash_names" and g: "logged_in C \<or> name \<in> {''/login'', ''/register'', ''/help''}"
      by blast+
    have "typed_command (logged_in C) (selected_room_id C) line = slash_command name a"
      using g slash_names_slash[OF n] by (auto simp: typed_command_def Cons slash_help)
    then show ?thesis using parsed_execute[OF p ln n g] by simp
  next
    case False
    then have "name \<notin> set slash_names \<or> \<not> logged_in C \<and> name \<notin> {''/login'', ''/register'', ''/help''}"
      by blast
    note e = unlisted_execute[OF p ln ne this]
    show ?thesis
    proof (cases "logged_in C")
      case True
      then have "name \<notin> set slash_names" using False by blast
      then show ?thesis using e True by (simp add: typed_command_def Cons slash_command_unknown)
    next
      case out: False
      then have "name \<noteq> ''/login'' \<and> name \<noteq> ''/register''" using False by (auto simp: slash_names_def)
      then show ?thesis using e out by (simp add: typed_command_def Cons)
    qed
  qed
qed

lemma slash_command_clean:
  assumes "slash_command name a = Some c" and "\<forall>x \<in> set a. clean x"
  shows "clean_command c"
proof -
  consider "(name, c) \<in> set commands_0" | x f where "a = [x]" "(name, f) \<in> set commands_1" "c = f x"
    | x y f where "a = [x, y]" "(name, f) \<in> set commands_2" "c = f x y"
    using assms(1) by (auto simp: slash_command_def dest!: map_of_SomeD split: list.splits)
  then show ?thesis
    using assms(2)
    by cases (auto simp: commands_0_def commands_1_def commands_2_def clean_command_def)
qed

lemma typed_command_clean:
  assumes "typed_command logged room line = Some c" and "plain line"
  shows "clean_command c"
proof -
  obtain name a where w: "blank_words line = name # a" using assms(1)
    by (auto simp: typed_command_def split: list.splits)
  have words: "clean x" if "x \<in> set (name # a)" for x
    using blank_words_sub[of x line] assms(2) that unfolding w[symmetric]
    by (auto simp: clean_def plain_def)
  have line: "clean line" using w assms(2) by (auto simp: clean_plain blank_words_def)
  show ?thesis
  proof (cases "hd name = CHR ''/''")
    case False
    then obtain r where "c = cmd_say (to_string r) line"
      using assms(1) by (auto simp: typed_command_def w split: if_splits)
    then show ?thesis using line by (simp add: clean_command_def)
  next
    case True
    then have "slash_command name a = Some c" using assms(1)
      by (auto simp: typed_command_def w split: if_splits)
    then show ?thesis using words by (auto intro: slash_command_clean)
  qed
qed

subsection \<open>The I/O thread\<close>

definition socket_events :: "'s client \<Rightarrow> poll_mask" where
  "socket_events C =
     (let t = tls (c_si C); events = POLLERR OR POLLHUP in
      if \<not> is_handshake_done t then
        (let events1 = (if needs_write t then events OR POLLOUT else events)
         in if needs_read t \<or> \<not> needs_write t then events1 OR POLLIN else events1)
      else
        (let events1 = events OR POLLIN
         in if has_pending (send (c_si C)) \<or> needs_write t then events1 OR POLLOUT else events1))"

definition client_progress :: "'s openssl \<Rightarrow> 's client \<Rightarrow> (error_code + unit) \<times> 's client" where
  "client_progress L C =
     (let t = tls (c_si C) in
      if is_handshake_done t then
        (if peer_verified C then (Inr (), C)
         else
           (case verify_peer L t of
              Inl e \<Rightarrow> (Inl e, C) | Inr _ \<Rightarrow> (Inr (), C\<lparr>peer_verified := True\<rparr>)))
      else
        (let (hs_exp, t1) = handshake L t; C1 = put_si ((c_si C)\<lparr>tls := t1\<rparr>) C in
         case hs_exp of
           Inl e \<Rightarrow> (Inl e, C1)
         | Inr io \<Rightarrow>
             if closed io then (Inl (from_errno ECONNRESET), C1)
             else if \<not> is_handshake_done t1 then (Inr (), C1)
             else
               (case verify_peer L t1 of
                  Inl e \<Rightarrow> (Inl e, C1) | Inr _ \<Rightarrow> (Inr (), C1\<lparr>peer_verified := True\<rparr>))))"

definition client_flush :: "'s openssl \<Rightarrow> 's client \<Rightarrow> (error_code + unit) \<times> 's client" where
  "client_flush L C =
     (let (fs_exp, si) = flush_send L (c_si C)
      in (case fs_exp of Inl e \<Rightarrow> Inl e | Inr _ \<Rightarrow> Inr (), put_si si C))"

definition flush_pending_send :: "'s openssl \<Rightarrow> 's client \<Rightarrow> (error_code + unit) \<times> 's client" where
  "flush_pending_send L C = (if \<not> has_pending (send (c_si C)) then (Inr (), C) else client_flush L C)"

definition recv_socket :: "'s openssl \<Rightarrow> 's client \<Rightarrow> ((error_code + bool) \<times> 's client) option" where
  "recv_socket L C = do {
     (dr_exp, si) \<leftarrow> drain_recv L (c_si C);
     Some (case dr_exp of Inl e \<Rightarrow> Inl e | Inr ri \<Rightarrow> Inr (ri_closed ri), put_si si C)
   }"

text \<open>The received lines go to the executor; a line that does not decode is only logged.\<close>

function client_lines :: "'s client \<Rightarrow> 's client" where
  "client_lines C =
     (case parse_line (recv (c_si C)) of
        None \<Rightarrow> C
      | Some (line, b) \<Rightarrow>
          (let C1 = put_si ((c_si C)\<lparr>recv := b\<rparr>) C in
           client_lines
             (case decode line of
                Inl _ \<Rightarrow> C1
              | Inr c \<Rightarrow> C1\<lparr>execute_queue := request_execute c (execute_queue C1)\<rparr>)))"
  by pat_completeness auto
termination
  by (relation "measure (\<lambda>C. length (pending (recv (c_si C))))")
     (auto dest!: parse_line_Some(1) split: sum.split)

declare client_lines.simps [simp del]

lemmas client_view =
  if_distrib [of stdin_buf] if_distrib [of peer_verified] if_distrib [of logged_in] if_distrib [of execute_queue]

lemma client_say_keeps:
  "stdin_buf (client_say line C) = stdin_buf C"
  "peer_verified (client_say line C) = peer_verified C"
  "logged_in (client_say line C) = logged_in C"
  "execute_queue (client_say line C) = execute_queue C"
  by (simp_all add: client_say_def split: option.split)

lemma client_execute_keeps [simp]:
  "stdin_buf (client_execute line C) = stdin_buf C"
  "peer_verified (client_execute line C) = peer_verified C"
  "logged_in (client_execute line C) = logged_in C"
  "execute_queue (client_execute line C) = execute_queue C"
  by (simp_all only: client_execute_def Let_def client_view client_say_keeps print_line_sel client_requests
      append_cmd_sel client_select_room_sel client_help_sel if_cancel)

lemma client_flush_keeps [simp]:
  "stdin_buf (snd (client_flush L C)) = stdin_buf C"
  "peer_verified (snd (client_flush L C)) = peer_verified C"
  by (simp_all add: client_flush_def split: prod.split)

lemma client_flush_buf: "(r, C') = client_flush L C \<Longrightarrow> stdin_buf C' = stdin_buf C"
  using client_flush_keeps(1)[of L C] by (cases "client_flush L C") simp

text \<open>The lines of the terminal; what they queue is sent at once when the handshake is done.\<close>

function stdin_lines :: "'s openssl \<Rightarrow> 's client \<Rightarrow> (error_code + bool) \<times> 's client" where
  "stdin_lines L C =
     (case parse_line (stdin_buf C) of
        None \<Rightarrow> (Inr False, C)
      | Some (line, b) \<Rightarrow>
          (let C1 = C\<lparr>stdin_buf := b\<rparr> in
           if line = [] then stdin_lines L C1
           else
             (let had_pending = has_pending (send (c_si C1)); C2 = client_execute line C1 in
              if \<not> had_pending \<and> \<not> has_pending (send (c_si C2)) then stdin_lines L C2
              else if \<not> is_handshake_done (tls (c_si C2)) then stdin_lines L C2
              else
                (case client_flush L C2 of
                   (Inl e, C3) \<Rightarrow> (Inl e, C3) | (Inr _, C3) \<Rightarrow> stdin_lines L C3))))"
  by pat_completeness auto
termination
  by (relation "measure (\<lambda>(L, C). length (pending (stdin_buf C)))")
     (auto dest!: parse_line_Some(1) client_flush_buf)

declare stdin_lines.simps [simp del]

definition send_stdin :: "'s openssl \<Rightarrow> c_int + string \<Rightarrow> 's client \<Rightarrow> (error_code + bool) \<times> 's client" where
  "send_stdin L rd C =
     (case rd of
        Inl ec \<Rightarrow> if ec = EINTR then (Inr False, C) else (Inl (from_errno ec), C)
      | Inr d \<Rightarrow>
          if d = [] then (Inr True, C)
          else stdin_lines L (C\<lparr>stdin_buf := recv_append d (stdin_buf C)\<rparr>))"

text \<open>What one turn of the loop sees.\<close>

record poll_turn =
  stdin_revents :: poll_mask
  sock_revents :: poll_mask
  stdin_read :: "c_int + string"
  sock_error :: "c_int + c_int"

datatype turn_result = turn_next | turn_break | turn_fail error_code

definition turn_stdin :: "'s openssl \<Rightarrow> poll_turn \<Rightarrow> bool \<Rightarrow> 's client \<Rightarrow> (error_code + bool) \<times> 's client" where
  "turn_stdin L t eof C =
     (if \<not> eof \<and> stdin_revents t AND (POLLIN OR POLLHUP) \<noteq> 0 then send_stdin L (stdin_read t) C
      else (Inr False, C))"

definition turn_handshake :: "'s openssl \<Rightarrow> poll_turn \<Rightarrow> 's client \<Rightarrow> (error_code + unit) \<times> 's client" where
  "turn_handshake L t C =
     (if sock_revents t AND (POLLIN OR POLLOUT OR POLLHUP) \<noteq> 0 then
        (let (hs_exp, C1) = client_progress L C in
         case hs_exp of
           Inl e \<Rightarrow> (Inl e, C1)
         | Inr _ \<Rightarrow>
             if sock_revents t AND POLLHUP \<noteq> 0 \<and> \<not> is_handshake_done (tls (c_si C1))
             then (Inl (from_errno ECONNRESET), C1) else (Inr (), C1))
      else (Inr (), C))"

definition turn_flush :: "'s openssl \<Rightarrow> poll_turn \<Rightarrow> 's client \<Rightarrow> (error_code + unit) \<times> 's client" where
  "turn_flush L t C =
     (if is_handshake_done (tls (c_si C)) \<and> sock_revents t AND POLLOUT \<noteq> 0
      then flush_pending_send L C else (Inr (), C))"

definition turn_recv ::
  "'s openssl \<Rightarrow> poll_turn \<Rightarrow> 's client \<Rightarrow> ((error_code + bool) \<times> 's client) option" where
  "turn_recv L t C =
     (if is_handshake_done (tls (c_si C)) \<and> sock_revents t AND (POLLIN OR POLLHUP) \<noteq> 0 then do {
        (recv_exp, C1) \<leftarrow> recv_socket L C;
        Some (case recv_exp of Inl e \<Rightarrow> (Inl e, C1) | Inr at_end \<Rightarrow> (Inr at_end, client_lines C1))
      }
      else Some (Inr False, C))"

definition client_turn ::
  "'s openssl \<Rightarrow> poll_turn \<Rightarrow> bool \<Rightarrow> 's client \<Rightarrow> (turn_result \<times> bool \<times> 's client) option" where
  "client_turn L t eof C =
     (let (in_exp, C1) = turn_stdin L t eof C in
      case in_exp of
        Inl e \<Rightarrow> Some (turn_fail e, eof, C1)
      | Inr at_eof \<Rightarrow>
          (let eof1 = (eof \<or> at_eof) in
           if sock_revents t AND POLLERR \<noteq> 0 then
             Some (turn_fail (from_errno
               (case sock_error t of Inl ec \<Rightarrow> ec | Inr so \<Rightarrow> if so = 0 then EIO else so)), eof1, C1)
           else
             (let (hs_exp, C2) = turn_handshake L t C1 in
              case hs_exp of
                Inl e \<Rightarrow> Some (turn_fail e, eof1, C2)
              | Inr _ \<Rightarrow>
                  (let (fl_exp, C3) = turn_flush L t C2 in
                   case fl_exp of
                     Inl e \<Rightarrow> Some (turn_fail e, eof1, C3)
                   | Inr _ \<Rightarrow> do {
                       (rc_exp, C4) \<leftarrow> turn_recv L t C3;
                       Some (case rc_exp of
                           Inl e \<Rightarrow> turn_fail e
                         | Inr at_end \<Rightarrow>
                             if at_end then turn_break
                             else if eof1 \<and> is_handshake_done (tls (c_si C4)) \<and> \<not> has_pending (send (c_si C4))
                             then turn_break else turn_next, eof1, C4)
                     }))))"

text \<open>The loop is left: the session is shut down, and a failure of that is only logged.\<close>

definition client_finish :: "'s openssl \<Rightarrow> 's client \<Rightarrow> 's client" where
  "client_finish L C =
     (let t = tls (c_si C) in
      if is_handshake_done t \<and> \<not> tls_is_closed t
      then put_si ((c_si C)\<lparr>tls := snd (tls_shutdown L t)\<rparr>) C else C)"

subsection \<open>The executor thread\<close>

definition chat_execute :: "command \<Rightarrow> 's client \<Rightarrow> 's client" where
  "chat_execute c C =
     (case c of
        cmd_response txt \<Rightarrow>
          print_line txt
            (if txt = ''login success'' then C\<lparr>logged_in := True\<rparr>
             else if txt = ''login failed'' then C\<lparr>logged_in := False\<rparr> else C)
      | _ \<Rightarrow> C)"

definition chat_run_step :: "'s client \<Rightarrow> 's client" where
  "chat_run_step C =
     (case chat_wait (execute_queue C) of
        (take_task c, q) \<Rightarrow> chat_execute c (C\<lparr>execute_queue := q\<rparr>)
      | (_, q) \<Rightarrow> C\<lparr>execute_queue := q\<rparr>)"

subsection \<open>Running the client\<close>

text \<open>
  A run is a list of what happens to the I/O thread, with the executor's steps in between. The
  result is \<open>None\<close> while the loop waits for the next event.
\<close>

datatype client_event = io_stop | io_poll_error c_int | io_turn poll_turn | executor_step

fun client_loop ::
  "'s openssl \<Rightarrow> client_event list \<Rightarrow> bool \<Rightarrow> 's client \<Rightarrow>
     ((error_code + unit) option \<times> 's client) option" where
  "client_loop L [] eof C = Some (None, C)"
| "client_loop L (io_stop # es) eof C = Some (Some (Inr ()), client_finish L C)"
| "client_loop L (io_poll_error ec # es) eof C =
     (if ec = EINTR then client_loop L es eof C else Some (Some (Inl (from_errno ec)), C))"
| "client_loop L (executor_step # es) eof C = client_loop L es eof (chat_run_step C)"
| "client_loop L (io_turn t # es) eof C = do {
     (res, eof1, C1) \<leftarrow> client_turn L t eof C;
     case res of
       turn_fail e \<Rightarrow> Some (Some (Inl e), C1)
     | turn_break \<Rightarrow> Some (Some (Inr ()), client_finish L C1)
     | turn_next \<Rightarrow> client_loop L es eof1 C1
   }"

definition client_run ::
  "'s openssl \<Rightarrow> client_event list \<Rightarrow> 's client \<Rightarrow> ((error_code + unit) option \<times> 's client) option" where
  "client_run L es C =
     (let (hs_exp, C1) = client_progress L C in
      case hs_exp of Inl e \<Rightarrow> Some (Some (Inl e), C1) | Inr _ \<Rightarrow> client_loop L es False C1)"

subsection \<open>Nothing is sent to a peer that was not verified\<close>

text \<open>What OpenSSL knows about the peer, and what it promises about it.\<close>

definition verdict :: "'s openssl \<Rightarrow> 's \<Rightarrow> bool" where
  "verdict L s \<longleftrightarrow> has_peer_certificate L s \<and> verify_result L s = X509_V_OK"

definition peer_contract :: "'s openssl \<Rightarrow> ('s \<Rightarrow> string) \<Rightarrow> bool" where
  "peer_contract L sent \<longleftrightarrow>
     (\<forall>s. sent (snd (do_handshake L s)) = sent s) \<and>
     (\<forall>s src. verdict L s \<longrightarrow> verdict L (snd (write_ex L s src))) \<and>
     (\<forall>s n. verdict L s \<longrightarrow> verdict L (snd (read_ex L s n))) \<and>
     (\<forall>s. verdict L s \<longrightarrow> verdict L (snd (ssl_shutdown L s)))"

definition same_peer :: "'s openssl \<Rightarrow> 's tls_session \<Rightarrow> 's tls_session \<Rightarrow> bool" where
  "same_peer L t t' \<longleftrightarrow> handshake_done t' = handshake_done t \<and>
     (\<forall>s. ssl t = Some s \<longrightarrow> (\<exists>s'. ssl t' = Some s' \<and> (verdict L s \<longrightarrow> verdict L s')))"

lemma same_peer_refl [simp]: "same_peer L t t"
  by (simp add: same_peer_def)

lemma same_peer_trans: "same_peer L t t1 \<Longrightarrow> same_peer L t1 t2 \<Longrightarrow> same_peer L t t2"
  unfolding same_peer_def by blast

lemma same_peer_state [simp]:
  "same_peer L t (apply_state io t') = same_peer L t t'" "same_peer L t (apply_result e t') = same_peer L t t'"
  by (simp_all add: same_peer_def apply_result_def split: sum.split)

lemma same_peer_ssl:
  "ssl t = Some s \<Longrightarrow> (verdict L s \<longrightarrow> verdict L s') \<Longrightarrow> same_peer L t (t\<lparr>ssl := Some s'\<rparr>)"
  by (simp add: same_peer_def)

lemma tls_write_same_peer: "peer_contract L sent \<Longrightarrow> same_peer L t (snd (tls_write L src t))"
  by (auto simp: tls_write_def peer_contract_def Let_def case_prod_beta intro!: same_peer_ssl split: option.split)

lemma tls_read_same_peer: "peer_contract L sent \<Longrightarrow> same_peer L t (snd (snd (tls_read L n t)))"
  by (auto simp: tls_read_def peer_contract_def Let_def case_prod_beta intro!: same_peer_ssl split: option.split)

lemma tls_shutdown_same_peer: "peer_contract L sent \<Longrightarrow> same_peer L t (snd (tls_shutdown L t))"
  by (auto simp: tls_shutdown_def peer_contract_def Let_def case_prod_beta intro!: same_peer_ssl split: option.split)

lemma flush_loop_same_peer:
  "peer_contract L sent \<Longrightarrow> flush_loop L n si = (res, si') \<Longrightarrow> same_peer L (tls si) (tls si') \<and> recv si' = recv si"
proof (induction L n si arbitrary: res si' rule: flush_loop.induct)
  case (1 L n si)
  show ?case
  proof (cases "has_pending (send si)")
    case False
    then show ?thesis using 1(3) by (auto simp: flush_loop.simps[of L n si])
  next
    case hp: True
    obtain wres t where w: "tls_write L (take (remaining (send si)) (current_data (send si))) (tls si) = (wres, t)"
      by (metis prod.exhaust)
    have t: "same_peer L (tls si) t" using tls_write_same_peer[OF 1(2), of "tls si"] w by (metis snd_conv)
    show ?thesis
    proof (cases wres)
      case (Inl e)
      then show ?thesis using 1(3) hp w t by (auto simp: flush_loop.simps[of L n si])
    next
      case (Inr wr)
      let ?si1 = "si\<lparr>tls := t\<rparr>"
      let ?si2 = "if io_byte wr > 0 then ?si1\<lparr>send := advance (io_byte wr) (send ?si1)\<rparr> else ?si1"
      let ?n = "if io_byte wr > 0 then n + io_byte wr else n"
      have step: "flush_loop L n si =
          (if closed wr then (Inl (from_errno EPIPE), ?si2)
           else if io_want_read wr \<or> io_want_write wr
           then (Inr ?n, ?si2\<lparr>send := snd (compact_if_needed (send ?si2))\<rparr>)
           else if io_byte wr = 0 then (Inl (from_tls protocol_error), ?si2)
           else flush_loop L ?n ?si2)"
        using hp w Inr by (simp only: flush_loop.simps[of L n si] Let_def split: prod.split) simp
      show ?thesis
      proof (cases "closed wr \<or> io_want_read wr \<or> io_want_write wr \<or> io_byte wr = 0")
        case True
        then show ?thesis using 1(3) step t by (auto split: if_splits)
      next
        case False
        then have "flush_loop L ?n ?si2 = (res, si')" using 1(3) step by simp
        from 1(1)[OF _ w[symmetric] Inr refl refl refl _ _ _ 1(2) this] hp False
        have "same_peer L t (tls si') \<and> recv si' = recv si" by simp
        then show ?thesis using same_peer_trans[OF t] by blast
      qed
    qed
  qed
qed

lemma flush_send_same_peer:
  "peer_contract L sent \<Longrightarrow> flush_send L si = (res, si') \<Longrightarrow> same_peer L (tls si) (tls si') \<and> recv si' = recv si"
  using flush_loop_same_peer by (fastforce simp: flush_send_def split: if_splits)

lemma drain_loop_same_peer:
  fixes si :: "'s socket_info"
  assumes "peer_contract L sent" and ret: "drain_loop L ret si = Some out"
  shows "same_peer L (tls si) (tls (snd out))"
proof -
  define P :: "'s openssl \<Rightarrow> recv_info \<Rightarrow> 's socket_info \<Rightarrow>
      ((error_code + recv_info) \<times> 's socket_info) \<Rightarrow> bool"
    where "P L ret si out \<longleftrightarrow> (peer_contract L sent \<longrightarrow> same_peer L (tls si) (tls (snd out)))" for L ret si out
  have "P L ret si out"
  proof (rule drain_loop.raw_induct[where P = P, OF _ ret])
    fix f L ret si out
    assume IH: "\<And>L ret si out. f L ret si = Some out \<Longrightarrow> P L ret si out"
      and eq: "(let (res, tmp, t) = tls_read L BUF_SIZE (tls si); si1 = si\<lparr>tls := t\<rparr> in
        case res of
          Inl e \<Rightarrow> Some (Inl e, si1)
        | Inr rd \<Rightarrow>
            if io_byte rd > 0 then
              (let si2 = si1\<lparr>recv := recv_append (take (io_byte rd) tmp) (recv si1)\<rparr>;
                   ret2 = ret\<lparr>ri_byte := ri_byte ret + io_byte rd\<rparr>
               in if io_want_read rd \<or> io_want_write rd then Some (Inr ret2, si2)
                  else f L ret2 si2)
            else if closed rd then Some (Inr (ret\<lparr>ri_closed := True\<rparr>), si1)
            else Some (Inr ret, si1)) = Some out"
    obtain rres tmp t where rd: "tls_read L BUF_SIZE (tls si) = (rres, tmp, t)" by (metis prod.exhaust)
    have t: "peer_contract L sent \<longrightarrow> same_peer L (tls si) t"
      using tls_read_same_peer[of L sent "tls si" BUF_SIZE] rd by auto
    show "P L ret si out"
    proof (cases "\<exists>io. rres = Inr io \<and> 0 < io_byte io \<and> \<not> io_want_read io \<and> \<not> io_want_write io")
      case True
      then obtain io where io: "rres = Inr io" "0 < io_byte io" "\<not> io_want_read io" "\<not> io_want_write io"
        by blast
      let ?si2 = "si\<lparr>tls := t, recv := recv_append (take (io_byte io) tmp) (recv si)\<rparr>"
      have "f L (ret\<lparr>ri_byte := ri_byte ret + io_byte io\<rparr>) ?si2 = Some out"
        using eq io by (simp add: rd Let_def)
      then have "P L (ret\<lparr>ri_byte := ri_byte ret + io_byte io\<rparr>) ?si2 out" by (rule IH)
      then show ?thesis using t same_peer_trans[of L "tls si" t] by (auto simp: P_def)
    next
      case False
      then show ?thesis using eq t by (auto simp: rd Let_def P_def split: sum.splits if_splits)
    qed
  qed
  then show ?thesis using assms(1) by (simp add: P_def)
qed

definition client_safe :: "'s openssl \<Rightarrow> ('s \<Rightarrow> string) \<Rightarrow> string \<Rightarrow> 's client \<Rightarrow> bool" where
  "client_safe L sent d C \<longleftrightarrow> buf_ok (recv (c_si C)) \<and>
     (case ssl (tls (c_si C)) of
        None \<Rightarrow> False
      | Some s \<Rightarrow> if peer_verified C then handshake_done (tls (c_si C)) \<and> verdict L s else sent s = d)"

definition client_ready :: "'s client \<Rightarrow> bool" where
  "client_ready C \<longleftrightarrow> (handshake_done (tls (c_si C)) \<longrightarrow> peer_verified C)"

definition client_ok :: "'s openssl \<Rightarrow> ('s \<Rightarrow> string) \<Rightarrow> string \<Rightarrow> 's client \<Rightarrow> bool" where
  "client_ok L sent d C \<longleftrightarrow> client_safe L sent d C \<and> client_ready C"

lemma client_ok_same_peer:
  assumes "client_ok L sent d C" and "handshake_done (tls (c_si C))"
    and "same_peer L (tls (c_si C)) (tls (c_si C'))" and "peer_verified C' = peer_verified C"
    and "buf_ok (recv (c_si C'))"
  shows "client_ok L sent d C'"
  using assms
  by (auto simp: client_ok_def client_safe_def client_ready_def same_peer_def split: option.splits)

lemma client_ok_same_tls:
  assumes "client_ok L sent d C" and "tls (c_si C') = tls (c_si C)" and "recv (c_si C') = recv (c_si C)"
    and "peer_verified C' = peer_verified C"
  shows "client_ok L sent d C'"
  using assms by (auto simp: client_ok_def client_safe_def client_ready_def split: option.splits)

lemma client_ok_recv: "client_ok L sent d C \<Longrightarrow> buf_ok (recv (c_si C))"
  by (simp add: client_ok_def client_safe_def)

lemma client_execute_ok:
  assumes "client_ok L sent d C"
  shows "client_ok L sent d (client_execute line C)"
  by (rule client_ok_same_tls[OF assms]) (simp_all add: client_execute_sends sends_def split: option.split)

lemma client_flush_ok:
  assumes "peer_contract L sent" and "client_ok L sent d C" and "handshake_done (tls (c_si C))"
    and "client_flush L C = (res, C')"
  shows "client_ok L sent d C'"
proof -
  obtain fs si where f: "flush_send L (c_si C) = (fs, si)" by (metis prod.exhaust)
  have "C' = put_si si C" using assms(4) by (auto simp: client_flush_def f)
  then show ?thesis
    using flush_send_same_peer[OF assms(1) f] client_ok_recv[OF assms(2)]
    by (intro client_ok_same_peer[OF assms(2,3)]) simp_all
qed

lemma stdin_lines_ok:
  "peer_contract L sent \<Longrightarrow> client_ok L sent d C \<Longrightarrow> stdin_lines L C = (res, C') \<Longrightarrow> client_ok L sent d C'"
proof (induction L C arbitrary: res C' rule: stdin_lines.induct)
  case (1 L C)
  show ?case
  proof (cases "parse_line (stdin_buf C)")
    case None
    then show ?thesis using 1(6,7) by (simp add: stdin_lines.simps[of L C])
  next
    case (Some p)
    obtain line b where p: "p = (line, b)" by (cases p)
    let ?C1 = "C\<lparr>stdin_buf := b\<rparr>"
    let ?C2 = "client_execute line ?C1"
    have c1: "client_ok L sent d ?C1" by (rule client_ok_same_tls[OF 1(6)]) simp_all
    have c2: "client_ok L sent d ?C2" by (rule client_execute_ok[OF c1])
    note IH = 1(1-4)[OF Some p[symmetric] refl]
    consider (empty) "line = []"
      | (quiet) "line \<noteq> []" "\<not> has_pending (send (c_si ?C1)) \<and> \<not> has_pending (send (c_si ?C2))"
      | (early) "line \<noteq> []" "\<not> (\<not> has_pending (send (c_si ?C1)) \<and> \<not> has_pending (send (c_si ?C2)))"
          "\<not> is_handshake_done (tls (c_si ?C2))"
      | (flush) "line \<noteq> []" "\<not> (\<not> has_pending (send (c_si ?C1)) \<and> \<not> has_pending (send (c_si ?C2)))"
          "is_handshake_done (tls (c_si ?C2))" by blast
    then show ?thesis
    proof cases
      case empty
      then show ?thesis using IH(1)[OF empty 1(5) c1] 1(7) Some p by (simp add: stdin_lines.simps[of L C])
    next
      case quiet
      then show ?thesis using IH(2)[OF quiet(1) refl refl quiet(2) 1(5) c2] 1(7) Some p
        by (simp add: stdin_lines.simps[of L C] Let_def)
    next
      case early
      then show ?thesis using IH(3)[OF early(1) refl refl early(2,3) 1(5) c2] 1(7) Some p
        by (auto simp: stdin_lines.simps[of L C] Let_def)
    next
      case flush
      obtain fr C3 where f: "client_flush L ?C2 = (fr, C3)" by (metis prod.exhaust)
      have c3: "client_ok L sent d C3" using client_flush_ok[OF 1(5) c2 _ f] flush(3) by simp
      show ?thesis
      proof (cases fr)
        case (Inl e)
        then show ?thesis using flush 1(7) Some p f c3 by (auto simp: stdin_lines.simps[of L C] Let_def)
      next
        case (Inr u)
        then show ?thesis using IH(4)[OF flush(1) refl refl flush(2) _ _ _ 1(5) c3] flush 1(7) Some p f
          by (auto simp: stdin_lines.simps[of L C] Let_def)
      qed
    qed
  qed
qed

lemma turn_stdin_ok:
  assumes "peer_contract L sent" and "client_ok L sent d C" and "turn_stdin L t eof C = (res, C')"
  shows "client_ok L sent d C'"
proof -
  have "client_ok L sent d (C\<lparr>stdin_buf := b\<rparr>)" for b by (rule client_ok_same_tls[OF assms(2)]) simp_all
  note lines = stdin_lines_ok[OF assms(1) this]
  show ?thesis using assms(2,3) lines
    by (auto simp: turn_stdin_def send_stdin_def split: if_splits sum.splits)
qed

lemma handshake_sent:
  assumes "peer_contract L sent" and "ssl t = Some s" and "handshake L t = (res, t')"
  shows "\<exists>s'. ssl t' = Some s' \<and> sent s' = sent s"
  using assms by (auto simp: handshake_def peer_contract_def Let_def case_prod_beta split: if_splits)

lemma verify_peer_verdict: "verify_peer L t = Inr u \<Longrightarrow> ssl t = Some s \<Longrightarrow> verdict L s"
  by (auto simp: verify_peer_def verdict_def Let_def split: if_splits)

lemma client_progress_ok:
  assumes "peer_contract L sent" and "client_safe L sent d C" and "client_progress L C = (res, C')"
  shows "client_safe L sent d C'" and "res = Inr u \<Longrightarrow> client_ok L sent d C'"
proof -
  obtain s where s: "ssl (tls (c_si C)) = Some s" and b: "buf_ok (recv (c_si C))"
    and v: "if peer_verified C then handshake_done (tls (c_si C)) \<and> verdict L s else sent s = d"
    using assms(2) by (auto simp: client_safe_def split: option.splits)
  have "client_safe L sent d C' \<and> (res = Inr u \<longrightarrow> client_ok L sent d C')"
  proof (cases "handshake_done (tls (c_si C))")
    case True
    then have "C' = C \<or> C' = C\<lparr>peer_verified := True\<rparr> \<and> verify_peer L (tls (c_si C)) = Inr ()"
      "res = Inr u \<longrightarrow> peer_verified C'"
      using assms(3) by (auto simp: client_progress_def split: if_splits sum.splits)
    then show ?thesis using assms(2) True s verify_peer_verdict[OF _ s]
      by (auto simp: client_ok_def client_ready_def client_safe_def)
  next
    case False
    obtain hs t where h: "handshake L (tls (c_si C)) = (hs, t)" by (metis prod.exhaust)
    obtain s' where s': "ssl t = Some s'" "sent s' = d"
      using handshake_sent[OF assms(1) s h] v False by (auto split: if_splits)
    let ?C1 = "put_si ((c_si C)\<lparr>tls := t\<rparr>) C"
    have nv: "\<not> peer_verified C" using v False by auto
    have safe: "client_safe L sent d ?C1" using b s' nv by (simp add: client_safe_def)
    have ver: "client_ok L sent d (?C1\<lparr>peer_verified := True\<rparr>)"
      if "handshake_done t" "verify_peer L t = Inr w" for w
      using b s'(1) verify_peer_verdict[OF that(2) s'(1)] that(1)
      by (simp add: client_ok_def client_safe_def client_ready_def)
    have ready: "client_ok L sent d ?C1" if "\<not> handshake_done t"
      using safe that by (simp add: client_ok_def client_ready_def)
    show ?thesis using assms(3) False h safe ver ready
      by (auto simp: client_progress_def Let_def client_ok_def split: sum.splits if_splits)
  qed
  then show "client_safe L sent d C'" and "res = Inr u \<Longrightarrow> client_ok L sent d C'" by blast+
qed

lemma turn_handshake_ok:
  assumes "peer_contract L sent" and "client_ok L sent d C" and "turn_handshake L t C = (res, C')"
  shows "client_safe L sent d C'" and "res = Inr u \<Longrightarrow> client_ok L sent d C'"
proof -
  obtain hs C1 where h: "client_progress L C = (hs, C1)" by (metis prod.exhaust)
  have safe: "client_safe L sent d C" using assms(2) by (simp add: client_ok_def)
  note p = client_progress_ok[OF assms(1) safe h]
  have "client_safe L sent d C' \<and> (res = Inr u \<longrightarrow> client_ok L sent d C')"
    using assms(2,3) p safe
    by (cases hs) (auto simp: turn_handshake_def h split: if_splits)
  then show "client_safe L sent d C'" and "res = Inr u \<Longrightarrow> client_ok L sent d C'" by blast+
qed

lemma turn_flush_ok:
  assumes "peer_contract L sent" and "client_ok L sent d C" and "turn_flush L t C = (res, C')"
  shows "client_ok L sent d C'"
  using assms client_flush_ok[OF assms(1,2)]
  by (auto simp: turn_flush_def flush_pending_send_def split: if_splits)

lemma client_lines_keeps:
  "buf_ok (recv (c_si C)) \<Longrightarrow> buf_ok (recv (c_si (client_lines C))) \<and>
     tls (c_si (client_lines C)) = tls (c_si C) \<and> peer_verified (client_lines C) = peer_verified C"
proof (induction C rule: client_lines.induct)
  case (1 C)
  show ?case
  proof (cases "parse_line (recv (c_si C))")
    case None
    then show ?thesis using 1(2) by (simp add: client_lines.simps[of C])
  next
    case (Some p)
    obtain line b where p: "p = (line, b)" by (cases p)
    have "buf_ok b" using parse_line_Some(3) Some p by blast
    then show ?thesis using 1(1)[OF Some p[symmetric] refl] Some p
      by (cases "decode line") (simp_all add: client_lines.simps[of C])
  qed
qed

text \<open>Receiving needs what OpenSSL promises about the bytes it delivers.\<close>

lemma turn_recv_ok:
  assumes "peer_contract L sent" and "read_contract L got" and "read_progress L left"
    and "client_ok L sent d C"
  shows "\<exists>res C'. turn_recv L t C = Some (res, C') \<and> client_ok L sent d C'"
proof (cases "is_handshake_done (tls (c_si C)) \<and> sock_revents t AND (POLLIN OR POLLHUP) \<noteq> 0")
  case False
  then show ?thesis using assms(4) by (auto simp: turn_recv_def)
next
  case True
  obtain s where s: "ssl (tls (c_si C)) = Some s"
    using assms(4) by (auto simp: client_ok_def client_safe_def split: option.splits)
  let ?ret = "\<lparr>ri_byte = 0, ri_closed = False\<rparr>"
  obtain dr si where dr: "drain_loop L ?ret (c_si C) = Some (dr, si)"
    using drain_loop_total[OF assms(2,3) s, of ?ret] by auto
  have b: "buf_ok (recv si)"
    using drain_loop_exact[OF dr assms(2) client_ok_recv[OF assms(4)]] s by (auto simp: received_def)
  have p: "same_peer L (tls (c_si C)) (tls si)" using drain_loop_same_peer[OF assms(1) dr] by simp
  have ok: "client_ok L sent d (put_si si C)"
    using True b p by (intro client_ok_same_peer[OF assms(4)]) simp_all
  have "recv_socket L C = Some (case dr of Inl e \<Rightarrow> Inl e | Inr ri \<Rightarrow> Inr (ri_closed ri), put_si si C)"
    using dr s by (simp add: recv_socket_def drain_recv_def)
  moreover have "client_ok L sent d (client_lines (put_si si C))"
    using client_lines_keeps[of "put_si si C"] b True ok p
    by (intro client_ok_same_peer[OF ok]) (simp_all add: same_peer_def)
  ultimately show ?thesis using True ok by (cases dr) (auto simp: turn_recv_def)
qed

lemma client_turn_ok:
  assumes "peer_contract L sent" and "read_contract L got" and "read_progress L left"
    and "client_ok L sent d C"
  shows "\<exists>res eof' C'. client_turn L t eof C = Some (res, eof', C') \<and> client_safe L sent d C' \<and>
    ((\<forall>e. res \<noteq> turn_fail e) \<longrightarrow> client_ok L sent d C')"
proof -
  obtain r1 C1 where a: "turn_stdin L t eof C = (r1, C1)" by (metis prod.exhaust)
  have ok1: "client_ok L sent d C1" by (rule turn_stdin_ok[OF assms(1,4) a])
  obtain r2 C2 where b: "turn_handshake L t C1 = (r2, C2)" by (metis prod.exhaust)
  note ok2 = turn_handshake_ok[OF assms(1) ok1 b]
  have safe1: "client_safe L sent d C1" using ok1 by (simp add: client_ok_def)
  show ?thesis
  proof (cases "(\<exists>e. r1 = Inl e) \<or> sock_revents t AND POLLERR \<noteq> 0 \<or> (\<exists>e. r2 = Inl e)")
    case True
    then show ?thesis using a b safe1 ok2(1)
      by (cases r1; cases r2; cases "sock_revents t AND POLLERR = 0") (auto simp: client_turn_def Let_def)
  next
    case False
    then obtain at_eof u where r: "r1 = Inr at_eof" "r2 = Inr u" by (cases r1; cases r2) auto
    obtain r3 C3 where c: "turn_flush L t C2 = (r3, C3)" by (metis prod.exhaust)
    have ok3: "client_ok L sent d C3" by (rule turn_flush_ok[OF assms(1) ok2(2)[OF r(2)] c])
    obtain r4 C4 where e: "turn_recv L t C3 = Some (r4, C4)" "client_ok L sent d C4"
      using turn_recv_ok[OF assms(1-3) ok3] by blast
    have "client_safe L sent d C3" "client_safe L sent d C4" using ok3 e(2) by (simp_all add: client_ok_def)
    then show ?thesis using False a b c e r ok3
      by (cases r3) (auto simp: client_turn_def Let_def)
  qed
qed

lemma client_finish_ok:
  assumes "peer_contract L sent" and "client_ok L sent d C"
  shows "client_ok L sent d (client_finish L C)"
  using assms(2) tls_shutdown_same_peer[OF assms(1)] client_ok_recv[OF assms(2)]
  by (auto simp: client_finish_def Let_def intro: client_ok_same_peer[OF assms(2)])

lemma chat_run_step_ok: "client_ok L sent d C \<Longrightarrow> client_ok L sent d (chat_run_step C)"
  by (rule client_ok_same_tls, assumption)
     (auto simp: chat_run_step_def chat_execute_def split: wait_outcome.splits command.splits prod.splits)

lemma client_loop_safe:
  assumes "peer_contract L sent" and "read_contract L got" and "read_progress L left"
  shows "client_ok L sent d C \<Longrightarrow> \<exists>r C'. client_loop L es eof C = Some (r, C') \<and> client_safe L sent d C'"
proof (induction es arbitrary: eof C)
  case Nil
  then show ?case by (simp add: client_ok_def)
next
  case (Cons ev es)
  show ?case
  proof (cases ev)
    case io_stop
    then show ?thesis using client_finish_ok[OF assms(1) Cons.prems] by (simp add: client_ok_def)
  next
    case (io_poll_error ec)
    then show ?thesis using Cons.IH[OF Cons.prems] Cons.prems by (simp add: client_ok_def)
  next
    case executor_step
    then show ?thesis using Cons.IH[OF chat_run_step_ok[OF Cons.prems]] by simp
  next
    case (io_turn t)
    obtain res eof' C' where t: "client_turn L t eof C = Some (res, eof', C')" "client_safe L sent d C'"
      "(\<forall>e. res \<noteq> turn_fail e) \<longrightarrow> client_ok L sent d C'"
      using client_turn_ok[OF assms Cons.prems] by blast
    show ?thesis
    proof (cases res)
      case turn_next
      then show ?thesis using t Cons.IH[of C' eof'] io_turn by simp
    next
      case turn_break
      then show ?thesis using t client_finish_ok[OF assms(1)] io_turn by (simp add: client_ok_def)
    next
      case (turn_fail e)
      then show ?thesis using t io_turn by simp
    qed
  qed
qed

subsection \<open>Properties of the client\<close>

text \<open>
  C5. The client sends nothing before it has verified the server. However the user types and the
  network behaves, and whether or not the run has failed meanwhile: if OpenSSL has accepted even one
  byte of what was typed, then the server presented a certificate and its verification result is
  \<open>X509_V_OK\<close>. The run itself always returns or waits: no turn hangs.
\<close>

theorem nothing_sent_before_verification:
  assumes "peer_contract L sent" and "read_contract L got" and "read_progress L left"
    and "ssl (tls si) = Some s0" and "\<not> handshake_done (tls si)" and "buf_ok (recv si)"
  shows "\<exists>r C s. client_run L es (client_init si) = Some (r, C) \<and> ssl (tls (c_si C)) = Some s \<and>
    (sent s \<noteq> sent s0 \<longrightarrow> has_peer_certificate L s \<and> verify_result L s = X509_V_OK)"
proof -
  have start: "client_safe L sent (sent s0) (client_init si)"
    using assms(4,6) by (simp add: client_safe_def client_init_def)
  obtain hs C1 where p: "client_progress L (client_init si) = (hs, C1)" by (metis prod.exhaust)
  note ok = client_progress_ok[OF assms(1) start p]
  obtain r C where r: "client_run L es (client_init si) = Some (r, C)" "client_safe L sent (sent s0) C"
  proof (cases hs)
    case (Inl e)
    then show ?thesis using that p ok(1) by (simp add: client_run_def)
  next
    case (Inr u)
    obtain r C where "client_loop L es False C1 = Some (r, C)" "client_safe L sent (sent s0) C"
      using client_loop_safe[OF assms(1-3) ok(2)[OF Inr]] by blast
    then show ?thesis using that p Inr by (simp add: client_run_def)
  qed
  then show ?thesis by (auto simp: client_safe_def verdict_def split: option.splits if_splits)
qed

text \<open>
  C29. What the user types is what the server is asked to do. A line without carriage returns puts at
  most one command into the send buffer, the one that the table of commands gives for its words
  (nothing before the login, chat text only when a room is selected), and the server decodes the
  line that is sent to exactly that command.
\<close>

theorem typed_lines_become_commands:
  assumes "plain line" and "buf_ok (send (c_si C))"
  shows "case typed_command (logged_in C) (selected_room_id C) line of
      None \<Rightarrow> c_si (client_execute line C) = c_si C
    | Some c \<Rightarrow> pending (send (c_si (client_execute line C))) = pending (send (c_si C)) @ encode c \<and>
        decode (butlast (encode c)) = Inr c"
proof (cases "typed_command (logged_in C) (selected_room_id C) line")
  case None
  then show ?thesis by (simp add: client_execute_sends)
next
  case (Some c)
  have "wf_command c \<and> line_safe c" using clean_command_wf[OF typed_command_clean[OF Some assms(1)]] .
  then show ?thesis using assms(2)
    by (simp add: client_execute_sends Some send_append_cmd_def decode_butlast_encode encode_one_line)
qed

theorem typed_lines_become_commands_witness:
  "decode (butlast (encode (cmd_friend_request ''bob''))) = Inr (cmd_friend_request ''bob'') \<and>
   typed_command True None ''/friend_request  bob'' = Some (cmd_friend_request ''bob'')"
proof -
  let ?C = "(client_init (pipe_socket [] []))\<lparr>logged_in := True\<rparr>"
  have t: "typed_command True None ''/friend_request  bob'' = Some (cmd_friend_request ''bob'')"
    by (simp add: typed_command_def blank_words_def command_tables)
  then have c: "typed_command (logged_in ?C) (selected_room_id ?C) ''/friend_request  bob'' = Some (cmd_friend_request ''bob'')"
    by (simp add: client_init_def)
  have p: "plain ''/friend_request  bob''" by simp
  have b: "buf_ok (send (c_si ?C))" by (simp add: client_init_def pipe_socket_def buf_ok_def)
  from typed_lines_become_commands[OF p b] show ?thesis unfolding c option.case using t by blast
qed

lemma pipe_peer_contract: "peer_contract pipe_ssl (snd \<circ> snd)"
  by (auto simp: peer_contract_def verdict_def pipe_ssl_def)

definition typing_turn :: poll_turn where
  "typing_turn = \<lparr>stdin_revents = POLLIN, sock_revents = POLLOUT,
     stdin_read = Inr (''/login ann x'' @ [LF]), sock_error = Inr 0\<rparr>"

theorem nothing_sent_before_verification_witness:
  "\<exists>r C s. client_run pipe_ssl [io_turn typing_turn, executor_step, io_stop]
       (client_init ((pipe_socket [] [])\<lparr>tls := (pipe_session [])\<lparr>handshake_done := False\<rparr>\<rparr>)) = Some (r, C) \<and>
     ssl (tls (c_si C)) = Some s \<and> (snd (snd s) \<noteq> [] \<longrightarrow> has_peer_certificate pipe_ssl s)"
proof -
  let ?si = "(pipe_socket [] [])\<lparr>tls := (pipe_session [])\<lparr>handshake_done := False\<rparr>\<rparr>"
  have h: "ssl (tls ?si) = Some ([], [], [])" "\<not> handshake_done (tls ?si)" "buf_ok (recv ?si)"
    by (simp_all add: pipe_session_def pipe_socket_def)
  from nothing_sent_before_verification[OF pipe_peer_contract pipe_read_contract pipe_read_progress h,
      of "[io_turn typing_turn, executor_step, io_stop]"] show ?thesis by auto
qed

text \<open>
  A carriage return inside a chat message loses it. The client sends the typed text as it is, the
  byte separates fields in the protocol, and the server rejects the line with too many arguments:
  nobody is told.
\<close>

theorem carriage_return_loses_message:
  assumes "clean a" and "clean b" and "logged_in C" and "selected_room_id C = Some r"
    and "hd (a @ b) \<noteq> space" and "hd a \<noteq> CHR ''/''" and "buf_ok (send (c_si C))"
  shows "\<exists>wire. pending (send (c_si (client_execute (a @ CR # b) C))) = pending (send (c_si C)) @ wire @ [LF] \<and>
    LF \<notin> set wire \<and> decode wire = Inl (from_decode unexpected_argument)"
proof -
  let ?line = "a @ CR # b" and ?c = "cmd_say (to_string r) (a @ CR # b)"
  let ?wire = "join_cr [''say'', to_string r, a, b]"
  have a: "a \<noteq> []" "b \<noteq> []" using assms(1,2) by (auto simp: clean_def)
  have h: "?line \<noteq> []" "hd ?line \<noteq> space" using a assms(5) by auto
  have "hd (takeWhile (\<lambda>c. c \<noteq> space) ?line) = hd a" using h(2) a(1) by (cases a) auto
  then have "typed_command (logged_in C) (selected_room_id C) ?line = Some ?c"
    using assms(3,4,6) blank_words_step[OF h] by (simp add: typed_command_def)
  then have "pending (send (c_si (client_execute ?line C))) = pending (send (c_si C)) @ encode ?c"
    using assms(7) by (simp add: client_execute_sends send_append_cmd_def)
  moreover have "encode ?c = ?wire @ [LF]" by simp
  moreover have f: "fields_of ?wire = [''say'', to_string r, a, b]"
    using assms(1,2) clean_to_string[of r]
    by (subst fields_of_join_iff) (auto simp: clean_def wf_field_def dest: hd_in_set)
  have lf: "LF \<notin> set ?wire" using assms(1,2) clean_to_string[of r] by (simp add: LF_join clean_def del: join_cr.simps clean_to_string)
  have "decode ?wire = Inl (from_decode unexpected_argument)"
  proof (cases "decode ?wire")
    case (Inl e)
    have "erase_delimeter ?wire = ?wire" using lf last_in_set by (fastforce simp: erase_delimeter_def)
    then show ?thesis using decode_known[of ?wire "''say''" "[to_string r, a, b]" e] f Inl
      by (simp add: known_names_def del: join_cr.simps)
  next
    case (Inr c)
    have "erase_delimeter ?wire = ?wire" using lf last_in_set by (fastforce simp: erase_delimeter_def)
    then have "fields_of ?wire = cmd_name c # cmd_fields c" using Inr decode_Inr_iff by metis
    then show ?thesis using f by (cases c) simp_all
  qed
  ultimately show ?thesis using lf by (intro exI[of _ ?wire]) simp
qed

theorem carriage_return_loses_message_witness:
  "\<exists>wire. decode wire = Inl (from_decode unexpected_argument) \<and>
     pending (send (c_si (client_execute (''hi'' @ CR # ''all'')
       ((client_init (pipe_socket [] []))\<lparr>logged_in := True, selected_room_id := Some 4\<rparr>)))) = wire @ [LF]"
proof -
  let ?C = "(client_init (pipe_socket [] []))\<lparr>logged_in := True, selected_room_id := Some 4\<rparr>"
  have h: "clean ''hi''" "clean ''all''" "logged_in ?C" "selected_room_id ?C = Some 4"
    "hd (''hi'' @ ''all'') \<noteq> space" "hd ''hi'' \<noteq> CHR ''/''" "buf_ok (send (c_si ?C))"
    by (simp_all add: clean_def client_init_def pipe_socket_def buf_ok_def)
  have "pending (send (c_si ?C)) = []" by (simp add: client_init_def pipe_socket_def pending_def)
  with carriage_return_loses_message[OF h] show ?thesis by auto
qed

subsection \<open>A session at the terminal\<close>

text \<open>The commands that a list of typed lines sends.\<close>

fun commands_typed :: "'s client \<Rightarrow> string list \<Rightarrow> command list" where
  "commands_typed C [] = []"
| "commands_typed C (l # ls) =
     (case typed_command (logged_in C) (selected_room_id C) l of None \<Rightarrow> [] | Some c \<Rightarrow> [c]) @
     commands_typed (client_execute l C) ls"

lemma typed_lines_pending:
  "buf_ok (send (c_si C)) \<Longrightarrow>
   pending (send (c_si (fold client_execute ls C))) =
     pending (send (c_si C)) @ concat (map encode (commands_typed C ls))"
proof (induction ls arbitrary: C)
  case (Cons l ls)
  have "buf_ok (send (c_si (client_execute l C)))"
    using Cons.prems by (simp add: client_execute_sends sends_def send_append_cmd_def split: option.split)
  note IH = Cons.IH[OF this]
  show ?case
    using Cons.prems by (auto simp: IH client_execute_sends sends_def send_append_cmd_def split: option.split)
qed simp

lemma commands_typed_clean: "\<forall>l \<in> set ls. plain l \<Longrightarrow> c \<in> set (commands_typed C ls) \<Longrightarrow> clean_command c"
  by (induction ls arbitrary: C) (auto split: option.splits dest: typed_command_clean[OF sym])

lemma typed_is_db: "typed_command l r line = Some c \<Longrightarrow> is_db_command c"
proof -
  assume t: "typed_command l r line = Some c"
  then obtain name a where w: "blank_words line = name # a"
    by (auto simp: typed_command_def split: list.splits)
  consider q where "c = cmd_say q line" | "slash_command name a = Some c"
    using t by (auto simp: typed_command_def w split: if_splits)
  then show ?thesis
  proof cases
    case 2
    then have "c \<in> snd ` set commands_0 \<or> (\<exists>x f. f \<in> snd ` set commands_1 \<and> c = f x) \<or>
        (\<exists>x y f. f \<in> snd ` set commands_2 \<and> c = f x y)"
      by (force simp: slash_command_def dest!: map_of_SomeD split: list.splits)
    then show ?thesis by (auto simp: commands_0_def commands_1_def commands_2_def)
  qed simp
qed

lemma commands_typed_db: "filter is_db_command (commands_typed C ls) = commands_typed C ls"
  by (induction ls arbitrary: C) (auto split: option.splits dest: typed_is_db)

end
