(* ===== verification/End_To_End.thy ===== *)
theory End_To_End
  imports Server_Properties Chat_Client
begin

section \<open>From the keyboard to the database workers\<close>

text \<open>
  The client's terminal, the wire and the server's event loop together: what a user types becomes, in
  order, the tasks of the database workers, however the bytes are cut into reads.
\<close>

text \<open>
  A connection's bytes arrive in chunks; after each the lines that have become complete are executed.
\<close>

fun serve_chunks ::
  "('k, 's) env \<Rightarrow> fd \<Rightarrow> string list \<Rightarrow> ('k, 's) server \<Rightarrow> ('k, 's) server option" where
  "serve_chunks E f [] S = Some S"
| "serve_chunks E f (chunk # chunks) S = do {
     si \<leftarrow> info (registry_of S) f;
     let si1 = si\<lparr>recv := recv_append chunk (recv si)\<rparr>;
     S1 \<leftarrow> execute_loop E f (put_registry (put_info f si1 (registry_of S)) S);
     serve_chunks E f chunks S1
   }"

lemma commands_of_append: "commands_of (xs @ ys) = commands_of xs @ commands_of ys"
  by (simp add: commands_of_def)

lemma serve_chunks_tasks:
  "info (registry_of S) f = Some si \<Longrightarrow> ufd si = f \<Longrightarrow> run (db_pool_of S) \<Longrightarrow> buf_ok (recv si) \<Longrightarrow>
   LF \<notin> set (pending (recv si)) \<Longrightarrow>
   \<exists>S'. serve_chunks E f chunks S = Some S' \<and>
     tasks (db_pool_of S') = tasks (db_pool_of S) @
       map (\<lambda>c. \<lparr>t_cmd = c, t_fd = f, t_user_id = user_id si\<rparr>)
         (filter is_db_command (commands_of (fst (split_lines (pending (recv si) @ concat chunks)))))"
proof (induction chunks arbitrary: S si)
  case Nil
  then show ?case by (simp add: split_lines_no_LF)
next
  case (Cons chunk chunks)
  let ?si = "si\<lparr>recv := recv_append chunk (recv si)\<rparr>"
  let ?S = "put_registry (put_info f ?si (registry_of S)) S"
  have i: "info (registry_of ?S) f = Some ?si" "ufd ?si = f" "run (db_pool_of ?S)"
    using Cons.prems by (simp_all add: put_registry_def)
  obtain S1 where S1: "execute_loop E f ?S = Some S1" "loop_effect f ?S ?si S1"
    using execute_loop_effect[OF i] by blast
  let ?p = "pending (recv si) @ chunk"
  have p: "pending (recv ?si) = ?p" "buf_ok (recv ?si)" using Cons.prems(4) by simp_all
  obtain b where b: "info (registry_of S1) f = Some (?si\<lparr>recv := b\<rparr>)" "pending b = snd (split_lines ?p)" "buf_ok b"
    and t: "run (db_pool_of S1)" "tasks (db_pool_of S1) = tasks (db_pool_of S) @
        map (\<lambda>c. \<lparr>t_cmd = c, t_fd = f, t_user_id = user_id si\<rparr>) (filter is_db_command (commands_of (fst (split_lines ?p))))"
    using S1(2) p by (auto simp: loop_effect_def Let_def case_prod_beta put_registry_def)
  let ?sb = "?si\<lparr>recv := b\<rparr>"
  have sb: "ufd ?sb = f" "buf_ok (recv ?sb)" "LF \<notin> set (pending (recv ?sb))"
    using b(3) i(2) by (simp_all add: b(2) split_lines_rest)
  from Cons.IH[OF b(1) sb(1) t(1) sb(2,3)] b(2) obtain S2 where
    S2: "serve_chunks E f chunks S1 = Some S2" "tasks (db_pool_of S2) = tasks (db_pool_of S1) @
      map (\<lambda>c. \<lparr>t_cmd = c, t_fd = f, t_user_id = user_id si\<rparr>)
        (filter is_db_command (commands_of (fst (split_lines (snd (split_lines ?p) @ concat chunks)))))"
    by auto
  have "fst (split_lines (?p @ concat chunks)) =
      fst (split_lines ?p) @ fst (split_lines (snd (split_lines ?p) @ concat chunks))"
    by (subst split_lines_append) simp
  then show ?case using Cons.prems(1) S1(1) S2 t(2) by (simp add: commands_of_append)
qed

lemma commands_of_encode: "\<forall>c \<in> set cs. clean_command c \<Longrightarrow> commands_of (map (\<lambda>c. butlast (encode c)) cs) = cs"
proof (induction cs)
  case (Cons c cs)
  have "wf_command c \<and> line_safe c" using clean_command_wf Cons.prems by simp
  then show ?case using Cons by (simp add: decode_butlast_encode encode_one_line)
qed simp



subsection \<open>From the server's answers to the screen\<close>

text \<open>
  At the client, bytes arrive in chunks, the I/O thread queues the complete lines, and the executor
  thread takes commands from the queue, in any interleaving.
\<close>

datatype client_input = chunk_arrives string | executor_runs

definition client_recv :: "string \<Rightarrow> 's client \<Rightarrow> 's client" where
  "client_recv bytes C = client_lines (put_si ((c_si C)\<lparr>recv := recv_append bytes (recv (c_si C))\<rparr>) C)"

fun client_inputs :: "client_input list \<Rightarrow> 's client \<Rightarrow> 's client" where
  "client_inputs [] C = C"
| "client_inputs (chunk_arrives bytes # is) C = client_inputs is (client_recv bytes C)"
| "client_inputs (executor_runs # is) C = client_inputs is (chat_run_step C)"

fun arrived :: "client_input list \<Rightarrow> string" where
  "arrived [] = []"
| "arrived (chunk_arrives bytes # is) = bytes @ arrived is"
| "arrived (executor_runs # is) = arrived is"

text \<open>What the user sees of a command: the line printed, and whether the client counts as logged in.\<close>

fun shown :: "command \<Rightarrow> string list \<times> bool \<Rightarrow> string list \<times> bool" where
  "shown (cmd_response line) (printed, lg) =
     (printed @ [line], if line = ''login success'' then True else if line = ''login failed'' then False else lg)"
| "shown c v = v"

definition screen :: "'s client \<Rightarrow> string list \<times> bool" where
  "screen C = (console C, logged_in C)"

abbreviation queued :: "'s client \<Rightarrow> command list" where
  "queued C \<equiv> execute_q (execute_queue C)"

lemma screen_chat_execute: "screen (chat_execute c C) = shown c (screen C)"
  by (cases c) (simp_all add: chat_execute_def screen_def print_line_def)

lemma chat_run_step_screen:
  "queued (chat_run_step C) = tl (queued C)"
  "fold shown (queued (chat_run_step C)) (screen (chat_run_step C)) = fold shown (queued C) (screen C)"
  "c_si (chat_run_step C) = c_si C"
proof -
  have keep: "execute_queue (chat_execute c C) = execute_queue C \<and> c_si (chat_execute c C) = c_si C" for c and C :: "'s client"
    by (cases c) (simp_all add: chat_execute_def print_line_def)
  have "screen (C\<lparr>execute_queue := q\<rparr>) = screen C" for q by (simp add: screen_def)
  then show "queued (chat_run_step C) = tl (queued C)"
    "fold shown (queued (chat_run_step C)) (screen (chat_run_step C)) = fold shown (queued C) (screen C)"
    "c_si (chat_run_step C) = c_si C"
    by (cases "queued C"; simp add: chat_run_step_def chat_wait_def keep screen_chat_execute)+
qed

lemma client_lines_effect:
  "buf_ok (recv (c_si C)) \<Longrightarrow>
   queued (client_lines C) = queued C @ commands_of (fst (split_lines (pending (recv (c_si C))))) \<and>
   pending (recv (c_si (client_lines C))) = snd (split_lines (pending (recv (c_si C)))) \<and>
   buf_ok (recv (c_si (client_lines C))) \<and> screen (client_lines C) = screen C"
proof (induction C rule: client_lines.induct)
  case (1 C)
  show ?case
  proof (cases "parse_line (recv (c_si C))")
    case None
    then have "LF \<notin> set (pending (recv (c_si C)))" by (simp add: parse_line_None)
    then show ?thesis using None 1(2) by (simp add: client_lines.simps[of C] split_lines_no_LF)
  next
    case (Some p)
    obtain line b where p: "parse_line (recv (c_si C)) = Some (line, b)" using Some by (cases p) simp
    note v = parse_line_Some[OF p]
    have split: "split_lines (pending (recv (c_si C))) =
        (line # fst (split_lines (pending b)), snd (split_lines (pending b)))"
      unfolding v(1) by (rule split_lines_line[OF v(2)])
    let ?C1 = "put_si ((c_si C)\<lparr>recv := b\<rparr>) C"
    let ?C2 = "case decode line of Inl _ \<Rightarrow> ?C1 | Inr c \<Rightarrow> ?C1\<lparr>execute_queue := request_execute c (execute_queue ?C1)\<rparr>"
    have C2: "recv (c_si ?C2) = b" "queued ?C2 = queued C @ commands_of [line]" "screen ?C2 = screen C"
      by (auto simp: request_execute_def screen_def split: sum.split)
    have eq: "client_lines C = client_lines ?C2" using p by (simp add: client_lines.simps[of C] Let_def)
    from 1(1)[OF p refl refl] v(3) C2 show ?thesis unfolding eq split by simp
  qed
qed

lemma client_recv_effect:
  assumes "buf_ok (recv (c_si C))"
  shows "queued (client_recv bytes C) =
      queued C @ commands_of (fst (split_lines (pending (recv (c_si C)) @ bytes)))"
    and "pending (recv (c_si (client_recv bytes C))) = snd (split_lines (pending (recv (c_si C)) @ bytes))"
    and "buf_ok (recv (c_si (client_recv bytes C)))"
    and "screen (client_recv bytes C) = screen C"
proof -
  let ?C0 = "put_si ((c_si C)\<lparr>recv := recv_append bytes (recv (c_si C))\<rparr>) C"
  have "buf_ok (recv (c_si ?C0))" "pending (recv (c_si ?C0)) = pending (recv (c_si C)) @ bytes"
    "queued ?C0 = queued C" "screen ?C0 = screen C" using assms by (simp_all add: screen_def)
  then show "queued (client_recv bytes C) =
      queued C @ commands_of (fst (split_lines (pending (recv (c_si C)) @ bytes)))"
    "pending (recv (c_si (client_recv bytes C))) = snd (split_lines (pending (recv (c_si C)) @ bytes))"
    "buf_ok (recv (c_si (client_recv bytes C)))" "screen (client_recv bytes C) = screen C"
    using client_lines_effect[of ?C0] by (simp_all add: client_recv_def)
qed

lemma client_inputs_screen:
  assumes "buf_ok (recv (c_si C))" and "LF \<notin> set (pending (recv (c_si C)))"
  shows "fold shown (queued (client_inputs is C)) (screen (client_inputs is C)) =
    fold shown (queued C @ commands_of (fst (split_lines (pending (recv (c_si C)) @ arrived is)))) (screen C)"
  using assms
proof (induction "is" C rule: client_inputs.induct)
  case (1 C)
  then show ?case by (simp add: split_lines_no_LF)
next
  case (2 bytes "is" C)
  let ?s = "split_lines (pending (recv (c_si C)) @ bytes)"
  note e = client_recv_effect[OF 2(2), of bytes]
  have "LF \<notin> set (pending (recv (c_si (client_recv bytes C))))" by (simp add: e(2) split_lines_rest)
  note IH = 2(1)[OF e(3) this]
  have "split_lines ((pending (recv (c_si C)) @ bytes) @ arrived is) =
      (fst ?s @ fst (split_lines (snd ?s @ arrived is)), snd (split_lines (snd ?s @ arrived is)))"
    by (rule split_lines_append)
  then show ?case using IH by (simp add: e commands_of_append)
next
  case (3 "is" C)
  then show ?case using chat_run_step_screen(3)[of C] by (simp add: chat_run_step_screen(2))
qed

text \<open>
  C7. What the server answers is what the user sees. When the bytes of well-formed commands arrive at
  the client in any chunks, interleaved in any way with the executor thread, then as soon as the
  executor has emptied its queue the texts of the responses have been printed, once each and in
  order, nothing else has been printed, and the client counts as logged in exactly if the last
  login reply says so.
\<close>

theorem answers_reach_screen:
  assumes "\<forall>c \<in> set cs. clean_command c" and "arrived is = concat (map encode cs)"
    and "buf_ok (recv (c_si C))" and "pending (recv (c_si C)) = []" and "queued C = []"
    and "queued (client_inputs is C) = []"
  shows "(console (client_inputs is C), logged_in (client_inputs is C)) = fold shown cs (console C, logged_in C)"
proof -
  have wf: "\<forall>c \<in> set cs. wf_command c \<and> line_safe c" using assms(1) clean_command_wf by blast
  then have "commands_of (fst (split_lines (arrived is))) = cs"
    using commands_of_encode[OF assms(1)] by (simp add: assms(2) split_lines_encode encode_one_line)
  then show ?thesis
    using client_inputs_screen[OF assms(3), of "is"] assms(4-6) by (simp add: screen_def)
qed

lemma answers_reach_screen_witness:
  "(let C = client_inputs [chunk_arrives ''response'', executor_runs, chunk_arrives ([CR] @ ''login success'' @ [LF]),
       executor_runs] (client_init (pipe_socket [] []))
    in (console C, logged_in C)) = ([''login success''], True)"
proof -
  let ?is = "[chunk_arrives ''response'', executor_runs, chunk_arrives ([CR] @ ''login success'' @ [LF]), executor_runs]"
  let ?C = "client_init (pipe_socket [] [])"
  let ?cs = "[cmd_response ''login success'']"
  have h: "\<forall>c \<in> set ?cs. clean_command c" "arrived ?is = concat (map encode ?cs)" "buf_ok (recv (c_si ?C))"
    "pending (recv (c_si ?C)) = []" "queued ?C = []" "(console ?C, logged_in ?C) = ([], False)"
    by (simp_all add: clean_command_def clean_def client_init_def pipe_socket_def buf_ok_def pending_def empty_buffer_def)
  let ?C1 = "client_recv ''response'' ?C"
  have "split_lines (''response'' @ [CR] @ ''login success'' @ [LF]) = (map (\<lambda>c. butlast (encode c)) ?cs, [])"
    using split_lines_encode[of ?cs] by simp
  moreover have "queued ?C1 = []" "pending (recv (c_si ?C1)) = ''response''" "buf_ok (recv (c_si ?C1))"
    using client_recv_effect[OF h(3), of "''response''"] h(4,5) by (simp_all add: split_lines_no_LF commands_of_def)
  ultimately have "queued (client_inputs ?is ?C) = []"
    using client_recv_effect(1)[of "chat_run_step ?C1"] commands_of_encode[OF h(1)]
    by (simp add: chat_run_step_screen)
  from answers_reach_screen[OF h(1-5) this] h(6) show ?thesis by (simp add: Let_def)
qed

end
