(* ===== verification/Net_Setup.thy ===== *)
theory Net_Setup
  imports Epoll_Registry
begin

section \<open>Addresses, listening and accepting\<close>

text \<open>
  \<open>net/addr\<close>, the connecting half of \<open>net/fd_helper\<close>, \<open>server/epoll_listener\<close> and
  \<open>server/epoll_acceptor\<close>. The socket calls are a second record of parameters, \<open>net\<close>; the owned
  descriptors are closed where their \<open>unique_fd\<close> leaves its scope. Results of \<open>getaddrinfo\<close> are the
  list of its nodes.
\<close>

unbundle bit_operations_syntax

record addr_option =
  ao_family :: c_int
  ao_socktype :: c_int
  ao_protocol :: c_int
  ao_flags :: c_int

record addr_info =
  ai_family :: c_int
  ai_socktype :: c_int
  ai_protocol :: c_int
  ai_addr :: string

definition AF_UNSPEC :: c_int where "AF_UNSPEC = 0"
definition SOCK_STREAM :: c_int where "SOCK_STREAM = 1"
definition AI_PASSIVE :: c_int where "AI_PASSIVE = 1"

definition default_option :: addr_option where
  "default_option = \<lparr>ao_family = AF_UNSPEC, ao_socktype = SOCK_STREAM, ao_protocol = 0, ao_flags = 0\<rparr>"

record 'k net =
  k_getaddrinfo :: "string option \<Rightarrow> string \<Rightarrow> addr_option \<Rightarrow> 'k \<Rightarrow> (c_int + addr_info list) \<times> 'k"
  k_socket :: "c_int \<Rightarrow> c_int \<Rightarrow> c_int \<Rightarrow> 'k \<Rightarrow> (c_int + fd) \<times> 'k"
  k_connect :: "fd \<Rightarrow> string \<Rightarrow> 'k \<Rightarrow> (c_int + unit) \<times> 'k"
  k_reuseaddr :: "fd \<Rightarrow> 'k \<Rightarrow> (c_int + unit) \<times> 'k"
  k_bind :: "fd \<Rightarrow> string \<Rightarrow> 'k \<Rightarrow> (c_int + unit) \<times> 'k"
  k_listen :: "fd \<Rightarrow> 'k \<Rightarrow> (c_int + unit) \<times> 'k"
  k_accept4 :: "fd \<Rightarrow> 'k \<Rightarrow> (c_int + fd) \<times> 'k"

subsection \<open>\<open>addr\<close>\<close>

text \<open>The result of the call, and what the object holds afterwards.\<close>

definition resolve ::
  "'k net \<Rightarrow> string option \<Rightarrow> string \<Rightarrow> addr_option \<Rightarrow> 'k \<Rightarrow> (c_int \<times> addr_info list option) \<times> 'k" where
  "resolve N host port opt k =
     (case k_getaddrinfo N host port opt k of
        (Inl ec, k1) \<Rightarrow> ((ec, None), k1)
      | (Inr nodes, k1) \<Rightarrow> ((0, Some nodes), k1))"

definition resolve_client ::
  "'k net \<Rightarrow> string \<Rightarrow> string \<Rightarrow> addr_option \<Rightarrow> 'k \<Rightarrow> (c_int \<times> addr_info list option) \<times> 'k" where
  "resolve_client N host port opt = resolve N (if host = [] then None else Some host) port opt"

definition resolve_server ::
  "'k net \<Rightarrow> string \<Rightarrow> addr_option \<Rightarrow> 'k \<Rightarrow> (c_int \<times> addr_info list option) \<times> 'k" where
  "resolve_server N port opt = resolve N None port (opt\<lparr>ao_flags := ao_flags opt OR AI_PASSIVE\<rparr>)"

definition get_addr_server ::
  "'k net \<Rightarrow> string \<Rightarrow> 'k \<Rightarrow> (error_code + addr_info list option) \<times> 'k" where
  "get_addr_server N port k =
     (let ((ec, res), k1) = resolve_server N port default_option k
      in (if ec \<noteq> 0 then Inl (from_gai ec) else Inr res, k1))"

definition get_addr_client ::
  "'k net \<Rightarrow> string \<Rightarrow> string \<Rightarrow> 'k \<Rightarrow> (error_code + addr_info list option) \<times> 'k" where
  "get_addr_client N host port k =
     (let ((ec, res), k1) = resolve_client N host port default_option k
      in (if ec \<noteq> 0 then Inl (from_gai ec) else Inr res, k1))"

text \<open>The list that \<open>addr::get\<close> points to; a null pointer is the empty list.\<close>

definition addr_get :: "addr_info list option \<Rightarrow> addr_info list" where
  "addr_get res = (case res of None \<Rightarrow> [] | Some nodes \<Rightarrow> nodes)"

definition open_socket :: "'k net \<Rightarrow> addr_info \<Rightarrow> 'k \<Rightarrow> (c_int + fd) \<times> 'k" where
  "open_socket N p = k_socket N (ai_family p) (ai_socktype p) (ai_protocol p)"

subsection \<open>Connecting\<close>

fun make_server_loop ::
  "('k, 's) env \<Rightarrow> 'k net \<Rightarrow> addr_info list \<Rightarrow> c_int \<Rightarrow> 'k \<Rightarrow> (error_code + fd) \<times> 'k" where
  "make_server_loop E N [] ec k = (Inl (from_errno (if ec = 0 then EINVAL else ec)), k)"
| "make_server_loop E N (p # ps) ec k =
     (case open_socket N p k of
        (Inl e, k1) \<Rightarrow> make_server_loop E N ps e k1
      | (Inr f, k1) \<Rightarrow>
          (case k_connect N f (ai_addr p) k1 of
             (Inl e, k2) \<Rightarrow> make_server_loop E N ps e (close_fd E f k2)
           | (Inr _, k2) \<Rightarrow>
               (case k_fcntl_getfl E f k2 of
                  (Inl e, k3) \<Rightarrow> make_server_loop E N ps e (close_fd E f k3)
                | (Inr flags, k3) \<Rightarrow>
                    (case k_fcntl_setfl E f (flags OR O_NONBLOCK) k3 of
                       (Inl e, k4) \<Rightarrow> make_server_loop E N ps e (close_fd E f k4)
                     | (Inr _, k4) \<Rightarrow> (Inr f, k4)))))"

definition make_server_fd ::
  "('k, 's) env \<Rightarrow> 'k net \<Rightarrow> addr_info list \<Rightarrow> 'k \<Rightarrow> (error_code + fd) \<times> 'k" where
  "make_server_fd E N head k = make_server_loop E N head 0 k"

subsection \<open>Listening\<close>

record listener =
  l_epfd :: fd
  l_wake_fd :: fd
  l_fd :: fd

text \<open>After a successful \<open>bind\<close> no other address is tried.\<close>

definition listen_on ::
  "('k, 's) env \<Rightarrow> 'k net \<Rightarrow> fd \<Rightarrow> 'k \<Rightarrow> (error_code + listener) \<times> 'k" where
  "listen_on E N f k =
     (case k_listen N f k of
        (Inl e, k1) \<Rightarrow> (Inl (from_errno e), close_fd E f k1)
      | (Inr _, k1) \<Rightarrow>
          (case wakeup_create E k1 of
             (Inl e, k2) \<Rightarrow> (Inl e, close_fd E f k2)
           | (Inr (epf, wfd), k2) \<Rightarrow>
               (case add_fd E epf f EPOLLIN k2 of
                  (Inl e, k3) \<Rightarrow> (Inl e, close_fd E f (close_fd E epf (close_fd E wfd k3)))
                | (Inr _, k3) \<Rightarrow> (Inr \<lparr>l_epfd = epf, l_wake_fd = wfd, l_fd = f\<rparr>, k3))))"

fun listener_loop ::
  "('k, 's) env \<Rightarrow> 'k net \<Rightarrow> addr_info list \<Rightarrow> c_int \<Rightarrow> 'k \<Rightarrow> (error_code + listener) \<times> 'k" where
  "listener_loop E N [] ec k = (Inl (from_errno (if ec = 0 then EINVAL else ec)), k)"
| "listener_loop E N (p # ps) ec k =
     (case open_socket N p k of
        (Inl e, k1) \<Rightarrow> listener_loop E N ps e k1
      | (Inr f, k1) \<Rightarrow>
          (case k_reuseaddr N f k1 of
             (Inl e, k2) \<Rightarrow> listener_loop E N ps e (close_fd E f k2)
           | (Inr _, k2) \<Rightarrow>
               (case set_nonblocking E f k2 of
                  (Inl e, k3) \<Rightarrow> listener_loop E N ps (code e) (close_fd E f k3)
                | (Inr _, k3) \<Rightarrow>
                    (case k_bind N f (ai_addr p) k3 of
                       (Inl e, k4) \<Rightarrow> listener_loop E N ps e (close_fd E f k4)
                     | (Inr _, k4) \<Rightarrow> listen_on E N f k4))))"

definition listener_create ::
  "('k, 's) env \<Rightarrow> 'k net \<Rightarrow> addr_info list \<Rightarrow> 'k \<Rightarrow> (error_code + listener) \<times> 'k" where
  "listener_create E N head k = listener_loop E N head 0 k"

subsection \<open>Accepting\<close>

text \<open>\<open>accept4\<close> is retried while it is interrupted.\<close>

partial_function (option) make_client_fd ::
  "'k net \<Rightarrow> listener \<Rightarrow> 'k \<Rightarrow> ((error_code + fd) \<times> 'k) option" where
  "make_client_fd N l k =
     (case k_accept4 N (l_fd l) k of
        (Inr f, k1) \<Rightarrow> Some (Inr f, k1)
      | (Inl ec, k1) \<Rightarrow> if ec = EINTR then make_client_fd N l k1 else Some (Inl (from_errno ec), k1))"

text \<open>
  Until nothing is left to accept; another failure is logged and also ends the loop. Each accepted
  descriptor is handed to the registry.
\<close>

partial_function (option) handle_accept ::
  "('k, 's) env \<Rightarrow> 'k net \<Rightarrow> listener \<Rightarrow> ('k, 's) registry \<Rightarrow> ('k, 's) registry option" where
  "handle_accept E N l R =
     (case make_client_fd N l (kst R) of
        None \<Rightarrow> None
      | Some (Inl e, k1) \<Rightarrow> Some (R\<lparr>kst := k1\<rparr>)
      | Some (Inr f, k1) \<Rightarrow>
          handle_accept E N l (request_register E f (EPOLLIN OR EPOLLRDHUP) (R\<lparr>kst := k1\<rparr>)))"

fun accept_events ::
  "('k, 's) env \<Rightarrow> 'k net \<Rightarrow> listener \<Rightarrow> (fd \<times> u32) list \<Rightarrow> ('k, 's) registry \<Rightarrow>
     ((error_code + unit) \<times> ('k, 's) registry) option" where
  "accept_events E N l [] R = Some (Inr (), R)"
| "accept_events E N l ((f, ev) # evs) R =
     (if f = l_wake_fd l then do {
        k1 \<leftarrow> consume_wakeup E (l_wake_fd l) (kst R);
        accept_events E N l evs (R\<lparr>kst := k1\<rparr>)
      }
      else if ev AND (EPOLLERR OR EPOLLHUP) \<noteq> 0 then
        (case k_so_error E f (kst R) of
           (Inl e, k1) \<Rightarrow> Some (Inl (from_errno e), R\<lparr>kst := k1\<rparr>)
         | (Inr e, k1) \<Rightarrow> Some (Inl (from_errno e), R\<lparr>kst := k1\<rparr>))
      else if f \<noteq> l_fd l then accept_events E N l evs R
      else do { R1 \<leftarrow> handle_accept E N l R; accept_events E N l evs R1 })"

text \<open>The turns: what \<open>epoll_wait\<close> returned each time, until the list or the stop token ends it.\<close>

fun acceptor_run ::
  "('k, 's) env \<Rightarrow> 'k net \<Rightarrow> listener \<Rightarrow> (c_int + (fd \<times> u32) list) list \<Rightarrow> ('k, 's) registry \<Rightarrow>
     ((error_code + unit) \<times> ('k, 's) registry) option" where
  "acceptor_run E N l [] R = Some (Inr (), R)"
| "acceptor_run E N l (Inl ec # ps) R =
     (if ec = EINTR then acceptor_run E N l ps R else Some (Inl (from_errno ec), R))"
| "acceptor_run E N l (Inr evs # ps) R = do {
     (res, R1) \<leftarrow> accept_events E N l evs R;
     case res of Inl e \<Rightarrow> Some (Inl e, R1) | Inr _ \<Rightarrow> acceptor_run E N l ps R1
   }"


subsection \<open>No descriptor is leaked\<close>

text \<open>
  \<open>opened k\<close> are the descriptors open in the process: the calls that return a new one add it, only
  \<open>close\<close> removes one, and -1 is never one of them.
\<close>

definition opens :: "('k \<Rightarrow> fd set) \<Rightarrow> 'k \<Rightarrow> (c_int + fd) \<times> 'k \<Rightarrow> bool" where
  "opens opened k p \<longleftrightarrow>
     (case p of
        (Inl _, k1) \<Rightarrow> opened k1 = opened k
      | (Inr f, k1) \<Rightarrow> f \<noteq> - 1 \<and> f \<notin> opened k \<and> opened k1 = insert f (opened k))"

definition fd_contract :: "('k, 's) env \<Rightarrow> 'k net \<Rightarrow> ('k \<Rightarrow> fd set) \<Rightarrow> bool" where
  "fd_contract E N opened \<longleftrightarrow>
     (\<forall>h p opt k. opened (snd (k_getaddrinfo N h p opt k)) = opened k) \<and>
     (\<forall>a b c k. opens opened k (k_socket N a b c k)) \<and>
     (\<forall>k. opens opened k (k_epoll_create E k)) \<and>
     (\<forall>k. opens opened k (k_eventfd E k)) \<and>
     (\<forall>f k. opened (k_close E f k) = opened k - {f}) \<and>
     (\<forall>f a k. opened (snd (k_connect N f a k)) = opened k) \<and>
     (\<forall>f k. opened (snd (k_reuseaddr N f k)) = opened k) \<and>
     (\<forall>f a k. opened (snd (k_bind N f a k)) = opened k) \<and>
     (\<forall>f k. opened (snd (k_listen N f k)) = opened k) \<and>
     (\<forall>f k. opened (snd (k_fcntl_getfl E f k)) = opened k) \<and>
     (\<forall>f fl k. opened (snd (k_fcntl_setfl E f fl k)) = opened k) \<and>
     (\<forall>e f i k. opened (snd (k_epoll_add E e f i k)) = opened k)"

text \<open>The outcome of an operation that keeps the new descriptors \<open>new v\<close>, and none on failure.\<close>

definition owns_fds :: "('k \<Rightarrow> fd set) \<Rightarrow> ('v \<Rightarrow> fd list) \<Rightarrow> 'k \<Rightarrow> (error_code + 'v) \<times> 'k \<Rightarrow> bool" where
  "owns_fds opened new k p \<longleftrightarrow>
     (case p of
        (Inl _, k1) \<Rightarrow> opened k1 = opened k
      | (Inr v, k1) \<Rightarrow>
          opened k1 = set (new v) \<union> opened k \<and> distinct (new v) \<and> - 1 \<notin> set (new v) \<and>
          set (new v) \<inter> opened k = {})"

lemma owns_fds_same: "opened k1 = opened k \<Longrightarrow> owns_fds opened new k p \<longleftrightarrow> owns_fds opened new k1 p"
  by (auto simp: owns_fds_def split: prod.splits sum.splits)

lemma close_opened:
  assumes "fd_contract E N opened" "f \<noteq> - 1"
  shows "opened (close_fd E f k) = opened k - {f}"
  using assms by (simp add: close_fd_def fd_contract_def)

lemma fd_contract_snd:
  assumes "fd_contract E N opened"
  shows "k_connect N f a k = (r, k1) \<Longrightarrow> opened k1 = opened k"
    and "k_reuseaddr N f k = (r, k1) \<Longrightarrow> opened k1 = opened k"
    and "k_bind N f a k = (r, k1) \<Longrightarrow> opened k1 = opened k"
    and "k_listen N f k = (r, k1) \<Longrightarrow> opened k1 = opened k"
    and "k_fcntl_getfl E f k = (r', k1) \<Longrightarrow> opened k1 = opened k"
    and "k_fcntl_setfl E f fl k = (r, k1) \<Longrightarrow> opened k1 = opened k"
    and "k_epoll_add E e f i k = (r, k1) \<Longrightarrow> opened k1 = opened k"
    and "k_getaddrinfo N h p opt k = (nodes, k1) \<Longrightarrow> opened k1 = opened k"
  using assms unfolding fd_contract_def by (metis snd_conv)+

lemma set_nonblocking_opened:
  assumes "fd_contract E N opened" "set_nonblocking E f k = (r, k1)"
  shows "opened k1 = opened k"
  using assms(2) fd_contract_snd(5,6)[OF assms(1)]
  by (auto simp: set_nonblocking_def split: prod.splits sum.splits)

lemma add_fd_opened:
  assumes "fd_contract E N opened" "add_fd E e f i k = (r, k1)"
  shows "opened k1 = opened k"
  using assms(2) fd_contract_snd(7)[OF assms(1)]
  by (auto simp: add_fd_def lift_errno_def split: prod.splits sum.splits)

lemma open_socket_cases:
  assumes "fd_contract E N opened"
  shows "(\<exists>e k1. open_socket N p k = (Inl e, k1) \<and> opened k1 = opened k) \<or>
    (\<exists>f k1. open_socket N p k = (Inr f, k1) \<and> f \<noteq> - 1 \<and> f \<notin> opened k \<and> opened k1 = insert f (opened k))"
proof -
  have "opens opened k (open_socket N p k)" using assms by (simp add: fd_contract_def open_socket_def)
  then show ?thesis by (cases "open_socket N p k"; cases "fst (open_socket N p k)") (auto simp: opens_def)
qed

lemma wakeup_create_owns:
  assumes "fd_contract E N opened"
  shows "owns_fds opened (\<lambda>(epf, wfd). [wfd, epf]) k (wakeup_create E k)"
proof -
  have e: "opens opened k (k_epoll_create E k)" for k using assms by (simp add: fd_contract_def)
  have w: "opens opened k (k_eventfd E k)" for k using assms by (simp add: fd_contract_def)
  obtain r1 k1 where r1: "k_epoll_create E k = (r1, k1)" by fastforce
  obtain r2 k2 where r2: "k_eventfd E k1 = (r2, k2)" by fastforce
  show ?thesis
    using e[of k] w[of k1] r1 r2 close_opened[OF assms] fd_contract_snd(7)[OF assms]
    by (auto simp: wakeup_create_def opens_def owns_fds_def split: sum.splits prod.splits)
qed

lemma make_server_loop_owns:
  assumes "fd_contract E N opened"
  shows "owns_fds opened (\<lambda>f. [f]) k (make_server_loop E N ps ec k)"
proof (induction ps arbitrary: ec k)
  case Nil
  show ?case by (simp add: owns_fds_def)
next
  case (Cons p ps)
  have retry: "owns_fds opened (\<lambda>f. [f]) k (make_server_loop E N ps e k')" if "opened k' = opened k" for e k'
    using Cons.IH[of k' e] owns_fds_same[where opened = opened, OF that] by blast
  from open_socket_cases[OF assms, of p k] show ?case
  proof (elim disjE exE conjE)
    fix e k1 assume "open_socket N p k = (Inl e, k1)" "opened k1 = opened k"
    then show ?thesis by (simp add: retry)
  next
    fix f k1
    assume s: "open_socket N p k = (Inr f, k1)" "f \<noteq> - 1" "f \<notin> opened k" "opened k1 = insert f (opened k)"
    have closed: "opened (close_fd E f k') = opened k" if "opened k' = opened k1" for k'
      using close_opened[OF assms s(2)] that s by simp
    show ?thesis
      using s fd_contract_snd[OF assms]
      by (auto split!: prod.split sum.split intro!: retry closed simp: owns_fds_def[of _ _ _ "(Inr _, _)"])
  qed
qed


lemma listen_on_owns:
  assumes "fd_contract E N opened" "f \<noteq> - 1" "f \<notin> opened k" "opened k1 = insert f (opened k)"
  shows "owns_fds opened (\<lambda>l. [l_fd l, l_wake_fd l, l_epfd l]) k (listen_on E N f k1)"
proof -
  obtain r k2 where l: "k_listen N f k1 = (r, k2)" by fastforce
  have k2: "opened k2 = opened k1" using fd_contract_snd(4)[OF assms(1) l] .
  have w: "owns_fds opened (\<lambda>(epf, wfd). [wfd, epf]) k2 (wakeup_create E k2)" by (rule wakeup_create_owns[OF assms(1)])
  obtain rw k3 where wk: "wakeup_create E k2 = (rw, k3)" by fastforce
  have closed: "opened (close_fd E f k') = opened k" if "opened k' = opened k1" for k'
    using close_opened[OF assms(1,2)] that assms(3,4) by simp
  show ?thesis
  proof (cases r)
    case (Inl e)
    then show ?thesis using l closed[OF k2] by (simp add: listen_on_def owns_fds_def)
  next
    case r: (Inr u)
    show ?thesis
    proof (cases rw)
      case (Inl e)
      then show ?thesis using l r wk w k2 closed by (simp add: listen_on_def owns_fds_def)
    next
      case (Inr q)
      obtain epf wfd where q: "q = (epf, wfd)" by fastforce
      obtain ra k4 where a: "add_fd E epf f EPOLLIN k3 = (ra, k4)" by fastforce
      have k4: "opened k4 = opened k3" by (rule add_fd_opened[OF assms(1) a])
      have new: "opened k3 = {wfd, epf} \<union> opened k1" "wfd \<noteq> epf" "wfd \<noteq> - 1" "epf \<noteq> - 1" "wfd \<notin> opened k1" "epf \<notin> opened k1"
        using w wk Inr q k2 by (auto simp: owns_fds_def)
      show ?thesis
      proof (cases ra)
        case (Inl e)
        have "opened (close_fd E f (close_fd E epf (close_fd E wfd k4))) = opened k"
          using new k4 assms(3,4) by (simp add: close_opened[OF assms(1)] assms(2)) blast
        then show ?thesis using l r wk \<open>rw = Inr q\<close> q a Inl by (simp add: listen_on_def owns_fds_def)
      next
        case (Inr u)
        then show ?thesis using l r wk \<open>rw = Inr q\<close> q a k4 new assms(2-4)
          by (simp add: listen_on_def owns_fds_def)
      qed
    qed
  qed
qed

lemma listener_loop_owns:
  assumes "fd_contract E N opened"
  shows "owns_fds opened (\<lambda>l. [l_fd l, l_wake_fd l, l_epfd l]) k (listener_loop E N ps ec k)"
proof (induction ps arbitrary: ec k)
  case Nil
  show ?case by (simp add: owns_fds_def)
next
  case (Cons p ps)
  have retry: "owns_fds opened (\<lambda>l. [l_fd l, l_wake_fd l, l_epfd l]) k (listener_loop E N ps e k')"
    if "opened k' = opened k" for e k'
    using Cons.IH[of k' e] owns_fds_same[where opened = opened, OF that] by blast
  from open_socket_cases[OF assms, of p k] show ?case
  proof (elim disjE exE conjE)
    fix e k1 assume "open_socket N p k = (Inl e, k1)" "opened k1 = opened k"
    then show ?thesis by (simp add: retry)
  next
    fix f k1
    assume s: "open_socket N p k = (Inr f, k1)" "f \<noteq> - 1" "f \<notin> opened k" "opened k1 = insert f (opened k)"
    have closed: "opened (close_fd E f k') = opened k" if "opened k' = opened k1" for k'
      using close_opened[OF assms s(2)] that s by simp
    have listen: "owns_fds opened (\<lambda>l. [l_fd l, l_wake_fd l, l_epfd l]) k (listen_on E N f k')"
      if "opened k' = opened k1" for k'
      by (rule listen_on_owns[OF assms s(2,3)]) (simp add: that s)
    show ?thesis
      using s fd_contract_snd[OF assms] set_nonblocking_opened[OF assms]
      by (auto split!: prod.split sum.split intro!: retry closed listen)
  qed
qed


text \<open>
  Connecting and listening leak no descriptor: whichever call fails, on whichever of the resolved
  addresses, every descriptor opened on the way is closed again.
\<close>

lemma make_server_fd_owns:
  "fd_contract E N opened \<Longrightarrow> owns_fds opened (\<lambda>f. [f]) k (make_server_fd E N head k)"
  by (simp add: make_server_fd_def make_server_loop_owns)

lemma listener_create_owns:
  "fd_contract E N opened \<Longrightarrow>
   owns_fds opened (\<lambda>l. [l_fd l, l_wake_fd l, l_epfd l]) k (listener_create E N head k)"
  by (simp add: listener_create_def listener_loop_owns)

lemma get_addr_opened:
  assumes "fd_contract E N opened"
  shows "get_addr_server N port k = (r, k1) \<Longrightarrow> opened k1 = opened k"
    and "get_addr_client N host port k = (r, k1) \<Longrightarrow> opened k1 = opened k"
  using fd_contract_snd(8)[OF assms]
  by (auto simp: get_addr_server_def get_addr_client_def resolve_server_def resolve_client_def resolve_def Let_def
      split: prod.splits sum.splits)

subsection \<open>What is accepted\<close>

text \<open>
  \<open>backlog k\<close> are the connections that wait at the listening socket: \<open>accept4\<close> takes the first one,
  \<open>EAGAIN\<close> says there is none, and it is interrupted only finitely often in a row. The calls on
  other descriptors leave the backlog alone.
\<close>

definition accept_contract ::
  "('k, 's) env \<Rightarrow> 'k net \<Rightarrow> ('k \<Rightarrow> fd list) \<Rightarrow> ('k \<Rightarrow> nat) \<Rightarrow> bool" where
  "accept_contract E N backlog noise \<longleftrightarrow>
     (\<forall>lf k f k1. k_accept4 N lf k = (Inr f, k1) \<longrightarrow> backlog k = f # backlog k1) \<and>
     (\<forall>lf k e k1. k_accept4 N lf k = (Inl e, k1) \<longrightarrow>
        backlog k1 = backlog k \<and> (e = EINTR \<longrightarrow> noise k1 < noise k) \<and> (e = EAGAIN \<longrightarrow> backlog k = [])) \<and>
     (\<forall>f k. backlog (snd (k_eventfd_write E f k)) = backlog k) \<and>
     (\<forall>f k. backlog (snd (k_eventfd_read E f k)) = backlog k) \<and>
     (\<forall>f k. backlog (snd (k_so_error E f k)) = backlog k)"

lemma accept_contractD:
  assumes "accept_contract E N backlog noise"
  shows "k_accept4 N lf k = (Inr f, k1) \<Longrightarrow> backlog k = f # backlog k1"
    and "k_accept4 N lf k = (Inl e, k1) \<Longrightarrow>
      backlog k1 = backlog k \<and> (e = EINTR \<longrightarrow> noise k1 < noise k) \<and> (e = EAGAIN \<longrightarrow> backlog k = [])"
    and "backlog (request_wakeup E wfd k) = backlog k"
    and "k_eventfd_read E f k = (n, k1) \<Longrightarrow> backlog k1 = backlog k"
    and "k_so_error E f k = (m, k1) \<Longrightarrow> backlog k1 = backlog k"
  using assms unfolding accept_contract_def request_wakeup_def by (blast, blast, blast, metis snd_conv, metis snd_conv)

text \<open>What one successful return of \<open>make_client_fd\<close> says of the backlog.\<close>

definition took_one :: "('k \<Rightarrow> fd list) \<Rightarrow> 'k \<Rightarrow> error_code + fd \<Rightarrow> 'k \<Rightarrow> bool" where
  "took_one backlog k r k1 \<longleftrightarrow>
     (case r of
        Inl e \<Rightarrow> backlog k1 = backlog k \<and> (e = from_errno EAGAIN \<longrightarrow> backlog k = [])
      | Inr f \<Rightarrow> backlog k = f # backlog k1)"

lemma make_client_fd_takes:
  assumes "accept_contract E N backlog noise"
  shows "\<exists>r k1. make_client_fd N l k = Some (r, k1) \<and> took_one backlog k r k1"
proof (induction "noise k" arbitrary: k rule: less_induct)
  case less
  obtain r k1 where r: "k_accept4 N (l_fd l) k = (r, k1)" by fastforce
  show ?case
  proof (cases r)
    case (Inr f)
    then show ?thesis using r accept_contractD(1)[OF assms, of _ k f k1]
      by (subst make_client_fd.simps) (simp add: took_one_def)
  next
    case (Inl e)
    have e: "backlog k1 = backlog k" "e = EINTR \<Longrightarrow> noise k1 < noise k" "e = EAGAIN \<Longrightarrow> backlog k = []"
      using accept_contractD(2)[OF assms] r Inl by blast+
    show ?thesis
    proof (cases "e = EINTR")
      case True
      then obtain q k2 where "make_client_fd N l k1 = Some (q, k2)" "took_one backlog k1 q k2"
        using less e(2) by blast
      then show ?thesis using r Inl True e(1)
        by (subst make_client_fd.simps) (simp add: took_one_def split: sum.splits)
    next
      case False
      then show ?thesis using r Inl e
        by (subst make_client_fd.simps) (simp add: from_errno_def took_one_def)
    qed
  qed
qed

text \<open>The command that hands an accepted descriptor to the registry.\<close>

abbreviation accepted :: "fd \<Rightarrow> reg_command" where
  "accepted f \<equiv> register_command f (EPOLLIN OR EPOLLRDHUP)"

text \<open>Some connections moved from the backlog to the command queue, in order.\<close>

definition took :: "('k \<Rightarrow> fd list) \<Rightarrow> fd list \<Rightarrow> ('k, 's) registry \<Rightarrow> ('k, 's) registry \<Rightarrow> bool" where
  "took backlog fs R R1 \<longleftrightarrow>
     backlog (kst R) = fs @ backlog (kst R1) \<and>
     R1 = R\<lparr>cmd_q := cmd_q R @ map accepted fs, kst := kst R1\<rparr>"

lemma took_none: "backlog k1 = backlog (kst R) \<Longrightarrow> took backlog [] R (R\<lparr>kst := k1\<rparr>)"
  by (simp add: took_def)

lemma took_trans:
  assumes "took backlog fs R R1" "took backlog gs R1 R2"
  shows "took backlog (fs @ gs) R R2"
proof -
  have "R2 = R1\<lparr>cmd_q := cmd_q R1 @ map accepted gs, kst := kst R2\<rparr>" using assms(2) by (simp add: took_def)
  also have "R1 = R\<lparr>cmd_q := cmd_q R @ map accepted fs, kst := kst R1\<rparr>" using assms(1) by (simp add: took_def)
  finally have "R2 = R\<lparr>cmd_q := cmd_q R @ map accepted (fs @ gs), kst := kst R2\<rparr>" by simp
  then show ?thesis using assms by (simp add: took_def)
qed

lemma handle_accept_takes:
  assumes "accept_contract E N backlog noise"
  shows "\<exists>R1 fs. handle_accept E N l R = Some R1 \<and> took backlog fs R R1"
proof (induction "length (backlog (kst R))" arbitrary: R rule: less_induct)
  case less
  obtain r k1 where r: "make_client_fd N l (kst R) = Some (r, k1)" "took_one backlog (kst R) r k1"
    using make_client_fd_takes[OF assms] by blast
  show ?case
  proof (cases r)
    case (Inl e)
    then have "handle_accept E N l R = Some (R\<lparr>kst := k1\<rparr>)" using r by (subst handle_accept.simps) simp
    moreover have "backlog k1 = backlog (kst R)" using r Inl by (simp add: took_one_def)
    ultimately show ?thesis using took_none[of backlog k1 R] by auto
  next
    case (Inr f)
    define R1 where "R1 = request_register E f (EPOLLIN OR EPOLLRDHUP) (R\<lparr>kst := k1\<rparr>)"
    have one: "took backlog [f] R R1"
      using r Inr accept_contractD(3)[OF assms]
      by (simp add: R1_def took_def took_one_def request_register_def request_def)
    then have "length (backlog (kst R1)) < length (backlog (kst R))" by (simp add: took_def)
    then obtain R2 fs where R2: "handle_accept E N l R1 = Some R2" "took backlog fs R1 R2" using less by blast
    have "handle_accept E N l R = handle_accept E N l R1"
      using r Inr by (subst handle_accept.simps) (simp add: R1_def)
    then show ?thesis using R2(1) took_trans[OF one R2(2)] by auto
  qed
qed

lemma accept_events_takes:
  assumes "accept_contract E N backlog noise" "eventfd_progress E left"
  shows "\<exists>res R1 fs. accept_events E N l evs R = Some (res, R1) \<and> took backlog fs R R1"
proof (induction evs arbitrary: R)
  case Nil
  then show ?case using took_none[of backlog "kst R" R] by fastforce
next
  case (Cons q evs)
  obtain f ev where q: "q = (f, ev)" by fastforce
  have rest: "\<exists>res R2 fs. accept_events E N l evs R1 = Some (res, R2) \<and> took backlog fs R R2"
    if "took backlog gs R R1" for gs R1
    using Cons.IH[of R1] took_trans[OF that] by blast
  show ?case
  proof (cases "f = l_wake_fd l")
    case True
    obtain k1 where k1: "consume_wakeup E (l_wake_fd l) (kst R) = Some k1"
      using consume_wakeup_total[OF assms(2)] by blast
    have "backlog k1 = backlog (kst R)"
      by (rule consume_wakeup_keeps[where view = backlog, OF _ k1]) (use accept_contractD(4)[OF assms(1)] in blast)
    then show ?thesis using rest[OF took_none, of k1] q True k1 by simp
  next
    case wake: False
    show ?thesis
    proof (cases "ev AND (EPOLLERR OR EPOLLHUP) \<noteq> 0")
      case True
      obtain m k1 where m: "k_so_error E f (kst R) = (m, k1)" by fastforce
      have t: "took backlog [] R (R\<lparr>kst := k1\<rparr>)" by (rule took_none[OF accept_contractD(5)[OF assms(1) m]])
      obtain e where "accept_events E N l (q # evs) R = Some (Inl e, R\<lparr>kst := k1\<rparr>)"
        using q wake True m by (cases m) simp_all
      with t show ?thesis by blast
    next
      case ok: False
      obtain R1 fs where h: "handle_accept E N l R = Some R1" "took backlog fs R R1"
        using handle_accept_takes[OF assms(1)] by blast
      show ?thesis
      proof (cases "f = l_fd l")
        case True
        then have "accept_events E N l (q # evs) R = accept_events E N l evs R1" using q wake ok h(1) by simp
        then show ?thesis using rest[OF h(2)] by simp
      next
        case False
        then have "accept_events E N l (q # evs) R = accept_events E N l evs R" using q wake ok by simp
        then show ?thesis using Cons.IH[of R] by simp
      qed
    qed
  qed
qed

lemma acceptor_run_takes:
  assumes "accept_contract E N backlog noise" "eventfd_progress E left"
  shows "\<exists>res R1 fs. acceptor_run E N l polls R = Some (res, R1) \<and> took backlog fs R R1"
proof (induction polls arbitrary: R)
  case Nil
  then show ?case using took_none[of backlog "kst R" R] by fastforce
next
  case (Cons p polls)
  show ?case
  proof (cases p)
    case (Inl ec)
    then show ?thesis using Cons.IH[of R] took_none[of backlog "kst R" R] by (cases "ec = EINTR") fastforce+
  next
    case (Inr evs)
    obtain res R1 fs where t: "accept_events E N l evs R = Some (res, R1)" "took backlog fs R R1"
      using accept_events_takes[OF assms] by blast
    obtain res2 R2 gs where u: "acceptor_run E N l polls R1 = Some (res2, R2)" "took backlog gs R1 R2"
      using Cons.IH by blast
    show ?thesis
    proof (cases res)
      case (Inl e)
      then show ?thesis using t \<open>p = Inr evs\<close> by auto
    next
      case r: (Inr v)
      then have "acceptor_run E N l (p # polls) R = Some (res2, R2)" using t(1) u(1) Inr by simp
      then show ?thesis using took_trans[OF t(2) u(2)] by blast
    qed
  qed
qed



subsection \<open>A kernel for the witnesses\<close>

text \<open>
  Its state is the set of open descriptors, the connections that wait and the value of the event
  counter; descriptors are numbered upwards. The first \<open>connect\<close> and \<open>bind\<close> address
  ''refused'' fails.
\<close>

type_synonym line_kernel = "nat list \<times> fd list \<times> nat"

definition fresh :: "nat list \<Rightarrow> nat" where
  "fresh used = Suc (sum_list used)"

definition line_env :: "'s openssl \<Rightarrow> 's \<Rightarrow> (line_kernel, 's) env" where
  "line_env L s0 =
     \<lparr>k_epoll_create = (\<lambda>(u, b, n). (Inr (int (fresh u)), (fresh u # u, b, n))),
      k_eventfd = (\<lambda>(u, b, n). (Inr (int (fresh u)), (fresh u # u, b, n))),
      k_fcntl_getfl = (\<lambda>f k. (Inr 2, k)), k_fcntl_setfl = (\<lambda>f fl k. (Inr (), k)),
      k_getpeername = (\<lambda>f k. (Inr ''peer'', k)),
      k_getnameinfo = (\<lambda>sa k. (Inr (''127.0.0.1'', ''4000''), k)),
      k_epoll_add = (\<lambda>e f i k. (Inr (), k)), k_epoll_mod = (\<lambda>e f i k. (Inr (), k)),
      k_epoll_del = (\<lambda>e f k. (Inr (), k)),
      k_close = (\<lambda>f (u, b, n). (filter (\<lambda>m. int m \<noteq> f) u, b, n)),
      k_eventfd_write = (\<lambda>f (u, b, n). (Inr 8, (u, b, Suc n))),
      k_eventfd_read = (\<lambda>f (u, b, n). (if n = 0 then Inl EAGAIN else Inr 8, (u, b, 0))),
      k_so_error = (\<lambda>f k. (Inr 0, k)),
      k_ssl_new = (\<lambda>k. ((Some s0, pipe_report 1 0), k)),
      k_ssl_set_fd = (\<lambda>s f k. ((pipe_report 1 0, s), k)),
      ssl_set_accept_state = (\<lambda>s. s), lib = L, log_threshold = level_info\<rparr>"

definition line_net :: "line_kernel net" where
  "line_net =
     \<lparr>k_getaddrinfo = (\<lambda>h p opt k. (Inr [], k)),
      k_socket = (\<lambda>a b c (u, bl, n). (Inr (int (fresh u)), (fresh u # u, bl, n))),
      k_connect = (\<lambda>f a k. (if a = ''refused'' then Inl 111 else Inr (), k)),
      k_reuseaddr = (\<lambda>f k. (Inr (), k)),
      k_bind = (\<lambda>f a k. (if a = ''refused'' then Inl 98 else Inr (), k)),
      k_listen = (\<lambda>f k. (Inr (), k)),
      k_accept4 = (\<lambda>f (u, b, n). case b of [] \<Rightarrow> (Inl EAGAIN, (u, b, n)) | x # xs \<Rightarrow> (Inr x, (u, xs, n)))\<rparr>"

definition line_opened :: "line_kernel \<Rightarrow> fd set" where "line_opened k = int ` set (fst k)"

lemma fresh_new: "fresh used \<notin> set used"
  using member_le_sum_list[of "fresh used" used] by (auto simp: fresh_def)

lemma line_fd_contract: "fd_contract (line_env L s0) line_net line_opened"
  using fresh_new by (auto simp: fd_contract_def opens_def line_env_def line_net_def line_opened_def)

lemma line_accept_contract: "accept_contract (line_env L s0) line_net (fst \<circ> snd) (\<lambda>_. 0)"
  by (auto simp: accept_contract_def line_env_def line_net_def EAGAIN_def EINTR_def split: list.splits)

lemma line_eventfd: "eventfd_progress (line_env L s0) (snd \<circ> snd)"
  by (auto simp: eventfd_progress_def line_env_def split: if_splits)

definition node :: "string \<Rightarrow> addr_info" where
  "node a = \<lparr>ai_family = 2, ai_socktype = SOCK_STREAM, ai_protocol = 6, ai_addr = a\<rparr>"


end
