(* ===== verification/Tls_Setup.thy ===== *)
theory Tls_Setup
  imports Tls_Session
begin

section \<open>TLS contexts and client sessions\<close>

text \<open>
  \<open>net/tls_context\<close> and \<open>tls_session::create_client\<close>. The OpenSSL calls they make are a record of
  parameters over the opaque states \<open>'x\<close> of an \<open>SSL_CTX\<close> and \<open>'s\<close> of an \<open>SSL\<close>; a report is what the
  code looks at after a call whose error queue it has cleared before. The objects are freed by their
  owners, which is not modelled.
\<close>

unbundle bit_operations_syntax

definition TLS1_2_VERSION :: c_int where "TLS1_2_VERSION = 0x303"
definition SSL_VERIFY_PEER :: c_int where "SSL_VERIFY_PEER = 1"
definition SSL_OP_IGNORE_UNEXPECTED_EOF :: "64 word" where "SSL_OP_IGNORE_UNEXPECTED_EOF = 0x80"
definition SSL_OP_NO_COMPRESSION :: "64 word" where "SSL_OP_NO_COMPRESSION = 0x20000"
definition SSL_MODE_ENABLE_PARTIAL_WRITE :: "64 word" where "SSL_MODE_ENABLE_PARTIAL_WRITE = 1"
definition SSL_MODE_ACCEPT_MOVING_WRITE_BUFFER :: "64 word" where "SSL_MODE_ACCEPT_MOVING_WRITE_BUFFER = 2"

record ('x, 's) tls_lib =
  t_lib :: "'s openssl"
  t_init :: ssl_report
  t_new :: "bool \<Rightarrow> 'x option \<times> ssl_report"
  t_min_proto :: "c_int \<Rightarrow> 'x \<Rightarrow> ssl_report \<times> 'x"
  t_options :: "64 word \<Rightarrow> 'x \<Rightarrow> 'x"
  t_mode :: "64 word \<Rightarrow> 'x \<Rightarrow> 'x"
  t_cert_chain :: "string \<Rightarrow> 'x \<Rightarrow> ssl_report \<times> 'x"
  t_private_key :: "string \<Rightarrow> 'x \<Rightarrow> ssl_report \<times> 'x"
  t_check_key :: "'x \<Rightarrow> ssl_report \<times> 'x"
  t_verify :: "c_int \<Rightarrow> 'x \<Rightarrow> 'x"
  t_default_paths :: "'x \<Rightarrow> ssl_report \<times> 'x"
  t_load_ca :: "string \<Rightarrow> 'x \<Rightarrow> ssl_report \<times> 'x"
  s_new :: "'x \<Rightarrow> 's option \<times> ssl_report"
  s_set_fd :: "fd \<Rightarrow> 's \<Rightarrow> ssl_report \<times> 's"
  s_set_sni :: "string \<Rightarrow> 's \<Rightarrow> ssl_report \<times> 's"
  s_set_host :: "string \<Rightarrow> 's \<Rightarrow> ssl_report \<times> 's"
  s_connect_state :: "'s \<Rightarrow> 's"

record 'x tls_context =
  tls_ctx :: 'x
  is_server_ctx :: bool

definition make_tls_context_error :: "('x, 's) tls_lib \<Rightarrow> ssl_report \<Rightarrow> tls_error \<Rightarrow> error_code" where
  "make_tls_context_error T r kind =
     from_tls_code (make_code kind (if last_error r = 0 then 0 else err_get_reason (t_lib T) (last_error r)))"

text \<open>A call that must return 1; anything else is the error \<open>kind\<close>.\<close>

definition need ::
  "('x, 's) tls_lib \<Rightarrow> tls_error \<Rightarrow> ssl_report \<times> 'a \<Rightarrow> ('a \<Rightarrow> error_code + 'b) \<Rightarrow> error_code + 'b" where
  "need T kind p go = (if rc (fst p) = 1 then go (snd p) else Inl (make_tls_context_error T (fst p) kind))"

definition init_tls :: "('x, 's) tls_lib \<Rightarrow> error_code + unit" where
  "init_tls T = need T openssl_init_failed (t_init T, ()) Inr"

definition set_common_options :: "('x, 's) tls_lib \<Rightarrow> 'x \<Rightarrow> error_code + 'x" where
  "set_common_options T x =
     need T min_protocol_set_failed (t_min_proto T TLS1_2_VERSION x) (\<lambda>x1.
       (let options = SSL_OP_NO_COMPRESSION OR SSL_OP_IGNORE_UNEXPECTED_EOF;
            x2 = t_options T options x1
        in Inr (t_mode T (SSL_MODE_ENABLE_PARTIAL_WRITE OR SSL_MODE_ACCEPT_MOVING_WRITE_BUFFER) x2)))"

text \<open>The common start of both: a new context with the common options.\<close>

definition new_context :: "('x, 's) tls_lib \<Rightarrow> bool \<Rightarrow> ('x \<Rightarrow> error_code + 'b) \<Rightarrow> error_code + 'b" where
  "new_context T server go =
     (case t_new T server of
        (None, r) \<Rightarrow> Inl (make_tls_context_error T r ctx_create_failed)
      | (Some raw, _) \<Rightarrow> (case set_common_options T raw of Inl e \<Rightarrow> Inl e | Inr x \<Rightarrow> go x))"

definition load_server_files ::
  "('x, 's) tls_lib \<Rightarrow> string \<Rightarrow> string \<Rightarrow> 'x \<Rightarrow> error_code + 'x tls_context" where
  "load_server_files T cert key x =
     need T cert_chain_load_failed (t_cert_chain T cert x) (\<lambda>x1.
     need T private_key_load_failed (t_private_key T key x1) (\<lambda>x2.
     need T private_key_check_failed (t_check_key T x2) (\<lambda>x3.
       Inr \<lparr>tls_ctx = x3, is_server_ctx = True\<rparr>)))"

definition load_client_paths :: "('x, 's) tls_lib \<Rightarrow> string \<Rightarrow> 'x \<Rightarrow> error_code + 'x tls_context" where
  "load_client_paths T ca_file_path x =
     (let x1 = t_verify T SSL_VERIFY_PEER x in
      if ca_file_path = []
      then need T default_verify_paths_failed (t_default_paths T x1) (\<lambda>x2.
             Inr \<lparr>tls_ctx = x2, is_server_ctx = False\<rparr>)
      else need T ca_load_failed (t_load_ca T ca_file_path x1) (\<lambda>x2.
             Inr \<lparr>tls_ctx = x2, is_server_ctx = False\<rparr>))"

definition create_server_context ::
  "('x, 's) tls_lib \<Rightarrow> string \<Rightarrow> string \<Rightarrow> error_code + 'x tls_context" where
  "create_server_context T cert_chain_path private_key_path =
     (case init_tls T of
        Inl e \<Rightarrow> Inl e
      | Inr _ \<Rightarrow>
          if cert_chain_path = [] \<or> private_key_path = [] then Inl (from_errno EINVAL)
          else new_context T True (load_server_files T cert_chain_path private_key_path))"

definition create_client_context :: "('x, 's) tls_lib \<Rightarrow> string \<Rightarrow> error_code + 'x tls_context" where
  "create_client_context T ca_file_path =
     (case init_tls T of
        Inl e \<Rightarrow> Inl e
      | Inr _ \<Rightarrow>
          new_context T False (load_client_paths T ca_file_path))"

definition create_client_session ::
  "('x, 's) tls_lib \<Rightarrow> 'x tls_context \<Rightarrow> fd \<Rightarrow> string \<Rightarrow> error_code + 's tls_session" where
  "create_client_session T c f server_name =
     (if f < 0 \<or> is_server_ctx c \<or> server_name = [] then Inl (from_errno EINVAL)
      else
        (case s_new T (tls_ctx c) of
           (None, r) \<Rightarrow> Inl (make_tls_session_error (t_lib T) r ctx_create_failed)
         | (Some raw, _) \<Rightarrow>
             need T set_fd_failed (s_set_fd T f raw) (\<lambda>s1.
             need T set_sni_failed (s_set_sni T server_name s1) (\<lambda>s2.
             need T set_host_failed (s_set_host T server_name s2) (\<lambda>s3.
               Inr \<lparr>ssl = Some (s_connect_state T s3), handshake_done = False, want_read = False,
                    want_write = False, peer_closed = False\<rparr>)))))"

lemma need_Inr:
  "need T kind p go = Inr y \<longleftrightarrow> rc (fst p) = 1 \<and> go (snd p) = Inr y"
  by (simp add: need_def)

subsection \<open>What a context demands of the peer\<close>

text \<open>
  The observations: the lowest protocol version, the verification mode, the certificate and key
  files, whether they have been checked to match; of a session its verification mode, the name sent
  to the server, the name the certificate must have, and whether it connects. Each setter changes its
  own observation when it succeeds and none of the others.
\<close>

record ('x, 's) tls_view =
  v_min :: "'x \<Rightarrow> c_int"
  v_mode :: "'x \<Rightarrow> c_int"
  v_cert :: "'x \<Rightarrow> string option"
  v_key :: "'x \<Rightarrow> string option"
  v_checked :: "'x \<Rightarrow> bool"
  w_min :: "'s \<Rightarrow> c_int"
  w_mode :: "'s \<Rightarrow> c_int"
  w_fd :: "'s \<Rightarrow> fd"
  w_sni :: "'s \<Rightarrow> string"
  w_host :: "'s \<Rightarrow> string"
  w_connects :: "'s \<Rightarrow> bool"

definition keeps :: "('x, 's) tls_view \<Rightarrow> 'x \<Rightarrow> 'x \<Rightarrow> bool" where
  "keeps V x y \<longleftrightarrow> v_min V y = v_min V x \<and> v_mode V y = v_mode V x \<and> v_cert V y = v_cert V x \<and> v_key V y = v_key V x"

definition tls_lib_contract :: "('x, 's) tls_lib \<Rightarrow> ('x, 's) tls_view \<Rightarrow> bool" where
  "tls_lib_contract T V \<longleftrightarrow>
     (\<forall>v x. rc (fst (t_min_proto T v x)) = 1 \<longrightarrow> v_min V (snd (t_min_proto T v x)) = v) \<and>
     (\<forall>o' x. keeps V x (t_options T o' x)) \<and>
     (\<forall>m x. keeps V x (t_mode T m x)) \<and>
     (\<forall>p x. rc (fst (t_cert_chain T p x)) = 1 \<longrightarrow>
        v_cert V (snd (t_cert_chain T p x)) = Some p \<and> v_min V (snd (t_cert_chain T p x)) = v_min V x) \<and>
     (\<forall>p x. rc (fst (t_private_key T p x)) = 1 \<longrightarrow>
        v_key V (snd (t_private_key T p x)) = Some p \<and> v_cert V (snd (t_private_key T p x)) = v_cert V x \<and>
        v_min V (snd (t_private_key T p x)) = v_min V x) \<and>
     (\<forall>x. keeps V x (snd (t_check_key T x)) \<and>
        (rc (fst (t_check_key T x)) = 1 \<longrightarrow> v_checked V (snd (t_check_key T x)))) \<and>
     (\<forall>m x. v_mode V (t_verify T m x) = m \<and> v_min V (t_verify T m x) = v_min V x) \<and>
     (\<forall>x. keeps V x (snd (t_default_paths T x))) \<and>
     (\<forall>p x. keeps V x (snd (t_load_ca T p x))) \<and>
     (\<forall>x s r. s_new T x = (Some s, r) \<longrightarrow> w_min V s = v_min V x \<and> w_mode V s = v_mode V x) \<and>
     (\<forall>f s. rc (fst (s_set_fd T f s)) = 1 \<longrightarrow>
        w_fd V (snd (s_set_fd T f s)) = f \<and> w_min V (snd (s_set_fd T f s)) = w_min V s \<and>
        w_mode V (snd (s_set_fd T f s)) = w_mode V s) \<and>
     (\<forall>h s. rc (fst (s_set_sni T h s)) = 1 \<longrightarrow>
        w_sni V (snd (s_set_sni T h s)) = h \<and> w_min V (snd (s_set_sni T h s)) = w_min V s \<and>
        w_mode V (snd (s_set_sni T h s)) = w_mode V s \<and> w_fd V (snd (s_set_sni T h s)) = w_fd V s) \<and>
     (\<forall>h s. rc (fst (s_set_host T h s)) = 1 \<longrightarrow>
        w_host V (snd (s_set_host T h s)) = h \<and> w_min V (snd (s_set_host T h s)) = w_min V s \<and>
        w_mode V (snd (s_set_host T h s)) = w_mode V s \<and> w_fd V (snd (s_set_host T h s)) = w_fd V s \<and>
        w_sni V (snd (s_set_host T h s)) = w_sni V s) \<and>
     (\<forall>s. w_connects V (s_connect_state T s) \<and> w_host V (s_connect_state T s) = w_host V s \<and>
        w_min V (s_connect_state T s) = w_min V s \<and> w_mode V (s_connect_state T s) = w_mode V s \<and>
        w_fd V (s_connect_state T s) = w_fd V s \<and> w_sni V (s_connect_state T s) = w_sni V s)"

lemma s_new_contract:
  assumes "tls_lib_contract T V" "s_new T x = (Some s, r)"
  shows "w_min V s = v_min V x \<and> w_mode V s = v_mode V x"
  using assms unfolding tls_lib_contract_def by blast

lemma new_context_min:
  assumes "tls_lib_contract T V" "new_context T server go = Inr c"
  obtains x where "go x = Inr c" "v_min V x = TLS1_2_VERSION"
  using assms
  by (auto simp: new_context_def set_common_options_def need_def tls_lib_contract_def keeps_def Let_def
      split: prod.splits option.splits sum.splits if_splits)

lemma create_client_context_view:
  assumes "tls_lib_contract T V" "create_client_context T ca = Inr c"
  shows "v_min V (tls_ctx c) = TLS1_2_VERSION \<and> v_mode V (tls_ctx c) = SSL_VERIFY_PEER \<and> \<not> is_server_ctx c"
proof -
  have "new_context T False (load_client_paths T ca) = Inr c"
    using assms(2) by (simp add: create_client_context_def split: sum.splits)
  then obtain x where "v_min V x = TLS1_2_VERSION" "load_client_paths T ca x = Inr c"
    by (rule new_context_min[OF assms(1)])
  then show ?thesis using assms(1)
    by (auto simp: load_client_paths_def need_Inr tls_lib_contract_def keeps_def Let_def split: if_splits)
qed

text \<open>
  A client session can only be made strict: whenever \<open>tls_context::create_client\<close> and
  \<open>tls_session::create_client\<close> both succeed, the session negotiates at least TLS 1.2, verifies the
  certificate chain of the peer, sends the host name and accepts only a certificate for that name, on
  the connected descriptor, whatever CA file was given; and no session is made without a host name,
  on an invalid descriptor or from a server context.
\<close>

lemma client_session_strict:
  assumes "tls_lib_contract T V"
    and "create_client_context T ca = Inr c" "create_client_session T c f host = Inr t"
  shows "\<exists>s. ssl t = Some s \<and> w_min V s = TLS1_2_VERSION \<and> w_mode V s = SSL_VERIFY_PEER \<and>
    w_host V s = host \<and> w_sni V s = host \<and> w_fd V s = f \<and> w_connects V s \<and>
    host \<noteq> [] \<and> f \<ge> 0 \<and> \<not> handshake_done t"
proof -
  note view = create_client_context_view[OF assms(1,2)]
  obtain raw r where raw: "s_new T (tls_ctx c) = (Some raw, r)" and f: "\<not> (f < 0 \<or> is_server_ctx c \<or> host = [])"
    using assms(3) by (auto simp: create_client_session_def split: if_splits prod.splits option.splits)
  define s1 where "s1 = snd (s_set_fd T f raw)"
  define s2 where "s2 = snd (s_set_sni T host s1)"
  define s3 where "s3 = snd (s_set_host T host s2)"
  have rc: "rc (fst (s_set_fd T f raw)) = 1" "rc (fst (s_set_sni T host s1)) = 1" "rc (fst (s_set_host T host s2)) = 1"
    and t: "t = \<lparr>ssl = Some (s_connect_state T s3), handshake_done = False, want_read = False,
      want_write = False, peer_closed = False\<rparr>"
    using assms(3) f raw by (auto simp: create_client_session_def need_Inr s1_def s2_def s3_def)
  have "w_min V raw = TLS1_2_VERSION \<and> w_mode V raw = SSL_VERIFY_PEER"
    using s_new_contract[OF assms(1) raw] view by simp
  then have 1: "w_min V s1 = TLS1_2_VERSION \<and> w_mode V s1 = SSL_VERIFY_PEER \<and> w_fd V s1 = f"
    using assms(1) rc(1) by (simp add: tls_lib_contract_def s1_def)
  then have 2: "w_min V s2 = TLS1_2_VERSION \<and> w_mode V s2 = SSL_VERIFY_PEER \<and> w_fd V s2 = f \<and> w_sni V s2 = host"
    using assms(1) rc(2) by (simp add: tls_lib_contract_def s2_def)
  then have "w_min V s3 = TLS1_2_VERSION \<and> w_mode V s3 = SSL_VERIFY_PEER \<and> w_fd V s3 = f \<and>
      w_sni V s3 = host \<and> w_host V s3 = host"
    using assms(1) rc(3) by (simp add: tls_lib_contract_def s3_def)
  then show ?thesis using assms(1) f by (simp add: t tls_lib_contract_def)
qed

text \<open>
  A server context that could be created demands TLS 1.2 too, and holds the given certificate chain
  and a private key that has been checked against it.
\<close>

lemma server_context_checked:
  assumes "tls_lib_contract T V" "create_server_context T cert key = Inr c"
  shows "v_min V (tls_ctx c) = TLS1_2_VERSION \<and> v_cert V (tls_ctx c) = Some cert \<and>
    v_key V (tls_ctx c) = Some key \<and> v_checked V (tls_ctx c) \<and> is_server_ctx c \<and> cert \<noteq> [] \<and> key \<noteq> []"
proof -
  have c: "new_context T True (load_server_files T cert key) = Inr c" "cert \<noteq> []" "key \<noteq> []"
    using assms(2) by (simp_all add: create_server_context_def split: sum.splits if_splits)
  from c(1) obtain x where "v_min V x = TLS1_2_VERSION" "load_server_files T cert key x = Inr c"
    by (rule new_context_min[OF assms(1)])
  then show ?thesis using assms(1) c(2,3)
    by (auto simp: load_server_files_def need_Inr tls_lib_contract_def keeps_def split: if_splits)
qed

subsection \<open>A library for the witness\<close>

type_synonym demo_ctx = "c_int \<times> c_int \<times> string option \<times> string option \<times> bool"
type_synonym demo_session = "c_int \<times> c_int \<times> fd \<times> string \<times> string \<times> bool"

definition ok_report :: ssl_report where
  "ok_report = \<lparr>rc = 1, byte = 0, ssl_error = 0, sys_errno = 0, last_error = 0\<rparr>"

definition demo_openssl :: "demo_session openssl" where
  "demo_openssl =
     \<lparr>do_handshake = (\<lambda>s. (ok_report, s)), read_ex = (\<lambda>s n. ((ok_report, []), s)),
      write_ex = (\<lambda>s d. (ok_report, s)), ssl_shutdown = (\<lambda>s. (ok_report, s)),
      has_peer_certificate = (\<lambda>s. True), verify_result = (\<lambda>s. 0), err_get_reason = (\<lambda>e. 0),
      err_reason_string = (\<lambda>e. None)\<rparr>"

definition demo_tls :: "(demo_ctx, demo_session) tls_lib" where
  "demo_tls =
     \<lparr>t_lib = demo_openssl, t_init = ok_report,
      t_new = (\<lambda>server. (Some (0, 0, None, None, False), ok_report)),
      t_min_proto = (\<lambda>v (a, b, c, d, e). (ok_report, (v, b, c, d, e))),
      t_options = (\<lambda>n x. x), t_mode = (\<lambda>n x. x),
      t_cert_chain = (\<lambda>p (a, b, c, d, e). (ok_report, (a, b, Some p, d, e))),
      t_private_key = (\<lambda>p (a, b, c, d, e). (ok_report, (a, b, c, Some p, e))),
      t_check_key = (\<lambda>(a, b, c, d, e). (ok_report, (a, b, c, d, True))),
      t_verify = (\<lambda>m (a, b, c, d, e). (a, m, c, d, e)),
      t_default_paths = (\<lambda>x. (ok_report, x)), t_load_ca = (\<lambda>p x. (ok_report, x)),
      s_new = (\<lambda>(a, b, c, d, e). (Some (a, b, - 1, [], [], False), ok_report)),
      s_set_fd = (\<lambda>f (a, b, c, d, e, g). (ok_report, (a, b, f, d, e, g))),
      s_set_sni = (\<lambda>h (a, b, c, d, e, g). (ok_report, (a, b, c, h, e, g))),
      s_set_host = (\<lambda>h (a, b, c, d, e, g). (ok_report, (a, b, c, d, h, g))),
      s_connect_state = (\<lambda>(a, b, c, d, e, g). (a, b, c, d, e, True))\<rparr>"

definition demo_view :: "(demo_ctx, demo_session) tls_view" where
  "demo_view =
     \<lparr>v_min = (\<lambda>(a, b, c, d, e). a), v_mode = (\<lambda>(a, b, c, d, e). b), v_cert = (\<lambda>(a, b, c, d, e). c),
      v_key = (\<lambda>(a, b, c, d, e). d), v_checked = (\<lambda>(a, b, c, d, e). e),
      w_min = (\<lambda>(a, b, c, d, e, g). a), w_mode = (\<lambda>(a, b, c, d, e, g). b),
      w_fd = (\<lambda>(a, b, c, d, e, g). c), w_sni = (\<lambda>(a, b, c, d, e, g). d),
      w_host = (\<lambda>(a, b, c, d, e, g). e), w_connects = (\<lambda>(a, b, c, d, e, g). g)\<rparr>"

lemma demo_tls_contract: "tls_lib_contract demo_tls demo_view"
  by (auto simp: tls_lib_contract_def demo_tls_def demo_view_def keeps_def)

lemma client_session_strict_witness:
  "\<exists>c t s. create_client_context demo_tls ''ca.pem'' = Inr c \<and>
    create_client_session demo_tls c 5 ''chat.example'' = Inr t \<and>
    ssl t = Some s \<and> w_mode demo_view s = SSL_VERIFY_PEER \<and> w_host demo_view s = ''chat.example''"
proof -
  let ?c = "\<lparr>tls_ctx = (TLS1_2_VERSION, SSL_VERIFY_PEER, None, None, False), is_server_ctx = False\<rparr>"
  let ?s = "(TLS1_2_VERSION, SSL_VERIFY_PEER, 5, ''chat.example'', ''chat.example'', True)"
  let ?t = "\<lparr>ssl = Some ?s, handshake_done = False, want_read = False, want_write = False, peer_closed = False\<rparr>"
  have c: "create_client_context demo_tls ''ca.pem'' = Inr ?c"
    by (simp add: create_client_context_def init_tls_def need_def demo_tls_def ok_report_def new_context_def
        set_common_options_def load_client_paths_def Let_def)
  have t: "create_client_session demo_tls ?c 5 ''chat.example'' = Inr ?t"
    by (simp add: create_client_session_def need_def demo_tls_def ok_report_def)
  show ?thesis using client_session_strict[OF demo_tls_contract c t] c t by blast
qed

end
