(* ===== verification/Path_Util.thy ===== *)
theory Path_Util
  imports Std_Lib
begin

section \<open>Paths and search roots\<close>

text \<open>
  \<open>core/path_util\<close>. A \<open>std::filesystem::path\<close> is its generic POSIX text; the path operations of the
  standard library that the code uses are written out, the file system is a record of parameters:
  which paths are regular files, the canonical form of a path where it can be computed, the target of
  \<open>/proc/self/exe\<close> and the working directory.
\<close>

subsection \<open>Path operations of the standard library\<close>

abbreviation slash :: char where "slash \<equiv> CHR 0x2F"

definition is_absolute :: "string \<Rightarrow> bool" where
  "is_absolute p \<longleftrightarrow> p \<noteq> [] \<and> hd p = slash"

definition path_append :: "string \<Rightarrow> string \<Rightarrow> string" where
  "path_append p q =
     (if is_absolute q then q
      else if p \<noteq> [] \<and> last p \<noteq> slash then p @ [slash] @ q
      else p @ q)"

definition parent_path :: "string \<Rightarrow> string" where
  "parent_path p =
     (let q = rev (dropWhile (\<lambda>c. c \<noteq> slash) (rev p)) in
      if q = [] then []
      else (let r = rev (dropWhile (\<lambda>c. c = slash) (rev q)) in if r = [] then [slash] else r))"

definition has_parent_path :: "string \<Rightarrow> bool" where "has_parent_path p \<longleftrightarrow> parent_path p \<noteq> []"

text \<open>The names of a path, and a final empty one where it ends with a separator.\<close>

fun names :: "string \<Rightarrow> string list" where
  "names [] = [[]]"
| "names (c # cs) = (if c = slash then [] # names cs else (case names cs of n # ns \<Rightarrow> (c # n) # ns | [] \<Rightarrow> [[c]]))"

text \<open>
  \<open>lexically_normal\<close> keeps a stack of names; the flag says that the last name read denotes the
  directory on the stack, which is then written with a separator at its end.
\<close>

fun normal_names :: "bool \<Rightarrow> string list \<Rightarrow> bool \<Rightarrow> string list \<Rightarrow> string list \<times> bool" where
  "normal_names absolute stack dir [] = (rev stack, dir)"
| "normal_names absolute stack dir (n # ns) =
     (if n = [] \<or> n = ''.'' then normal_names absolute stack True ns
      else if n = ''..'' then
        (case stack of
           [] \<Rightarrow> if absolute then normal_names absolute [] True ns else normal_names absolute [n] False ns
         | m # ms \<Rightarrow>
             if m = ''..'' then normal_names absolute (n # stack) False ns
             else normal_names absolute ms True ns)
      else normal_names absolute (n # stack) False ns)"

fun join_names :: "string list \<Rightarrow> string" where
  "join_names [] = []"
| "join_names [n] = n"
| "join_names (n # ns) = n @ [slash] @ join_names ns"

definition lexically_normal :: "string \<Rightarrow> string" where
  "lexically_normal p =
     (if p = [] then []
      else
        (let root = (if is_absolute p then [slash] else []);
             (ns, dir) = normal_names (is_absolute p) [] False (names p);
             q = root @ join_names ns @ (if dir \<and> ns \<noteq> [] \<and> last ns \<noteq> ''..'' then [slash] else [])
         in if q = [] then ''.'' else q))"

subsection \<open>\<open>path_util\<close>\<close>

record file_system =
  fs_regular :: "string \<Rightarrow> bool"
  fs_canonical :: "string \<Rightarrow> string option"
  fs_exe :: "string option"
  fs_cwd :: "string option"

definition normalize :: "file_system \<Rightarrow> string \<Rightarrow> string" where
  "normalize F p = (case fs_canonical F p of Some q \<Rightarrow> q | None \<Rightarrow> lexically_normal p)"

definition push_unique_path :: "file_system \<Rightarrow> string list \<Rightarrow> string \<Rightarrow> string list" where
  "push_unique_path F out p =
     (if p = [] then out
      else (let normalized = normalize F p in if normalized \<in> set out then out else out @ [normalized]))"

text \<open>\<open>argv0\<close> is the first argument, nothing when \<open>argv\<close> or its first entry is null.\<close>

definition executable_dir_argv :: "file_system \<Rightarrow> string option \<Rightarrow> string" where
  "executable_dir_argv F argv0 =
     (case argv0 of
        None \<Rightarrow> []
      | Some exe_path \<Rightarrow>
          if exe_path = [] then []
          else
            (case (if is_absolute exe_path then Some exe_path
                   else map_option (\<lambda>cwd. path_append cwd exe_path) (fs_cwd F)) of
               None \<Rightarrow> []
             | Some p \<Rightarrow> (let n = normalize F p in if has_parent_path n then parent_path n else [])))"

definition executable_dir :: "file_system \<Rightarrow> string option \<Rightarrow> string" where
  "executable_dir F argv0 =
     (case fs_exe F of
        Some proc_exe \<Rightarrow>
          if proc_exe \<noteq> [] \<and> has_parent_path (normalize F proc_exe)
          then parent_path (normalize F proc_exe)
          else executable_dir_argv F argv0
      | None \<Rightarrow> executable_dir_argv F argv0)"

definition push_with_parent :: "file_system \<Rightarrow> string list \<Rightarrow> string \<Rightarrow> string list" where
  "push_with_parent F out p =
     (let out1 = push_unique_path F out p
      in if has_parent_path p then push_unique_path F out1 (parent_path p) else out1)"

definition default_search_roots :: "file_system \<Rightarrow> string option \<Rightarrow> string list" where
  "default_search_roots F argv0 =
     (let roots = (case fs_cwd F of Some cwd \<Rightarrow> push_with_parent F [] cwd | None \<Rightarrow> []);
          exe_dir = executable_dir F argv0
      in if exe_dir \<noteq> [] then push_with_parent F roots exe_dir else roots)"

definition root_has_all_required_files :: "file_system \<Rightarrow> string \<Rightarrow> string list \<Rightarrow> bool" where
  "root_has_all_required_files F root required \<longleftrightarrow>
     list_all (\<lambda>rel. fs_regular F (path_append root rel)) required"

definition resolve_root_with_required_files :: "file_system \<Rightarrow> string option \<Rightarrow> string list \<Rightarrow> string" where
  "resolve_root_with_required_files F argv0 required =
     (let roots = default_search_roots F argv0 in
      case List.find (\<lambda>root. root_has_all_required_files F root required) roots of
        Some root \<Rightarrow> root
      | None \<Rightarrow> if roots \<noteq> [] then hd roots else ''.'')"

definition resolve_from_root :: "string \<Rightarrow> string \<Rightarrow> string" where
  "resolve_from_root root raw_path = (if is_absolute raw_path then raw_path else path_append root raw_path)"

definition resolve_file_in_default_roots :: "file_system \<Rightarrow> string option \<Rightarrow> string \<Rightarrow> string \<Rightarrow> string" where
  "resolve_file_in_default_roots F argv0 relative_file fallback =
     (case List.find (\<lambda>root. fs_regular F (path_append root relative_file)) (default_search_roots F argv0) of
        Some root \<Rightarrow> path_append root relative_file
      | None \<Rightarrow> fallback)"

subsection \<open>Search order\<close>

text \<open>The directories of the search before they are normalised, in order.\<close>

definition search_dirs :: "file_system \<Rightarrow> string option \<Rightarrow> string list" where
  "search_dirs F argv0 =
     (let up = (\<lambda>d. if d = [] then [] else if has_parent_path d then [d, parent_path d] else [d])
      in (case fs_cwd F of Some cwd \<Rightarrow> if cwd = [] then [] else up cwd | None \<Rightarrow> []) @ up (executable_dir F argv0))"

text \<open>The first occurrences, in order.\<close>

definition first_occurrences :: "'a list \<Rightarrow> 'a list" where
  "first_occurrences xs = rev (remdups (rev xs))"

lemma first_occurrences_snoc:
  "first_occurrences (xs @ [x]) = (if x \<in> set xs then first_occurrences xs else first_occurrences xs @ [x])"
  by (simp add: first_occurrences_def)

lemma set_first_occurrences [simp]: "set (first_occurrences xs) = set xs"
  by (simp add: first_occurrences_def)

lemma distinct_first_occurrences [simp]: "distinct (first_occurrences xs)"
  by (simp add: first_occurrences_def)

lemma push_unique_path_first:
  "p \<noteq> [] \<Longrightarrow> push_unique_path F (first_occurrences (map (normalize F) ds)) p =
     first_occurrences (map (normalize F) (ds @ [p]))"
  by (simp add: push_unique_path_def first_occurrences_snoc Let_def)

lemma push_with_parent_first:
  "p \<noteq> [] \<Longrightarrow> push_with_parent F (first_occurrences (map (normalize F) ds)) p =
     first_occurrences (map (normalize F) (ds @ (if has_parent_path p then [p, parent_path p] else [p])))"
  using push_unique_path_first[of p F ds] push_unique_path_first[of "parent_path p" F "ds @ [p]"]
  by (simp add: push_with_parent_def has_parent_path_def Let_def)

lemma parent_path_Nil [simp]: "parent_path [] = []"
  by (simp add: parent_path_def)

lemma default_search_roots_eq:
  "default_search_roots F argv0 = first_occurrences (map (normalize F) (search_dirs F argv0))"
proof -
  have 0: "[] = first_occurrences (map (normalize F) [])" by (simp add: first_occurrences_def)
  have cwd: "(case fs_cwd F of Some cwd \<Rightarrow> push_with_parent F [] cwd | None \<Rightarrow> []) =
      first_occurrences (map (normalize F) (case fs_cwd F of
        Some cwd \<Rightarrow> if cwd = [] then [] else if has_parent_path cwd then [cwd, parent_path cwd] else [cwd] | None \<Rightarrow> []))"
    using push_with_parent_first[of _ F "[]"] 0
    by (auto simp: push_with_parent_def push_unique_path_def has_parent_path_def split: option.split)
  show ?thesis
    unfolding default_search_roots_def cwd Let_def search_dirs_def
    by (auto simp: push_with_parent_first simp flip: map_append split: option.split)
qed

text \<open>\<open>x\<close> is the first match of \<open>P\<close> in \<open>xs\<close>; without any, the first element, and \<open>d\<close> for an empty list.\<close>

definition first_match :: "('a \<Rightarrow> bool) \<Rightarrow> 'a list \<Rightarrow> 'a \<Rightarrow> 'a \<Rightarrow> bool" where
  "first_match P xs d x \<longleftrightarrow>
     (if list_ex P xs
      then P x \<and> (\<exists>before after. xs = before @ x # after \<and> list_all (\<lambda>y. \<not> P y) before)
      else [x] = take 1 (xs @ [d]))"

lemma find_first_match:
  "first_match P xs d (case List.find P xs of Some x \<Rightarrow> x | None \<Rightarrow> if xs \<noteq> [] then hd xs else d)"
proof (cases "List.find P xs")
  case None
  then have "\<not> list_ex P xs" by (auto simp: find_None_iff list_ex_iff)
  with None show ?thesis by (cases xs) (simp_all add: first_match_def)
next
  case (Some x)
  then obtain i where i: "i < length xs" "P (xs ! i)" "x = xs ! i" "\<forall>j<i. \<not> P (xs ! j)"
    by (auto simp: find_Some_iff)
  have "xs = take i xs @ x # drop (Suc i) xs" using i by (simp add: id_take_nth_drop)
  moreover have "list_all (\<lambda>y. \<not> P y) (take i xs)" using i by (auto simp: list_all_length)
  moreover have "list_ex P xs" using i by (auto simp: list_ex_iff)
  ultimately show ?thesis using Some i by (auto simp: first_match_def)
qed

text \<open>
  The configuration root is the first match of the search: the roots are the working directory,
  its parent, the directory of the executable and its parent, in this order, normalised and without
  repetition; the chosen root is the first that holds every required file. Where none does, it is the
  first root, and the current directory when there is no root at all.
\<close>

theorem root_is_first_match:
  "default_search_roots F argv0 = first_occurrences (map (normalize F) (search_dirs F argv0)) \<and>
   first_match (\<lambda>root. list_all (\<lambda>rel. fs_regular F (path_append root rel)) required)
     (default_search_roots F argv0) ''.'' (resolve_root_with_required_files F argv0 required)"
  using find_first_match[of "\<lambda>root. root_has_all_required_files F root required"
      "default_search_roots F argv0" "''.''"]
  by (simp only: default_search_roots_eq resolve_root_with_required_files_def root_has_all_required_files_def
      Let_def)

lemma lexically_normal_examples:
  "lexically_normal ''/srv/./app//../conf/'' = ''/srv/conf/''" "lexically_normal ''a/b/..'' = ''a/''"
  "lexically_normal ''/..'' = ''/''" "lexically_normal ''a/..'' = ''.''" "lexically_normal ''../x'' = ''../x''"
  "parent_path ''/a/b'' = ''/a''" "parent_path ''/a'' = ''/''" "parent_path ''a'' = []"
  by code_simp+

end
