(* ===== verification/Config_Loader.thy ===== *)
theory Config_Loader
  imports Error_Codes Std_Lib
begin

section \<open>Configuration files\<close>

text \<open>
  \<open>core/config_loader\<close>: \<open>key=value\<close> files with comments. A configuration is an association list in
  the order of insertion. A file is what \<open>std::ifstream\<close> gives: nothing when it cannot be opened, else
  its text and whether reading it ended with an error other than the end of the file.
\<close>

type_synonym config_map = "(string \<times> string) list"

datatype text_file = absent_file | text_file string bool

subsection \<open>The functions\<close>

definition trim :: "string \<Rightarrow> string" where
  "trim sv = rev (dropWhile isspace (rev (dropWhile isspace sv)))"

definition trim_wrapping_quotes :: "string \<Rightarrow> string" where
  "trim_wrapping_quotes sv =
     (if length sv \<ge> 2 then
        (let first = hd sv; final = last sv in
         if (first = CHR 0x27 \<and> final = CHR 0x27) \<or> (first = CHR 0x22 \<and> final = CHR 0x22)
         then take (length sv - 2) (drop 1 sv) else sv)
      else sv)"

fun is_comment_or_blank :: "string \<Rightarrow> bool" where
  "is_comment_or_blank [] = True"
| "is_comment_or_blank (ch # line) =
     (if isspace ch then is_comment_or_blank line else ch = CHR ''#'')"

text \<open>\<open>std::getline\<close> until it fails: a last line without line feed counts when it is not empty.\<close>

fun getlines :: "string \<Rightarrow> string list" where
  "getlines [] = []"
| "getlines (c # cs) =
     (if c = LF then [] # getlines cs
      else case getlines cs of
             [] \<Rightarrow> [[c]]
           | l # ls \<Rightarrow> (c # l) # ls)"

fun load_lines :: "string list \<Rightarrow> config_map \<Rightarrow> error_code + config_map" where
  "load_lines [] cfg = Inr cfg"
| "load_lines (line # ls) cfg =
     (if is_comment_or_blank line then load_lines ls cfg
      else
        (case find_from (CHR ''='') line 0 of
           None \<Rightarrow> Inl (from_config malformed_line)
         | Some eq \<Rightarrow>
             (let key = trim (take eq line); value = trim (drop (eq + 1) line) in
              if key = [] then Inl (from_config empty_key)
              else if map_of cfg key \<noteq> None then Inl (from_config duplicate_key)
              else load_lines ls (cfg @ [(key, value)]))))"

definition load_key_value_file :: "text_file \<Rightarrow> error_code + config_map" where
  "load_key_value_file file =
     (case file of
        absent_file \<Rightarrow> Inl (from_config file_not_found)
      | text_file txt bad \<Rightarrow>
          (case load_lines (getlines txt) [] of
             Inl e \<Rightarrow> Inl e
           | Inr cfg \<Rightarrow> if bad then Inl (from_config read_failed) else Inr cfg))"

definition require_key :: "config_map \<Rightarrow> string \<Rightarrow> error_code + string" where
  "require_key cfg key =
     (case map_of cfg key of None \<Rightarrow> Inl (from_config missing_required_key) | Some v \<Rightarrow> Inr v)"

definition get_or :: "config_map \<Rightarrow> string \<Rightarrow> string \<Rightarrow> string" where
  "get_or cfg key fallback = (case map_of cfg key of None \<Rightarrow> fallback | Some v \<Rightarrow> v)"

definition check_server_require :: "config_map \<Rightarrow> config_map \<Rightarrow> error_code + unit" where
  "check_server_require cfg env =
     (case require_key cfg ''db.host'' of Inl e \<Rightarrow> Inl e | Inr _ \<Rightarrow>
     (case require_key cfg ''db.port'' of Inl e \<Rightarrow> Inl e | Inr _ \<Rightarrow>
     (case require_key cfg ''db.name'' of Inl e \<Rightarrow> Inl e | Inr _ \<Rightarrow>
     (case require_key env ''db.user'' of Inl e \<Rightarrow> Inl e | Inr _ \<Rightarrow>
     (case require_key cfg ''tls.cert'' of Inl e \<Rightarrow> Inl e | Inr _ \<Rightarrow>
     (case require_key cfg ''tls.key'' of Inl e \<Rightarrow> Inl e | Inr _ \<Rightarrow>
     (case require_key env ''db.password'' of Inl e \<Rightarrow> Inl e | Inr _ \<Rightarrow> Inr ())))))))"

subsection \<open>What a file means\<close>

text \<open>The lines that count, and the key and value of one.\<close>

definition config_lines :: "string \<Rightarrow> string list" where
  "config_lines txt = filter (\<lambda>l. \<not> is_comment_or_blank l) (getlines txt)"

definition config_entry :: "string \<Rightarrow> string \<times> string" where
  "config_entry l = (trim (takeWhile (\<lambda>c. c \<noteq> CHR ''='') l), trim (tl (dropWhile (\<lambda>c. c \<noteq> CHR ''='') l)))"

lemma find_split:
  assumes "c \<in> set l"
  shows "find_from c l 0 = Some (length (takeWhile (\<lambda>x. x \<noteq> c) l))"
    and "take (length (takeWhile (\<lambda>x. x \<noteq> c) l)) l = takeWhile (\<lambda>x. x \<noteq> c) l"
    and "drop (length (takeWhile (\<lambda>x. x \<noteq> c) l) + 1) l = tl (dropWhile (\<lambda>x. x \<noteq> c) l)"
proof -
  obtain a b where l: "l = a @ c # b" "c \<notin> set a" using split_list_first[OF assms] by blast
  have "\<And>x. x \<in> set a \<Longrightarrow> x \<noteq> c" using l(2) by blast
  then have "takeWhile (\<lambda>x. x \<noteq> c) l = a" "dropWhile (\<lambda>x. x \<noteq> c) l = c # b"
    unfolding l(1) by (simp_all add: takeWhile_append2 dropWhile_append2)
  then show "find_from c l 0 = Some (length (takeWhile (\<lambda>x. x \<noteq> c) l))"
    and "take (length (takeWhile (\<lambda>x. x \<noteq> c) l)) l = takeWhile (\<lambda>x. x \<noteq> c) l"
    and "drop (length (takeWhile (\<lambda>x. x \<noteq> c) l) + 1) l = tl (dropWhile (\<lambda>x. x \<noteq> c) l)"
    using l by (simp_all add: find_from_def)
qed

lemma load_lines_comment: "is_comment_or_blank l \<Longrightarrow> load_lines (l # ls) cfg = load_lines ls cfg"
  by simp

lemma load_lines_entry:
  assumes "\<not> is_comment_or_blank l"
  shows "load_lines (l # ls) cfg =
    (if CHR ''='' \<notin> set l then Inl (from_config malformed_line)
     else if fst (config_entry l) = [] then Inl (from_config empty_key)
     else if fst (config_entry l) \<in> fst ` set cfg then Inl (from_config duplicate_key)
     else load_lines ls (cfg @ [config_entry l]))"
proof (cases "CHR ''='' \<in> set l")
  case True
  note f = find_split[OF True]
  show ?thesis using assms True
    by (simp add: f(1) f(2)[unfolded One_nat_def] f(3)[simplified] config_entry_def Let_def map_of_eq_None_iff)
next
  case False
  then show ?thesis using assms by (simp add: find_from_def find_char_None[THEN iffD2])
qed

lemma load_lines_iff:
  "load_lines ls cfg0 = Inr cfg \<longleftrightarrow>
     (let es = filter (\<lambda>l. \<not> is_comment_or_blank l) ls in
      (\<forall>l \<in> set es. CHR ''='' \<in> set l \<and> fst (config_entry l) \<noteq> []) \<and>
      distinct (map fst (map config_entry es)) \<and> fst ` set cfg0 \<inter> fst ` set (map config_entry es) = {} \<and>
      cfg = cfg0 @ map config_entry es)"
proof (induction ls arbitrary: cfg0)
  case Nil
  then show ?case by auto
next
  case (Cons l ls)
  show ?case
  proof (cases "is_comment_or_blank l")
    case True
    then show ?thesis using Cons.IH by simp
  next
    case False
    then show ?thesis
      by (subst load_lines_entry[OF False]) (auto simp: Cons.IH Let_def)
  qed
qed

text \<open>
  C39. A configuration file is read exactly. Loading succeeds if and only if every line that is neither
  blank nor a comment has an equals sign behind a non-empty key and no key occurs twice; then the
  result maps each key to what follows the first equals sign of its line, both without surrounding
  white space, in the order of the file.
\<close>

theorem config_file_read_exactly:
  "load_key_value_file (text_file txt False) = Inr cfg \<longleftrightarrow>
     (\<forall>l \<in> set (config_lines txt). CHR ''='' \<in> set l \<and> fst (config_entry l) \<noteq> []) \<and>
     distinct (map fst (map config_entry (config_lines txt))) \<and>
     cfg = map config_entry (config_lines txt)"
  using load_lines_iff[of "getlines txt" "[]" cfg]
  by (auto simp: load_key_value_file_def config_lines_def Let_def split: sum.split)

theorem config_file_read_exactly_witness:
  "load_key_value_file (text_file (''# db'' @ [LF] @ '' db.host = h '' @ [LF] @ ''k=a=b'') False) =
     Inr [(''db.host'', ''h''), (''k'', ''a=b'')]"
proof -
  let ?txt = "''# db'' @ [LF] @ '' db.host = h '' @ [LF] @ ''k=a=b''"
  have l: "config_lines ?txt = ['' db.host = h '', ''k=a=b'']"
    by (simp add: config_lines_def isspace_def)
  have e: "config_entry '' db.host = h '' = (''db.host'', ''h'')" "config_entry ''k=a=b'' = (''k'', ''a=b'')"
    by (simp_all add: config_entry_def trim_def isspace_def)
  show ?thesis unfolding config_file_read_exactly by (simp only: l) (simp add: e)
qed

end
