(* ===== verification/Db_Connector.thy ===== *)
theory Db_Connector
  imports Db_Service
begin

section \<open>Connecting to the database\<close>

text \<open>
  \<open>database/db_connector\<close>: the connection string and the creation of the connection. Whether
  \<open>pqxx\<close> can connect with a string is a parameter. The string follows libpq's documented syntax
  of \<open>keyword='value'\<close> pairs, whose quoting rule is \<open>read_conninfo\<close>.
\<close>

definition append_escaped :: "string \<Rightarrow> string \<Rightarrow> string" where
  "append_escaped dst src =
     fold (\<lambda>ch dst. (if ch = CHR 0x5C \<or> ch = CHR 0x27 then dst @ [CHR 0x5C] else dst) @ [ch]) src dst"

abbreviation (input) quote :: char where "quote \<equiv> CHR 0x27"

definition make_conninfo :: "string \<Rightarrow> string \<Rightarrow> string \<Rightarrow> string \<Rightarrow> string \<Rightarrow> string" where
  "make_conninfo host port db_name user password =
     (let c1 = append_escaped (''host='' @ [quote]) host;
          c2 = append_escaped (c1 @ [quote] @ '' port='' @ [quote]) port;
          c3 = append_escaped (c2 @ [quote] @ '' dbname='' @ [quote]) db_name;
          c4 = append_escaped (c3 @ [quote] @ '' user='' @ [quote]) user;
          c5 = append_escaped (c4 @ [quote] @ '' password='' @ [quote]) password
      in c5 @ [quote])"

text \<open>What the constructor of \<open>pqxx::connection\<close> does with a string.\<close>

datatype connect_outcome = connected | connect_throws pqxx_exn | connect_throws_unknown

definition db_connector_create ::
  "(string \<Rightarrow> connect_outcome) \<Rightarrow> string option \<Rightarrow>
     string \<Rightarrow> string \<Rightarrow> string \<Rightarrow> string \<Rightarrow> string \<Rightarrow> error_code + string" where
  "db_connector_create connect env_password host port db_name user password0 =
     (let with_password = (\<lambda>password.
        let conninfo = make_conninfo host port db_name user password in
        case connect conninfo of
          connected \<Rightarrow> Inr conninfo
        | connect_throws ex \<Rightarrow> Inl (map_exception ex)
        | connect_throws_unknown \<Rightarrow> Inl (from_db unknown_exception)) in
      if password0 = [] then
        (case env_password of
           None \<Rightarrow> Inl (from_db missing_password_env)
         | Some p \<Rightarrow> if p = [] then Inl (from_db missing_password_env) else with_password p)
      else with_password password0)"

subsection \<open>The quoting rule\<close>

text \<open>A quoted value: a backslash takes the next character as it is, a quote ends the value.\<close>

fun read_quoted :: "string \<Rightarrow> (string \<times> string) option" where
  "read_quoted [] = None"
| "read_quoted (c # cs) =
     (if c = CHR 0x5C then
        (case cs of
           [] \<Rightarrow> None
         | d # ds \<Rightarrow> map_option (\<lambda>(v, rest). (d # v, rest)) (read_quoted ds))
      else if c = quote then Some ([], cs)
      else map_option (\<lambda>(v, rest). (c # v, rest)) (read_quoted cs))"

lemma read_quoted_shorter: "read_quoted s = Some (v, rest) \<Longrightarrow> length rest < length s"
  by (induction s arbitrary: v rest rule: read_quoted.induct)
     (fastforce split: if_splits list.splits)+

function read_conninfo :: "string \<Rightarrow> (string \<times> string) list option" where
  "read_conninfo s =
     (let k = takeWhile (\<lambda>c. c \<noteq> CHR ''='') s in
      case drop (length k) s of
        c # d # r \<Rightarrow>
          if d \<noteq> quote then None
          else
            (case read_quoted r of
               None \<Rightarrow> None
             | Some (v, []) \<Rightarrow> Some [(k, v)]
             | Some (v, e # rest) \<Rightarrow>
                 if e \<noteq> CHR '' '' then None
                 else map_option (\<lambda>kvs. (k, v) # kvs) (read_conninfo rest))
      | _ \<Rightarrow> None)"
  by pat_completeness auto
termination
proof (relation "measure length", goal_cases)
  case (2 s k c ds d r p v es e rest)
  have "length (c # d # r) \<le> length s" using 2 by (metis length_drop diff_le_self)
  then show ?case using 2 read_quoted_shorter[of r v "e # rest"] by simp
qed simp

declare read_conninfo.simps [simp del]

definition escaped :: "string \<Rightarrow> string" where
  "escaped src = concat (map (\<lambda>ch. if ch = CHR 0x5C \<or> ch = quote then [CHR 0x5C, ch] else [ch]) src)"

lemma append_escaped_eq: "append_escaped dst src = dst @ escaped src"
  unfolding append_escaped_def escaped_def
  by (induction src arbitrary: dst) auto

lemma read_quoted_escaped [simp]: "read_quoted (escaped v @ quote # rest) = Some (v, rest)"
  by (induction v) (auto simp: escaped_def)

lemma read_pair:
  assumes "CHR ''='' \<notin> set k"
  shows "read_conninfo (k @ CHR ''='' # quote # escaped v @ [quote]) = Some [(k, v)]"
    and "read_conninfo (k @ CHR ''='' # quote # escaped v @ quote # CHR '' '' # rest) =
      map_option (\<lambda>kvs. (k, v) # kvs) (read_conninfo rest)"
proof -
  have "takeWhile (\<lambda>c. c \<noteq> CHR ''='') (k @ CHR ''='' # xs) = k" for xs
    using assms by (induction k) auto
  then show "read_conninfo (k @ CHR ''='' # quote # escaped v @ [quote]) = Some [(k, v)]"
    and "read_conninfo (k @ CHR ''='' # quote # escaped v @ quote # CHR '' '' # rest) =
      map_option (\<lambda>kvs. (k, v) # kvs) (read_conninfo rest)"
    by (simp_all add: read_conninfo.simps[of "k @ _"])
qed

text \<open>
  C40. The values of the configuration cannot change the meaning of the connection string: read by
  libpq's quoting rule, the string is exactly the five keywords with exactly the five values,
  whatever quotes, backslashes, spaces or equals signs they hold.
\<close>

theorem conninfo_roundtrip:
  "read_conninfo (make_conninfo host port db_name user password) =
     Some [(''host'', host), (''port'', port), (''dbname'', db_name), (''user'', user), (''password'', password)]"
proof -
  have "make_conninfo host port db_name user password =
      ''host'' @ CHR ''='' # quote # escaped host @ quote # CHR '' '' #
      (''port'' @ CHR ''='' # quote # escaped port @ quote # CHR '' '' #
      (''dbname'' @ CHR ''='' # quote # escaped db_name @ quote # CHR '' '' #
      (''user'' @ CHR ''='' # quote # escaped user @ quote # CHR '' '' #
      (''password'' @ CHR ''='' # quote # escaped password @ [quote]))))"
    by (simp add: make_conninfo_def append_escaped_eq Let_def)
  moreover have "CHR ''='' \<notin> set ''host''" "CHR ''='' \<notin> set ''port''" "CHR ''='' \<notin> set ''dbname''"
    "CHR ''='' \<notin> set ''user''" "CHR ''='' \<notin> set ''password''" by simp_all
  ultimately show ?thesis by (simp only: read_pair option.map not_False_eq_True)
qed

end
