(* ===== verification/Startup.thy ===== *)
theory Startup
  imports Net_Setup Tls_Setup Path_Util Config_Loader Db_Connector Chat_System Chat_Client
begin

section \<open>Starting and stopping the two programs\<close>

text \<open>
  \<open>epoll_server::create\<close> and \<open>run\<close>, \<open>chat_client::create\<close> and \<open>run\<close>, and the two \<open>main\<close> functions:
  how configuration, paths, the database connection, TLS contexts and sockets come together, what is
  closed again when a step fails, and which error a stopped program reports. Log lines and the
  installation of signal masks are left out, except that a failing \<open>pthread_sigmask\<close> ends the server.
\<close>

subsection \<open>\<open>epoll_server::create\<close>\<close>

text \<open>The members of a listener are destroyed from the last to the first, then its base class.\<close>

definition destroy_listener :: "('k, 's) env \<Rightarrow> listener \<Rightarrow> 'k \<Rightarrow> 'k" where
  "destroy_listener E l k = close_fd E (l_epfd l) (close_fd E (l_wake_fd l) (close_fd E (l_fd l) k))"

definition epoll_server_init ::
  "'x tls_context \<Rightarrow> fd \<times> fd \<Rightarrow> 'k \<Rightarrow> ('k, 's) server" where
  "epoll_server_init ctx w k =
     (let (epf, wfd) = w in
      \<lparr>registry_of = registry_init epf wfd (is_server_ctx ctx) k, thread_pool_of = pool_init,
       db_pool_of = pool_init\<rparr>)"

definition epoll_server_create ::
  "('k, 's) env \<Rightarrow> 'k net \<Rightarrow> string \<Rightarrow> 'x tls_context \<Rightarrow> 'k \<Rightarrow>
     (error_code + listener \<times> ('k, 's) server) \<times> 'k" where
  "epoll_server_create E N port ctx k =
     (case get_addr_server N port k of
        (Inl e, k1) \<Rightarrow> (Inl e, k1)
      | (Inr res, k1) \<Rightarrow>
          (case listener_create E N (addr_get res) k1 of
             (Inl e, k2) \<Rightarrow> (Inl e, k2)
           | (Inr l, k2) \<Rightarrow>
               (case wakeup_create E k2 of
                  (Inl e, k3) \<Rightarrow> (Inl e, destroy_listener E l k3)
                | (Inr w, k3) \<Rightarrow> (Inr (l, epoll_server_init ctx w k3), k3))))"

text \<open>A created server is in the initial state of the step relation of \<open>Chat_System\<close>.\<close>

lemma created_server_initial:
  assumes "epoll_server_create E N port ctx k = (Inr (l, S), k1)" and "is_server_ctx ctx"
  shows "\<exists>epf wfd k2. S = srv (system_init epf wfd k2 d)"
  using assms
  by (auto simp: epoll_server_create_def epoll_server_init_def system_init_def split: prod.splits sum.splits)

subsection \<open>\<open>chat_client::create\<close>\<close>

definition client_socket :: "'s tls_session \<Rightarrow> 's socket_info" where
  "client_socket t =
     \<lparr>recv = empty_buffer, send = empty_buffer, tls = t, is_closed = False, interest = 0, ufd = - 1,
      ep = \<lparr>ep_ip = [], ep_port = []\<rparr>, user_id = [], nickname = ''guest'', joined_room_ids = []\<rparr>"

text \<open>The socket to the server is owned: it is closed where a later step fails.\<close>

definition chat_client_create ::
  "('k, 's) env \<Rightarrow> 'k net \<Rightarrow> ('x, 's) tls_lib \<Rightarrow> string \<Rightarrow> string \<Rightarrow> string \<Rightarrow> 'k \<Rightarrow>
     (error_code + fd \<times> 'x tls_context \<times> 's client) \<times> 'k" where
  "chat_client_create E N T ip port ca_file_path k =
     (case get_addr_client N ip port k of
        (Inl e, k1) \<Rightarrow> (Inl e, k1)
      | (Inr res, k1) \<Rightarrow>
          (case make_server_fd E N (addr_get res) k1 of
             (Inl e, k2) \<Rightarrow> (Inl e, k2)
           | (Inr server_fd, k2) \<Rightarrow>
               (case create_client_context T ca_file_path of
                  Inl e \<Rightarrow> (Inl e, close_fd E server_fd k2)
                | Inr ctx \<Rightarrow>
                    (case create_client_session T ctx server_fd ip of
                       Inl e \<Rightarrow> (Inl e, close_fd E server_fd k2)
                     | Inr t \<Rightarrow> (Inr (server_fd, ctx, client_init (client_socket t)), k2)))))"

subsection \<open>Stopping\<close>

text \<open>
  Both \<open>run\<close> functions wait for the first \<open>signal_stop\<close>, then stop and join their threads, which may
  call it again. The calls are listed in the order in which they take the lock; without any the
  function does not return.
\<close>

record run_state =
  error_opt :: "error_code option"
  run_stop_requested :: bool

definition signal_stop :: "error_code option \<Rightarrow> run_state \<Rightarrow> run_state" where
  "signal_stop ec st =
     (let st1 = (if ec \<noteq> None \<and> error_opt st = None then st\<lparr>error_opt := ec\<rparr> else st)
      in st1\<lparr>run_stop_requested := True\<rparr>)"

definition run_outcome :: "error_code option list \<Rightarrow> (error_code + unit) option" where
  "run_outcome calls =
     (let st = fold signal_stop calls \<lparr>error_opt = None, run_stop_requested = False\<rparr> in
      if \<not> run_stop_requested st then None
      else Some (case error_opt st of Some e \<Rightarrow> Inl e | None \<Rightarrow> Inr ()))"

text \<open>What the threads call when they end: the acceptor and the event loop only on an error.\<close>

definition server_thread_call :: "error_code + unit \<Rightarrow> error_code option list" where
  "server_thread_call res = (case res of Inl e \<Rightarrow> [Some e] | Inr _ \<Rightarrow> [])"

definition client_io_call :: "error_code + unit \<Rightarrow> error_code option list" where
  "client_io_call res = (case res of Inl e \<Rightarrow> [Some e] | Inr _ \<Rightarrow> [None])"

definition client_executor_call :: "error_code option list" where
  "client_executor_call = [None]"

definition first_error :: "error_code option list \<Rightarrow> error_code option" where
  "first_error calls = (case List.find (\<lambda>c. c \<noteq> None) calls of Some c \<Rightarrow> c | None \<Rightarrow> None)"

lemma fold_signal_stop:
  "fold signal_stop calls st =
     \<lparr>error_opt = (case error_opt st of Some e \<Rightarrow> Some e | None \<Rightarrow> first_error calls),
      run_stop_requested = (run_stop_requested st \<or> calls \<noteq> [])\<rparr>"
  by (induction calls arbitrary: st) (auto simp: signal_stop_def first_error_def split: option.split)

text \<open>
  The first error that was signalled is reported, whatever comes later; a stop without error is a
  success.
\<close>

lemma run_outcome_eq:
  "run_outcome calls =
     (if calls = [] then None
      else Some (case first_error calls of Some e \<Rightarrow> Inl e | None \<Rightarrow> Inr ()))"
  by (simp add: run_outcome_def fold_signal_stop)

lemma first_error_append:
  "first_error (xs @ ys) = (case first_error xs of Some e \<Rightarrow> Some e | None \<Rightarrow> first_error ys)"
  by (induction xs) (auto simp: first_error_def)

subsection \<open>The client's \<open>main\<close>\<close>

text \<open>
  The arguments after the program name; \<open>None\<close> is the usage message. The client connects to the
  given address with the given or the default certificate authority.
\<close>

definition client_settings ::
  "file_system \<Rightarrow> string option \<Rightarrow> string list \<Rightarrow> (string \<times> string \<times> string) option" where
  "client_settings F argv0 arguments =
     (let ca_path = resolve_file_in_default_roots F argv0 ''certs/ca.crt.pem'' ''certs/ca.crt.pem'' in
      case arguments of
        [] \<Rightarrow> Some (''127.0.0.1'', ''8080'', ca_path)
      | [ip] \<Rightarrow> Some (ip, ''8080'', ca_path)
      | [ip, port] \<Rightarrow> Some (ip, port, ca_path)
      | [ip, port, ca] \<Rightarrow> Some (ip, port, ca)
      | _ \<Rightarrow> None)"

definition client_main ::
  "('k, 's) env \<Rightarrow> 'k net \<Rightarrow> ('x, 's) tls_lib \<Rightarrow> file_system \<Rightarrow> string option \<Rightarrow> string list \<Rightarrow>
     (fd \<times> 'x tls_context \<times> 's client \<Rightarrow> error_code + unit) \<Rightarrow> 'k \<Rightarrow> nat" where
  "client_main E N T F argv0 arguments run_client k =
     (case client_settings F argv0 arguments of
        None \<Rightarrow> 1
      | Some (ip, port, ca_path) \<Rightarrow>
          (case fst (chat_client_create E N T ip port ca_path k) of
             Inl _ \<Rightarrow> 1
           | Inr c \<Rightarrow> (case run_client c of Inl _ \<Rightarrow> 1 | Inr _ \<Rightarrow> 0)))"

subsection \<open>The server's \<open>main\<close>\<close>

record 'x server_config =
  su_root :: string
  su_conninfo :: string
  su_ctx :: "'x tls_context"
  su_port :: string

text \<open>
  From the files to the TLS context: each step that fails ends the program with its error. \<open>files\<close> is
  what reading a path gives, \<open>connect\<close> what the database answers to a connection string, \<open>env_password\<close>
  the variable \<open>DB_PASSWORD\<close>.
\<close>

definition server_settings ::
  "('x, 's) tls_lib \<Rightarrow> (string \<Rightarrow> connect_outcome) \<Rightarrow> string option \<Rightarrow> string \<Rightarrow>
     config_map \<Rightarrow> config_map \<Rightarrow> error_code + 'x server_config" where
  "server_settings T connect env_password root cfg env =
     (let db_host = get_or cfg ''db.host'' ''127.0.0.1'';
          db_port = get_or cfg ''db.port'' ''5432'';
          db_name = get_or cfg ''db.name'' [];
          db_user = trim_wrapping_quotes (get_or env ''db.user'' []);
          db_password = trim_wrapping_quotes (get_or env ''db.password'' []);
          server_port = get_or cfg ''server.port'' ''8080'';
          tls_cert_path = resolve_from_root root (get_or cfg ''tls.cert'' []);
          tls_key_path = resolve_from_root root (get_or cfg ''tls.key'' [])
      in case db_connector_create connect env_password db_host db_port db_name db_user db_password of
           Inl e \<Rightarrow> Inl e
         | Inr conninfo \<Rightarrow>
             (case create_server_context T tls_cert_path tls_key_path of
                Inl e \<Rightarrow> Inl e
              | Inr ctx \<Rightarrow>
                  Inr \<lparr>su_root = root, su_conninfo = conninfo, su_ctx = ctx, su_port = server_port\<rparr>))"

definition server_setup ::
  "('x, 's) tls_lib \<Rightarrow> file_system \<Rightarrow> (string \<Rightarrow> text_file) \<Rightarrow> string option \<Rightarrow>
     (string \<Rightarrow> connect_outcome) \<Rightarrow> string option \<Rightarrow> error_code + 'x server_config" where
  "server_setup T F files argv0 connect env_password =
     (let root_path = resolve_root_with_required_files F argv0 [''config/server.conf'', ''.env'']
      in case load_key_value_file (files (path_append root_path ''config/server.conf'')) of
           Inl e \<Rightarrow> Inl e
         | Inr cfg \<Rightarrow>
             (case load_key_value_file (files (path_append root_path ''.env'')) of
                Inl e \<Rightarrow> Inl e
              | Inr env \<Rightarrow>
                  (case check_server_require cfg env of
                     Inl e \<Rightarrow> Inl e
                   | Inr _ \<Rightarrow> server_settings T connect env_password root_path cfg env)))"

text \<open>
  The thread that waits for a signal: \<open>Inr sig\<close> is a signal of the set, \<open>Inl\<close> a return of -1. It asks
  the server to stop on the first \<open>SIGINT\<close> or \<open>SIGTERM\<close>; on another error than a timeout or an
  interruption it gives up, and the server can no longer be stopped by a signal.
\<close>

definition SIGINT :: c_int where "SIGINT = 2"
definition SIGTERM :: c_int where "SIGTERM = 15"

definition signal_to_string :: "c_int \<Rightarrow> string" where
  "signal_to_string sig =
     (if sig = SIGINT then ''SIGINT'' else if sig = SIGTERM then ''SIGTERM'' else ''UNKNOWN'')"

fun signal_waiter :: "(c_int + c_int) list \<Rightarrow> bool" where
  "signal_waiter [] = False"
| "signal_waiter (Inr sig # rs) = (if sig = SIGINT \<or> sig = SIGTERM then True else signal_waiter rs)"
| "signal_waiter (Inl ec # rs) = (if ec = EAGAIN \<or> ec = EINTR then signal_waiter rs else False)"

definition server_main ::
  "('k, 's) env \<Rightarrow> 'k net \<Rightarrow> ('x, 's) tls_lib \<Rightarrow> file_system \<Rightarrow> (string \<Rightarrow> text_file) \<Rightarrow> string option \<Rightarrow>
     (string \<Rightarrow> connect_outcome) \<Rightarrow> string option \<Rightarrow> c_int \<Rightarrow>
     (listener \<times> ('k, 's) server \<Rightarrow> error_code + unit) \<Rightarrow> 'k \<Rightarrow> nat" where
  "server_main E N T F files argv0 connect env_password mask_rc run_server k =
     (if mask_rc \<noteq> 0 then 1
      else
        (case server_setup T F files argv0 connect env_password of
           Inl _ \<Rightarrow> 1
         | Inr su \<Rightarrow>
             (case fst (epoll_server_create E N (su_port su) (su_ctx su) k) of
                Inl _ \<Rightarrow> 1
              | Inr s \<Rightarrow> (case run_server s of Inl _ \<Rightarrow> 1 | Inr _ \<Rightarrow> 0))))"


subsection \<open>No descriptor is leaked\<close>

lemma close_listener_opened:
  assumes "fd_contract E N opened" "- 1 \<notin> {l_fd l, l_wake_fd l, l_epfd l}"
  shows "opened (destroy_listener E l k) = opened k - {l_fd l, l_wake_fd l, l_epfd l}"
  using assms(2) by (auto simp: destroy_listener_def close_opened[OF assms(1)])

lemma epoll_server_create_owns:
  assumes "fd_contract E N opened"
  shows "owns_fds opened (\<lambda>(l, S). [l_fd l, l_wake_fd l, l_epfd l, wake_fd (registry_of S), epfd (registry_of S)]) k
    (epoll_server_create E N port ctx k)"
proof -
  obtain ra k1 where a: "get_addr_server N port k = (ra, k1)" by fastforce
  have k1: "opened k1 = opened k" by (rule get_addr_opened(1)[OF assms a])
  show ?thesis
  proof (cases ra)
    case (Inl e)
    then show ?thesis using a k1 by (simp add: epoll_server_create_def owns_fds_def)
  next
    case ra: (Inr res)
    obtain rl k2 where l: "listener_create E N (addr_get res) k1 = (rl, k2)" by fastforce
    have ol: "owns_fds opened (\<lambda>l. [l_fd l, l_wake_fd l, l_epfd l]) k1 (rl, k2)"
      using listener_create_owns[OF assms, of k1 "addr_get res"] by (simp add: l)
    obtain rw k3 where w: "wakeup_create E k2 = (rw, k3)" by fastforce
    have ow: "owns_fds opened (\<lambda>(epf, wfd). [wfd, epf]) k2 (rw, k3)"
      using wakeup_create_owns[OF assms, of k2] by (simp add: w)
    show ?thesis
    proof (cases rl)
      case (Inl e)
      then show ?thesis using a ra l ol k1 by (simp add: epoll_server_create_def owns_fds_def)
    next
      case rl: (Inr q)
      show ?thesis
      proof (cases rw)
        case (Inl e)
        then have "opened k3 = opened k2" using ow by (simp add: owns_fds_def)
        moreover have "- 1 \<notin> {l_fd q, l_wake_fd q, l_epfd q}" "opened k2 - {l_fd q, l_wake_fd q, l_epfd q} = opened k"
          using ol k1 by (auto simp: rl owns_fds_def)
        ultimately have "opened (destroy_listener E q k3) = opened k"
          using close_listener_opened[OF assms] by simp
        then show ?thesis using a ra l rl w Inl by (simp add: epoll_server_create_def owns_fds_def)
      next
        case (Inr p)
        then show ?thesis using a ra l rl w ol ow k1
          by (cases p) (auto simp: epoll_server_create_def epoll_server_init_def registry_init_def owns_fds_def)
      qed
    qed
  qed
qed

lemma chat_client_create_cases:
  assumes "chat_client_create E N T ip port ca k = (r, k1)"
  obtains (connect_failed) res k0 e where "get_addr_client N ip port k = (Inr res, k0)"
      "make_server_fd E N (addr_get res) k0 = (Inl e, k1)" "r = Inl e"
    | (unresolved) e where "get_addr_client N ip port k = (Inl e, k1)" "r = Inl e"
    | (tls_failed) res k0 f k2 e where "get_addr_client N ip port k = (Inr res, k0)"
      "make_server_fd E N (addr_get res) k0 = (Inr f, k2)" "k1 = close_fd E f k2" "r = Inl e"
    | (success) res k0 f ctx t where "get_addr_client N ip port k = (Inr res, k0)"
      "make_server_fd E N (addr_get res) k0 = (Inr f, k1)"
      "create_client_context T ca = Inr ctx" "create_client_session T ctx f ip = Inr t"
      "r = Inr (f, ctx, client_init (client_socket t))"
  using assms by (auto simp: chat_client_create_def split: prod.splits sum.splits)

lemma chat_client_create_owns:
  assumes "fd_contract E N opened"
  shows "owns_fds opened (\<lambda>(f, _, _). [f]) k (chat_client_create E N T ip port ca k)"
proof -
  obtain r k1 where c: "chat_client_create E N T ip port ca k = (r, k1)" by fastforce
  have fd: "owns_fds opened (\<lambda>f. [f]) k p" if "get_addr_client N ip port k = (Inr res, k0)"
    "make_server_fd E N (addr_get res) k0 = p" for res k0 p
    using make_server_fd_owns[OF assms, of k0 "addr_get res"] get_addr_opened(2)[OF assms that(1)] that(2)
    by (auto simp: owns_fds_def split: prod.splits sum.splits)
  from c show ?thesis
  proof (cases rule: chat_client_create_cases)
    case (connect_failed res k0 e)
    then show ?thesis using fd[OF connect_failed(1,2)] c by (simp add: owns_fds_def)
  next
    case (unresolved e)
    then show ?thesis using get_addr_opened(2)[OF assms unresolved(1)] c by (simp add: owns_fds_def)
  next
    case (tls_failed res k0 f k2 e)
    then have "opened k1 = opened k" using fd[OF tls_failed(1,2)] by (simp add: owns_fds_def close_opened[OF assms])
    then show ?thesis using c tls_failed(4) by (simp add: owns_fds_def)
  next
    case (success res k0 f ctx t)
    then show ?thesis using fd[OF success(1,2)] c by (simp add: owns_fds_def)
  qed
qed

text \<open>
  C33. Starting leaks no descriptor, on either side. Whichever call fails, on whichever of the
  resolved addresses, every descriptor opened on the way is closed again; on success exactly those of
  the result stay open: the connected socket of the client; of the server the listening socket, the
  epoll instances and the wakeup counters of its listener and its registry, five different
  descriptors that were not open before.
\<close>

theorem startup_leaks_no_descriptor:
  assumes "fd_contract E N opened"
  shows "owns_fds opened (\<lambda>(l, S). [l_fd l, l_wake_fd l, l_epfd l, wake_fd (registry_of S), epfd (registry_of S)]) k
      (epoll_server_create E N port ctx k) \<and>
    owns_fds opened (\<lambda>(f, _, _). [f]) k (chat_client_create E N T ip port ca k)"
  using epoll_server_create_owns[OF assms] chat_client_create_owns[OF assms] by blast

text \<open>
  C32. A client that could be created insists on its server: it holds a TLS session on the connected
  socket that negotiates at least TLS 1.2, verifies the certificate chain, sends the name it was asked
  to connect to and accepts only a certificate for that name; nothing has been sent, and the peer
  does not count as verified yet. No session is made without a name or on an invalid descriptor.
\<close>

theorem created_client_verifies_server:
  assumes "tls_lib_contract T V" and "chat_client_create E N T ip port ca k = (Inr (f, ctx, C), k1)"
  shows "\<exists>s. ssl (tls (c_si C)) = Some s \<and> w_min V s = TLS1_2_VERSION \<and> w_mode V s = SSL_VERIFY_PEER \<and>
    w_host V s = ip \<and> w_sni V s = ip \<and> w_fd V s = f \<and> w_connects V s \<and> ip \<noteq> [] \<and> f \<ge> 0 \<and>
    \<not> handshake_done (tls (c_si C)) \<and> \<not> peer_verified C \<and> pending (send (c_si C)) = []"
  using assms(2)
proof (cases rule: chat_client_create_cases)
  case (success res k0 f' ctx' t)
  then show ?thesis using client_session_strict[OF assms(1) success(3,4)]
    by (auto simp: client_init_def client_socket_def)
qed simp_all

definition chat_net :: "line_kernel net" where
  "chat_net = line_net\<lparr>k_getaddrinfo := (\<lambda>h p opt k. (Inr [node ''refused'', node ''here''], k))\<rparr>"

lemma demo_startup:
  "chat_client_create (line_env demo_openssl (0, 0, 0, [], [], False)) chat_net
     demo_tls ''chat.example'' ''8080'' ''ca.pem'' ([2], [], 0) =
   (Inr (3, \<lparr>tls_ctx = (TLS1_2_VERSION, SSL_VERIFY_PEER, None, None, False), is_server_ctx = False\<rparr>,
     client_init (client_socket
       \<lparr>ssl = Some (TLS1_2_VERSION, SSL_VERIFY_PEER, 3, ''chat.example'', ''chat.example'', True),
        handshake_done = False, want_read = False, want_write = False, peer_closed = False\<rparr>)), ([3, 2], [], 0))"
  by (simp add: chat_client_create_def get_addr_client_def resolve_client_def resolve_def addr_get_def
      make_server_fd_def chat_net_def line_net_def line_env_def open_socket_def node_def fresh_def close_fd_def
      create_client_context_def init_tls_def need_def demo_tls_def ok_report_def new_context_def
      set_common_options_def load_client_paths_def create_client_session_def Let_def)

lemma created_client_verifies_server_witness:
  "\<exists>f ctx C s k1. chat_client_create (line_env demo_openssl (0, 0, 0, [], [], False))
      chat_net
      demo_tls ''chat.example'' ''8080'' ''ca.pem'' ([2], [], 0) = (Inr (f, ctx, C), k1) \<and>
    ssl (tls (c_si C)) = Some s \<and> w_host demo_view s = ''chat.example'' \<and> w_mode demo_view s = SSL_VERIFY_PEER"
  using created_client_verifies_server[OF demo_tls_contract demo_startup] demo_startup by blast

lemma line_fd_contract_nodes:
  "fd_contract (line_env L s0) chat_net line_opened"
  using line_fd_contract[of L s0] by (simp add: fd_contract_def chat_net_def)

lemma startup_leaks_no_descriptor_witness:
  "owns_fds line_opened (\<lambda>(f, _, _). [f]) ([2], [], 0)
     (chat_client_create (line_env demo_openssl (0, 0, 0, [], [], False))
       chat_net
       demo_tls ''chat.example'' ''8080'' ''ca.pem'' ([2], [], 0))"
  by (rule conjunct2[OF startup_leaks_no_descriptor[OF line_fd_contract_nodes]])

subsection \<open>The server starts only as configured\<close>

lemma db_connector_create_Inr:
  assumes "db_connector_create connect env_password host port db_name user password0 = Inr conninfo"
  shows "\<exists>password. password \<noteq> [] \<and> password \<in> {password0, the env_password} \<and>
    conninfo = make_conninfo host port db_name user password \<and> connect conninfo = connected"
  using assms
  by (auto simp: db_connector_create_def Let_def split: if_splits option.splits connect_outcome.splits)

lemma require_key_Inr: "require_key cfg key = Inr v \<longleftrightarrow> map_of cfg key = Some v"
  by (simp add: require_key_def split: option.split)

lemma check_server_require_iff:
  "check_server_require cfg env = Inr () \<longleftrightarrow>
     {''db.host'', ''db.port'', ''db.name'', ''tls.cert'', ''tls.key''} \<subseteq> dom (map_of cfg) \<and>
     {''db.user'', ''db.password''} \<subseteq> dom (map_of env)"
  by (auto simp: check_server_require_def require_key_def dom_def split: option.splits)


definition demo_fs :: file_system where
  "demo_fs = \<lparr>fs_regular = (\<lambda>p. True), fs_canonical = (\<lambda>p. Some p), fs_exe = None, fs_cwd = Some ''/srv''\<rparr>"

definition demo_conf :: string where
  "demo_conf = ''db.host=h'' @ [LF] @ ''db.port=1'' @ [LF] @ ''db.name=n'' @ [LF] @
     ''tls.cert=c.pem'' @ [LF] @ ''tls.key=/k.pem''"

definition demo_dotenv :: string where
  "demo_dotenv = ''db.user=u'' @ [LF] @ ''db.password=p''"

definition demo_files :: "string \<Rightarrow> text_file" where
  "demo_files p = text_file (if p = ''/srv/.env'' then demo_dotenv else demo_conf) False"

lemma demo_loaded:
  "load_key_value_file (text_file demo_conf False) =
     Inr [(''db.host'', ''h''), (''db.port'', ''1''), (''db.name'', ''n''), (''tls.cert'', ''c.pem''), (''tls.key'', ''/k.pem'')]"
  "load_key_value_file (text_file demo_dotenv False) = Inr [(''db.user'', ''u''), (''db.password'', ''p'')]"
  by code_simp+

lemma demo_root:
  "resolve_root_with_required_files demo_fs None [''config/server.conf'', ''.env''] = ''/srv''"
  "path_append ''/srv'' ''.env'' = ''/srv/.env''" "path_append ''/srv'' ''config/server.conf'' = ''/srv/config/server.conf''"
  "resolve_from_root ''/srv'' ''c.pem'' = ''/srv/c.pem''" "resolve_from_root ''/srv'' ''/k.pem'' = ''/k.pem''"
  "trim_wrapping_quotes ''u'' = ''u''" "trim_wrapping_quotes ''p'' = ''p''"
  by code_simp+

lemma demo_server_setup:
  "\<exists>su. server_setup demo_tls demo_fs demo_files None (\<lambda>c. connected) None = Inr su"
  by (simp add: server_setup_def demo_root demo_loaded demo_files_def check_server_require_def require_key_def
      server_settings_def get_or_def db_connector_create_def create_server_context_def init_tls_def need_def
      demo_tls_def ok_report_def new_context_def set_common_options_def load_server_files_def Let_def)


end
