(* ===== verification/Run_Threads.thy ===== *)
theory Run_Threads
  imports Startup
begin

section \<open>The threads of the two \<open>run\<close> functions\<close>

text \<open>
  \<open>chat_client::run\<close> and \<open>epoll_server::run\<close> start two threads each, wait on a condition variable for the
  first \<open>signal_stop\<close>, ask the threads to stop, wake them and join them. Every thread is a program
  counter and a function to its next state, \<open>None\<close> where it is blocked; the step relations interleave
  them. A thread in \<open>cv.wait\<close> first evaluates the predicate under the lock (\<open>holds\<close>: it was false and
  the lock is still held), then releases the lock and sleeps. Taking a lock is blocked while
  another thread holds it; a notification takes no lock and reaches only a thread that sleeps.
\<close>

subsection \<open>The client\<close>

datatype executor_pc = exec_checks | exec_holds | exec_sleeps | exec_runs command
  | exec_returned | exec_signalled | exec_ended

datatype io_pc = io_loops | io_pushed | io_returned "error_code + unit" | io_signalled | io_ended

datatype client_pc = cm_checks | cm_holds | cm_sleeps | cm_stop_executor | cm_notify_executor
  | cm_stop_io | cm_join_executor | cm_join_io | cm_done "error_code + unit"

text \<open>
  The stop flag of the executor's token is the one its queue reads; \<open>ct_pushed\<close>, \<open>ct_executed\<close> and
  \<open>ct_result\<close> record what was queued, what was executed and what the I/O loop returned.
\<close>

record client_threads =
  ct_state :: run_state
  ct_main :: client_pc
  ct_executor :: executor_pc
  ct_io :: io_pc
  ct_queue :: chat_queue
  ct_io_stop :: bool
  ct_pushed :: "command list"
  ct_executed :: "command list"
  ct_result :: "(error_code + unit) option"

definition run_state_init :: run_state where
  "run_state_init = \<lparr>error_opt = None, run_stop_requested = False\<rparr>"

definition client_threads_init :: client_threads where
  "client_threads_init =
     \<lparr>ct_state = run_state_init, ct_main = cm_checks, ct_executor = exec_checks, ct_io = io_loops,
      ct_queue = \<lparr>execute_q = [], stop_requested = False\<rparr>, ct_io_stop = False, ct_pushed = [],
      ct_executed = [], ct_result = None\<rparr>"

definition notify_executor :: "client_threads \<Rightarrow> client_threads" where
  "notify_executor s = (if ct_executor s = exec_sleeps then s\<lparr>ct_executor := exec_checks\<rparr> else s)"

definition notify_client :: "client_threads \<Rightarrow> client_threads" where
  "notify_client s = (if ct_main s = cm_sleeps then s\<lparr>ct_main := cm_checks\<rparr> else s)"

definition client_signal :: "error_code option \<Rightarrow> client_threads \<Rightarrow> client_threads" where
  "client_signal ec s = s\<lparr>ct_state := signal_stop ec (ct_state s)\<rparr>"

text \<open>\<open>chat_executor::run\<close>, and what its thread does when it has returned.\<close>

definition executor_next :: "client_threads \<Rightarrow> client_threads option" where
  "executor_next s =
     (case ct_executor s of
        exec_checks \<Rightarrow> Some (case chat_wait (ct_queue s) of
            (keep_waiting, q) \<Rightarrow> s\<lparr>ct_executor := exec_holds\<rparr>
          | (leave_loop, q) \<Rightarrow> s\<lparr>ct_executor := exec_returned\<rparr>
          | (take_task c, q) \<Rightarrow> s\<lparr>ct_executor := exec_runs c, ct_queue := q\<rparr>)
      | exec_holds \<Rightarrow> Some (s\<lparr>ct_executor := exec_sleeps\<rparr>)
      | exec_sleeps \<Rightarrow> None
      | exec_runs c \<Rightarrow> Some (s\<lparr>ct_executor := exec_checks, ct_executed := ct_executed s @ [c]\<rparr>)
      | exec_returned \<Rightarrow>
          (if ct_main s = cm_holds then None else Some ((client_signal None s)\<lparr>ct_executor := exec_signalled\<rparr>))
      | exec_signalled \<Rightarrow> Some ((notify_client s)\<lparr>ct_executor := exec_ended\<rparr>)
      | exec_ended \<Rightarrow> None)"

text \<open>
  The I/O thread: its loop queues commands, and returns at some time with some result; what it does
  in between is \<open>client_turn\<close> of \<open>Chat_Client\<close>.
\<close>

datatype io_action = io_queues command | io_returns "error_code + unit"

definition io_next :: "io_action \<Rightarrow> client_threads \<Rightarrow> client_threads option" where
  "io_next act s =
     (case ct_io s of
        io_loops \<Rightarrow>
          (case act of
             io_queues c \<Rightarrow>
               (if ct_executor s = exec_holds then None
                else Some (s\<lparr>ct_io := io_pushed, ct_queue := request_execute c (ct_queue s),
                              ct_pushed := ct_pushed s @ [c]\<rparr>))
           | io_returns res \<Rightarrow> Some (s\<lparr>ct_io := io_returned res, ct_result := Some res\<rparr>))
      | io_pushed \<Rightarrow> Some ((notify_executor s)\<lparr>ct_io := io_loops\<rparr>)
      | io_returned res \<Rightarrow>
          (if ct_main s = cm_holds then None
           else Some ((client_signal (case res of Inl e \<Rightarrow> Some e | Inr _ \<Rightarrow> None) s)\<lparr>ct_io := io_signalled\<rparr>))
      | io_signalled \<Rightarrow> Some ((notify_client s)\<lparr>ct_io := io_ended\<rparr>)
      | io_ended \<Rightarrow> None)"

text \<open>
  \<open>request_stop\<close> sets the flag and then runs the stop callback, which for the executor is
  \<open>notify_all\<close> without the lock.
\<close>

definition client_main_next :: "client_threads \<Rightarrow> client_threads option" where
  "client_main_next s =
     (case ct_main s of
        cm_checks \<Rightarrow>
          Some (s\<lparr>ct_main := if run_stop_requested (ct_state s) then cm_stop_executor else cm_holds\<rparr>)
      | cm_holds \<Rightarrow> Some (s\<lparr>ct_main := cm_sleeps\<rparr>)
      | cm_sleeps \<Rightarrow> None
      | cm_stop_executor \<Rightarrow>
          Some (s\<lparr>ct_queue := (ct_queue s)\<lparr>stop_requested := True\<rparr>, ct_main := cm_notify_executor\<rparr>)
      | cm_notify_executor \<Rightarrow> Some ((notify_executor s)\<lparr>ct_main := cm_stop_io\<rparr>)
      | cm_stop_io \<Rightarrow> Some (s\<lparr>ct_io_stop := True, ct_main := cm_join_executor\<rparr>)
      | cm_join_executor \<Rightarrow>
          (if ct_executor s = exec_ended then Some (s\<lparr>ct_main := cm_join_io\<rparr>) else None)
      | cm_join_io \<Rightarrow>
          (if ct_io s = io_ended
           then Some (s\<lparr>ct_main := cm_done (case error_opt (ct_state s) of Some e \<Rightarrow> Inl e | None \<Rightarrow> Inr ())\<rparr>)
           else None)
      | cm_done r \<Rightarrow> None)"

inductive client_step :: "client_threads \<Rightarrow> client_threads \<Rightarrow> bool" where
  client_executor_moves: "executor_next s = Some s' \<Longrightarrow> client_step s s'"
| client_io_moves: "io_next act s = Some s' \<Longrightarrow> client_step s s'"
| client_main_moves: "client_main_next s = Some s' \<Longrightarrow> client_step s s'"

text \<open>Condition variables may also wake up by themselves.\<close>

inductive client_wakes :: "client_threads \<Rightarrow> client_threads \<Rightarrow> bool" where
  executor_wakes: "ct_executor s = exec_sleeps \<Longrightarrow> client_wakes s (s\<lparr>ct_executor := exec_checks\<rparr>)"
| main_wakes: "ct_main s = cm_sleeps \<Longrightarrow> client_wakes s (s\<lparr>ct_main := cm_checks\<rparr>)"

inductive client_reachable :: "client_threads \<Rightarrow> bool" where
  client_starts: "client_reachable client_threads_init"
| client_goes: "client_reachable s \<Longrightarrow> client_step s s' \<Longrightarrow> client_reachable s'"
| client_wakes_up: "client_reachable s \<Longrightarrow> client_wakes s s' \<Longrightarrow> client_reachable s'"

fun executor_hand :: "executor_pc \<Rightarrow> command list" where
  "executor_hand (exec_runs c) = [c]"
| "executor_hand _ = []"

fun executor_over :: "executor_pc \<Rightarrow> bool" where
  "executor_over exec_returned = True"
| "executor_over exec_signalled = True"
| "executor_over exec_ended = True"
| "executor_over _ = False"

fun io_result :: "io_pc \<Rightarrow> (error_code + unit) option \<Rightarrow> bool" where
  "io_result (io_returned res) r = (r = Some res)"
| "io_result io_signalled r = (r \<noteq> None)"
| "io_result io_ended r = (r \<noteq> None)"
| "io_result _ r = (r = None)"

fun io_told :: "io_pc \<Rightarrow> bool" where
  "io_told io_signalled = True"
| "io_told io_ended = True"
| "io_told _ = False"

text \<open>How far the main thread is: waiting, past the wait, past the executor's stop flag, past its join.\<close>

fun client_phase :: "client_pc \<Rightarrow> nat" where
  "client_phase cm_checks = 0"
| "client_phase cm_holds = 0"
| "client_phase cm_sleeps = 0"
| "client_phase cm_stop_executor = 1"
| "client_phase cm_notify_executor = 2"
| "client_phase cm_stop_io = 2"
| "client_phase cm_join_executor = 2"
| "client_phase cm_join_io = 3"
| "client_phase (cm_done r) = 4"

definition result_error :: "(error_code + unit) option \<Rightarrow> error_code option" where
  "result_error res = (case res of Some (Inl e) \<Rightarrow> Some e | _ \<Rightarrow> None)"

definition client_inv :: "client_threads \<Rightarrow> bool" where
  "client_inv s \<longleftrightarrow>
     ct_pushed s = ct_executed s @ executor_hand (ct_executor s) @ execute_q (ct_queue s) \<and>
     stop_requested (ct_queue s) = (client_phase (ct_main s) \<ge> 2) \<and>
     run_stop_requested (ct_state s) = io_told (ct_io s) \<and>
     error_opt (ct_state s) = (if io_told (ct_io s) then result_error (ct_result s) else None) \<and>
     io_result (ct_io s) (ct_result s) \<and>
     (client_phase (ct_main s) \<ge> 1 \<longrightarrow> io_told (ct_io s)) \<and>
     (ct_main s = cm_holds \<longrightarrow> \<not> io_told (ct_io s)) \<and>
     (ct_main s = cm_sleeps \<longrightarrow> ct_io s \<noteq> io_ended) \<and>
     (executor_over (ct_executor s) \<longrightarrow> client_phase (ct_main s) \<ge> 2 \<and> execute_q (ct_queue s) = []) \<and>
     (ct_executor s = exec_holds \<longrightarrow> execute_q (ct_queue s) = []) \<and>
     (ct_executor s = exec_sleeps \<longrightarrow> execute_q (ct_queue s) = [] \<or> ct_io s = io_pushed) \<and>
     (client_phase (ct_main s) \<ge> 3 \<longrightarrow> ct_executor s = exec_ended) \<and>
     (\<forall>r. ct_main s = cm_done r \<longrightarrow> ct_io s = io_ended \<and> ct_result s = Some r)"

lemma client_inv_init: "client_inv client_threads_init"
  by (simp add: client_inv_def client_threads_init_def run_state_init_def)

lemmas client_moves = notify_executor_def notify_client_def client_signal_def signal_stop_def

lemma executor_next_inv: "executor_next s = Some s' \<Longrightarrow> client_inv s \<Longrightarrow> client_inv s'"
  by (cases "ct_executor s"; simp add: executor_next_def chat_wait_def split: if_splits io_action.splits; hypsubst?;
      simp add: client_inv_def client_moves Let_def hd_Cons_tl split: if_splits)
     (auto simp: result_error_def split: option.splits sum.splits)

lemma io_next_inv: "io_next act s = Some s' \<Longrightarrow> client_inv s \<Longrightarrow> client_inv s'"
  by (cases "ct_io s"; simp add: io_next_def request_execute_def split: if_splits io_action.splits; hypsubst?;
      simp add: client_inv_def client_moves Let_def hd_Cons_tl split: if_splits)
     (auto simp: result_error_def split: option.splits sum.splits)

lemma client_main_next_inv: "client_main_next s = Some s' \<Longrightarrow> client_inv s \<Longrightarrow> client_inv s'"
  by (cases "ct_main s"; simp add: client_main_next_def split: if_splits io_action.splits; hypsubst?;
      simp add: client_inv_def client_moves Let_def hd_Cons_tl split: if_splits)
     (auto simp: result_error_def split: option.splits sum.splits)


lemma client_step_inv: "client_step s s' \<Longrightarrow> client_inv s \<Longrightarrow> client_inv s'"
  by (induction rule: client_step.induct) (blast intro: executor_next_inv io_next_inv client_main_next_inv)+

lemma client_wakes_inv: "client_wakes s s' \<Longrightarrow> client_inv s \<Longrightarrow> client_inv s'"
  by (induction rule: client_wakes.induct) (simp_all add: client_inv_def)

lemma client_reachable_inv: "client_reachable s \<Longrightarrow> client_inv s"
  by (induction rule: client_reachable.induct) (blast intro: client_inv_init client_step_inv client_wakes_inv)+

text \<open>A schedule names who moves next.\<close>

datatype client_actor = by_executor | by_io io_action | by_main

fun client_move :: "client_actor \<Rightarrow> client_threads \<Rightarrow> client_threads option" where
  "client_move by_executor s = executor_next s"
| "client_move (by_io act) s = io_next act s"
| "client_move by_main s = client_main_next s"

fun client_play :: "client_actor list \<Rightarrow> client_threads \<Rightarrow> client_threads option" where
  "client_play [] s = Some s"
| "client_play (a # as) s = (case client_move a s of None \<Rightarrow> None | Some s' \<Rightarrow> client_play as s')"

lemma client_move_step: "client_move a s = Some s' \<Longrightarrow> client_step s s'"
  by (cases a) (auto intro: client_step.intros)

lemma client_play_reachable: "client_play as s = Some s' \<Longrightarrow> client_reachable s \<Longrightarrow> client_reachable s'"
  by (induction "as" s rule: client_play.induct)
     (auto intro: client_goes client_move_step split: option.splits)

inductive_simps client_step_iff: "client_step s s'"

lemmas client_nexts = executor_next_def io_next_def client_main_next_def client_moves

text \<open>
  Nobody can move: either the program has ended, or the executor sleeps although its stop was
  requested, and the main thread waits for it.
\<close>

definition client_blocked :: "client_threads \<Rightarrow> bool" where
  "client_blocked s \<longleftrightarrow> (\<forall>s'. \<not> client_step s s')"

definition client_hangs :: "client_threads \<Rightarrow> bool" where
  "client_hangs s \<longleftrightarrow> ct_main s = cm_join_executor \<and> ct_executor s = exec_sleeps \<and>
     stop_requested (ct_queue s) \<and> ct_io s = io_ended"

lemma client_blocked_nexts:
  assumes "client_blocked s"
  shows "executor_next s = None" and "io_next act s = None" and "client_main_next s = None"
  using assms unfolding client_blocked_def client_step_iff by (metis not_Some_eq)+

lemma client_blocked_cases:
  assumes "client_inv s" and "client_blocked s"
  shows "(\<exists>r. ct_main s = cm_done r) \<or> client_hangs s"
proof -
  have m: "ct_main s = cm_sleeps \<or> ct_main s = cm_join_executor \<and> ct_executor s \<noteq> exec_ended \<or>
      ct_main s = cm_join_io \<and> ct_io s \<noteq> io_ended \<or> (\<exists>r. ct_main s = cm_done r)"
    using client_blocked_nexts(3)[OF assms(2)]
    by (cases "ct_main s") (simp_all add: client_main_next_def split: if_splits)
  then have "ct_main s \<noteq> cm_holds" by auto
  have io: "ct_io s = io_ended"
    using client_blocked_nexts(2)[OF assms(2), of "io_returns (Inr ())"] \<open>ct_main s \<noteq> cm_holds\<close>
    by (cases "ct_io s") (simp_all add: io_next_def split: if_splits)
  have "ct_executor s = exec_sleeps \<or> ct_executor s = exec_ended"
    using client_blocked_nexts(1)[OF assms(2)] \<open>ct_main s \<noteq> cm_holds\<close>
    by (cases "ct_executor s") (simp_all add: executor_next_def split: if_splits)
  with m io assms(1) show ?thesis by (auto simp: client_inv_def client_hangs_def)
qed

text \<open>
  C36. A client that ends has lost nothing: when \<open>chat_client::run\<close> returns, both threads have ended,
  every command that the I/O thread queued has been executed, once and in order, and the result
  is what the I/O loop returned, success or its error.
\<close>

theorem client_ends_complete:
  assumes "client_reachable s" and "ct_main s = cm_done r"
  shows "ct_executed s = ct_pushed s \<and> execute_q (ct_queue s) = [] \<and> ct_executor s = exec_ended \<and>
    ct_io s = io_ended \<and> ct_result s = Some r"
  using client_reachable_inv[OF assms(1)] assms(2) by (simp add: client_inv_def)

text \<open>One response arrives, is executed, and then the server ends the connection.\<close>

definition orderly_schedule :: "client_actor list" where
  "orderly_schedule =
     [by_main, by_main, by_io (io_queues (cmd_response ''bye'')), by_io (io_returns (Inr ())),
      by_executor, by_executor, by_io (io_returns (Inr ())), by_io (io_returns (Inr ())),
      by_io (io_returns (Inr ())), by_main, by_main, by_main, by_main, by_executor, by_executor,
      by_executor, by_main, by_main]"

lemma client_ends_complete_witness:
  "\<exists>s. client_play orderly_schedule client_threads_init = Some s \<and> ct_main s = cm_done (Inr ()) \<and>
     ct_executed s = [cmd_response ''bye''] \<and> ct_executed s = ct_pushed s"
proof -
  obtain s where s: "client_play orderly_schedule client_threads_init = Some s" "ct_main s = cm_done (Inr ())"
    "ct_pushed s = [cmd_response ''bye'']"
    by (simp add: orderly_schedule_def client_threads_init_def run_state_init_def client_nexts chat_wait_def
        request_execute_def Let_def)
  note r = client_play_reachable[OF s(1) client_starts]
  from client_ends_complete[OF r s(2)] s show ?thesis by auto
qed

text \<open>
  C37. The client can hang when it stops, and in one way only. If no thread can move, then \<open>run\<close> has
  returned, or the executor sleeps in \<open>cv.wait\<close> although its stop was requested, while the main thread
  joins it; and that state is reachable: \<open>request_stop\<close> sets the flag and notifies without the
  executor's lock, so both can fall between the executor's test of the flag and its sleep.
\<close>

theorem client_hangs_on_lost_wakeup:
  "(client_reachable s \<and> client_blocked s \<longrightarrow> (\<exists>r. ct_main s = cm_done r) \<or> client_hangs s) \<and>
   (\<exists>h. client_reachable h \<and> client_blocked h \<and> client_hangs h)"
proof (intro conjI impI)
  assume "client_reachable s \<and> client_blocked s"
  then show "(\<exists>r. ct_main s = cm_done r) \<or> client_hangs s"
    using client_blocked_cases client_reachable_inv by blast
next
  let ?race = "[by_main, by_main, by_executor, by_io (io_returns (Inr ())), by_io (io_returns (Inr ())),
    by_io (io_returns (Inr ())), by_main, by_main, by_main, by_main, by_executor]"
  obtain h where h: "client_play ?race client_threads_init = Some h" "client_hangs h"
    by (simp add: client_threads_init_def run_state_init_def client_nexts chat_wait_def Let_def client_hangs_def)
  have "client_blocked h"
    using h(2) by (auto simp: client_blocked_def client_hangs_def client_step_iff client_nexts)
  with h client_play_reachable[OF h(1) client_starts]
  show "\<exists>h. client_reachable h \<and> client_blocked h \<and> client_hangs h" by blast
qed

lemma client_hangs_on_lost_wakeup_witness:
  "\<exists>s. client_play orderly_schedule client_threads_init = Some s \<and>
     ((\<exists>r. ct_main s = cm_done r) \<or> client_hangs s)"
proof -
  obtain s where s: "client_play orderly_schedule client_threads_init = Some s" "ct_main s = cm_done (Inr ())"
    "ct_executor s = exec_ended" "ct_io s = io_ended"
    by (simp add: orderly_schedule_def client_threads_init_def run_state_init_def client_nexts chat_wait_def
        request_execute_def Let_def)
  then have "client_blocked s" by (simp add: client_blocked_def client_step_iff client_nexts)
  with client_hangs_on_lost_wakeup[of s] client_play_reachable[OF s(1) client_starts] s(1) show ?thesis by blast
qed

subsection \<open>The server\<close>

text \<open>
  Both threads of the server loop over \<open>epoll_wait\<close>: the event loop and the acceptor. \<open>loop_polls\<close> is
  inside the call; \<open>loop_woken\<close> is a turn whose batch has still to consume the wakeup, \<open>loop_tests\<close> the
  event loop's second test of its stop flag, \<open>loop_serves\<close> the handlers. The stop callback of a thread is
  registered while \<open>run\<close> is in its loop.
\<close>

datatype loop_pc = loop_starts | loop_checks | loop_polls | loop_woken | loop_tests | loop_serves
  | loop_failed error_code | loop_signalled | loop_ended

datatype server_pc = sm_starts | sm_checks | sm_holds | sm_sleeps | sm_stop_events | sm_call_events
  | sm_stop_acceptor | sm_call_acceptor | sm_wake_registry | sm_wake_listener | sm_join_events
  | sm_join_acceptor | sm_leaves "error_code + unit" | sm_done "error_code + unit"

text \<open>
  The thread that requests the stop from outside, when the callback of \<open>run\<close> is registered, runs it.
\<close>

datatype outside_pc = out_idle | out_calls | out_signalled | out_over

record server_threads =
  sv_state :: run_state
  sv_main :: server_pc
  sv_events :: loop_pc
  sv_events_stop :: bool
  sv_registry_wake :: bool
  sv_acceptor :: loop_pc
  sv_acceptor_stop :: bool
  sv_listener_wake :: bool
  sv_outside :: outside_pc
  sv_stop_requested :: bool
  sv_calls :: "error_code option list"

fun in_loop :: "loop_pc \<Rightarrow> bool" where
  "in_loop loop_starts = False"
| "in_loop (loop_failed e) = False"
| "in_loop loop_signalled = False"
| "in_loop loop_ended = False"
| "in_loop _ = True"

definition server_threads_init :: server_threads where
  "server_threads_init =
     \<lparr>sv_state = run_state_init, sv_main = sm_starts, sv_events = loop_starts, sv_events_stop = False,
      sv_registry_wake = False, sv_acceptor = loop_starts, sv_acceptor_stop = False,
      sv_listener_wake = False, sv_outside = out_idle, sv_stop_requested = False, sv_calls = []\<rparr>"

definition notify_server :: "server_threads \<Rightarrow> server_threads" where
  "notify_server s = (if sv_main s = sm_sleeps then s\<lparr>sv_main := sm_checks\<rparr> else s)"

definition server_signal :: "error_code option \<Rightarrow> server_threads \<Rightarrow> server_threads" where
  "server_signal ec s = s\<lparr>sv_state := signal_stop ec (sv_state s), sv_calls := sv_calls s @ [ec]\<rparr>"

text \<open>What \<open>epoll_wait\<close> does, besides returning when a wakeup is pending.\<close>

datatype poll_answer = answer_events | answer_interrupted | answer_failed error_code

text \<open>
  \<open>event_loop::run\<close>. The stop callback is registered first, and runs at once when the stop was already
  requested; \<open>work\<close> consumes the wakeup before anything else.
\<close>

definition events_next :: "poll_answer \<Rightarrow> server_threads \<Rightarrow> server_threads option" where
  "events_next res s =
     (case sv_events s of
        loop_starts \<Rightarrow>
          Some (s\<lparr>sv_registry_wake := sv_registry_wake s \<or> sv_events_stop s, sv_events := loop_checks\<rparr>)
      | loop_checks \<Rightarrow> Some (s\<lparr>sv_events := if sv_events_stop s then loop_ended else loop_polls\<rparr>)
      | loop_polls \<Rightarrow>
          (case res of
             answer_events \<Rightarrow> Some (s\<lparr>sv_events := loop_woken\<rparr>)
           | answer_interrupted \<Rightarrow> Some (s\<lparr>sv_events := loop_checks\<rparr>)
           | answer_failed e \<Rightarrow> Some (s\<lparr>sv_events := loop_failed e\<rparr>))
      | loop_woken \<Rightarrow> Some (s\<lparr>sv_registry_wake := False, sv_events := loop_tests\<rparr>)
      | loop_tests \<Rightarrow> Some (s\<lparr>sv_events := if sv_events_stop s then loop_ended else loop_serves\<rparr>)
      | loop_serves \<Rightarrow> Some (s\<lparr>sv_events := loop_checks\<rparr>)
      | loop_failed e \<Rightarrow>
          (if sv_main s = sm_holds then None
           else Some ((server_signal (Some e) s)\<lparr>sv_events := loop_signalled\<rparr>))
      | loop_signalled \<Rightarrow> Some ((notify_server s)\<lparr>sv_events := loop_ended\<rparr>)
      | loop_ended \<Rightarrow> None)"

text \<open>
  \<open>epoll_acceptor::run\<close>. A batch that holds the wakeup consumes it; an error on the listening socket
  ends the loop, before or after that.
\<close>

definition acceptor_next :: "poll_answer \<Rightarrow> server_threads \<Rightarrow> server_threads option" where
  "acceptor_next res s =
     (case sv_acceptor s of
        loop_starts \<Rightarrow>
          Some (s\<lparr>sv_listener_wake := sv_listener_wake s \<or> sv_acceptor_stop s, sv_acceptor := loop_checks\<rparr>)
      | loop_checks \<Rightarrow> Some (s\<lparr>sv_acceptor := if sv_acceptor_stop s then loop_ended else loop_polls\<rparr>)
      | loop_polls \<Rightarrow>
          (case res of
             answer_events \<Rightarrow> Some (s\<lparr>sv_acceptor := if sv_listener_wake s then loop_woken else loop_serves\<rparr>)
           | answer_interrupted \<Rightarrow> Some (s\<lparr>sv_acceptor := loop_checks\<rparr>)
           | answer_failed e \<Rightarrow> Some (s\<lparr>sv_acceptor := loop_failed e\<rparr>))
      | loop_woken \<Rightarrow>
          (case res of
             answer_failed e \<Rightarrow> Some (s\<lparr>sv_acceptor := loop_failed e\<rparr>)
           | _ \<Rightarrow> Some (s\<lparr>sv_listener_wake := False, sv_acceptor := loop_serves\<rparr>))
      | loop_serves \<Rightarrow>
          (case res of
             answer_failed e \<Rightarrow> Some (s\<lparr>sv_acceptor := loop_failed e\<rparr>)
           | _ \<Rightarrow> Some (s\<lparr>sv_acceptor := loop_checks\<rparr>))
      | loop_tests \<Rightarrow> None
      | loop_failed e \<Rightarrow>
          (if sv_main s = sm_holds then None
           else Some ((server_signal (Some e) s)\<lparr>sv_acceptor := loop_signalled\<rparr>))
      | loop_signalled \<Rightarrow> Some ((notify_server s)\<lparr>sv_acceptor := loop_ended\<rparr>)
      | loop_ended \<Rightarrow> None)"

text \<open>
  \<open>epoll_server::run\<close>. Registering the callback runs it when the stop was already requested;
  \<open>request_stop\<close> runs the callback that a started loop has registered; at the end the callback is
  removed, which waits until it is not running.
\<close>

definition server_main_next :: "server_threads \<Rightarrow> server_threads option" where
  "server_main_next s =
     (case sv_main s of
        sm_starts \<Rightarrow>
          Some ((if sv_stop_requested s then server_signal None s else s)\<lparr>sv_main := sm_checks\<rparr>)
      | sm_checks \<Rightarrow>
          Some (s\<lparr>sv_main := if run_stop_requested (sv_state s) then sm_stop_events else sm_holds\<rparr>)
      | sm_holds \<Rightarrow> Some (s\<lparr>sv_main := sm_sleeps\<rparr>)
      | sm_sleeps \<Rightarrow> None
      | sm_stop_events \<Rightarrow> Some (s\<lparr>sv_events_stop := True, sv_main := sm_call_events\<rparr>)
      | sm_call_events \<Rightarrow>
          Some (s\<lparr>sv_registry_wake := sv_registry_wake s \<or> in_loop (sv_events s),
                   sv_main := sm_stop_acceptor\<rparr>)
      | sm_stop_acceptor \<Rightarrow> Some (s\<lparr>sv_acceptor_stop := True, sv_main := sm_call_acceptor\<rparr>)
      | sm_call_acceptor \<Rightarrow>
          Some (s\<lparr>sv_listener_wake := sv_listener_wake s \<or> in_loop (sv_acceptor s),
                   sv_main := sm_wake_registry\<rparr>)
      | sm_wake_registry \<Rightarrow> Some (s\<lparr>sv_registry_wake := True, sv_main := sm_wake_listener\<rparr>)
      | sm_wake_listener \<Rightarrow> Some (s\<lparr>sv_listener_wake := True, sv_main := sm_join_events\<rparr>)
      | sm_join_events \<Rightarrow>
          (if sv_events s = loop_ended then Some (s\<lparr>sv_main := sm_join_acceptor\<rparr>) else None)
      | sm_join_acceptor \<Rightarrow>
          (if sv_acceptor s = loop_ended
           then Some (s\<lparr>sv_main := sm_leaves (case error_opt (sv_state s) of Some e \<Rightarrow> Inl e | None \<Rightarrow> Inr ())\<rparr>)
           else None)
      | sm_leaves r \<Rightarrow>
          (if sv_outside s \<in> {out_calls, out_signalled} then None else Some (s\<lparr>sv_main := sm_done r\<rparr>))
      | sm_done r \<Rightarrow> None)"

definition outside_next :: "server_threads \<Rightarrow> server_threads option" where
  "outside_next s =
     (case sv_outside s of
        out_idle \<Rightarrow>
          Some (s\<lparr>sv_stop_requested := True,
                   sv_outside := if sv_main s = sm_starts \<or> (\<exists>r. sv_main s = sm_done r) then out_over else out_calls\<rparr>)
      | out_calls \<Rightarrow>
          (if sv_main s = sm_holds then None else Some ((server_signal None s)\<lparr>sv_outside := out_signalled\<rparr>))
      | out_signalled \<Rightarrow> Some ((notify_server s)\<lparr>sv_outside := out_over\<rparr>)
      | out_over \<Rightarrow> None)"

text \<open>
  What the program does by itself (\<open>server_moves\<close>): a loop in \<open>epoll_wait\<close> moves when its wakeup is
  pending, and the outside thread when it is already running the callback. Everything else is up to
  the surroundings: events, signals, failures, and waking up for no reason.
\<close>

inductive server_moves :: "server_threads \<Rightarrow> server_threads \<Rightarrow> bool" where
  main_moves: "server_main_next s = Some s' \<Longrightarrow> server_moves s s'"
| events_move: "sv_events s \<noteq> loop_polls \<or> sv_registry_wake s \<Longrightarrow> events_next answer_events s = Some s' \<Longrightarrow>
    server_moves s s'"
| acceptor_moves: "sv_acceptor s \<noteq> loop_polls \<or> sv_listener_wake s \<Longrightarrow> acceptor_next answer_events s = Some s' \<Longrightarrow>
    server_moves s s'"
| outside_moves: "sv_outside s \<noteq> out_idle \<Longrightarrow> outside_next s = Some s' \<Longrightarrow> server_moves s s'"

inductive server_disturbed :: "server_threads \<Rightarrow> server_threads \<Rightarrow> bool" where
  events_polled: "events_next res s = Some s' \<Longrightarrow> server_disturbed s s'"
| acceptor_polled: "acceptor_next res s = Some s' \<Longrightarrow> server_disturbed s s'"
| registry_woken: "server_disturbed s (s\<lparr>sv_registry_wake := True\<rparr>)"
| stop_from_outside: "outside_next s = Some s' \<Longrightarrow> server_disturbed s s'"
| server_wakes: "sv_main s = sm_sleeps \<Longrightarrow> server_disturbed s (s\<lparr>sv_main := sm_checks\<rparr>)"

inductive server_reachable :: "server_threads \<Rightarrow> bool" where
  server_starts: "server_reachable server_threads_init"
| server_goes: "server_reachable s \<Longrightarrow> server_moves s s' \<Longrightarrow> server_reachable s'"
| server_reacts: "server_reachable s \<Longrightarrow> server_disturbed s s' \<Longrightarrow> server_reachable s'"

subsubsection \<open>The invariant\<close>

fun server_pos :: "server_pc \<Rightarrow> nat" where
  "server_pos sm_stop_events = 1"
| "server_pos sm_call_events = 2"
| "server_pos sm_stop_acceptor = 3"
| "server_pos sm_call_acceptor = 4"
| "server_pos sm_wake_registry = 5"
| "server_pos sm_wake_listener = 6"
| "server_pos sm_join_events = 7"
| "server_pos sm_join_acceptor = 8"
| "server_pos (sm_leaves r) = 9"
| "server_pos (sm_done r) = 10"
| "server_pos _ = 0"

fun server_result :: "server_pc \<Rightarrow> (error_code + unit) option" where
  "server_result (sm_leaves r) = Some r"
| "server_result (sm_done r) = Some r"
| "server_result _ = None"

definition threads_inv :: "server_threads \<Rightarrow> bool" where
  "threads_inv s \<longleftrightarrow>
     fold signal_stop (sv_calls s) run_state_init = sv_state s \<and>
     sv_events_stop s = (server_pos (sv_main s) \<ge> 2) \<and>
     sv_acceptor_stop s = (server_pos (sv_main s) \<ge> 4) \<and>
     (server_pos (sv_main s) \<ge> 1 \<longrightarrow> run_stop_requested (sv_state s)) \<and>
     (sv_main s = sm_holds \<longrightarrow> \<not> run_stop_requested (sv_state s)) \<and>
     (sv_main s = sm_sleeps \<and> run_stop_requested (sv_state s) \<longrightarrow>
        sv_events s = loop_signalled \<or> sv_acceptor s = loop_signalled \<or> sv_outside s = out_signalled) \<and>
     (server_pos (sv_main s) \<ge> 6 \<and> sv_events s = loop_polls \<longrightarrow> sv_registry_wake s) \<and>
     (server_pos (sv_main s) \<ge> 7 \<and> sv_acceptor s = loop_polls \<longrightarrow> sv_listener_wake s) \<and>
     (server_pos (sv_main s) \<ge> 8 \<longrightarrow> sv_events s = loop_ended) \<and>
     (server_pos (sv_main s) \<ge> 9 \<longrightarrow> sv_acceptor s = loop_ended) \<and>
     (server_pos (sv_main s) \<ge> 9 \<longrightarrow> server_result (sv_main s) =
        Some (case error_opt (sv_state s) of Some e \<Rightarrow> Inl e | None \<Rightarrow> Inr ())) \<and>
     sv_acceptor s \<noteq> loop_tests"

lemma signal_stop_sel [simp]:
  "run_stop_requested (signal_stop ec st) = True"
  "error_opt (signal_stop None st) = error_opt st"
  "error_opt (signal_stop (Some e) st) = Some (case error_opt st of Some e' \<Rightarrow> e' | None \<Rightarrow> e)"
  by (auto simp: signal_stop_def Let_def split: option.splits)

lemma threads_inv_init: "threads_inv server_threads_init"
  by (simp add: threads_inv_def server_threads_init_def run_state_init_def)

lemmas server_moves_defs = notify_server_def server_signal_def

lemma events_next_inv: "events_next res s = Some s' \<Longrightarrow> threads_inv s \<Longrightarrow> threads_inv s'"
  by (cases "sv_events s"; simp add: events_next_def split: if_splits poll_answer.splits; hypsubst?;
      simp add: threads_inv_def server_moves_defs split: if_splits) auto

lemma acceptor_next_inv: "acceptor_next res s = Some s' \<Longrightarrow> threads_inv s \<Longrightarrow> threads_inv s'"
  by (cases "sv_acceptor s"; simp add: acceptor_next_def split: if_splits poll_answer.splits; hypsubst?;
      simp add: threads_inv_def server_moves_defs split: if_splits) auto

lemma server_main_next_inv: "server_main_next s = Some s' \<Longrightarrow> threads_inv s \<Longrightarrow> threads_inv s'"
  by (cases "sv_main s"; simp add: server_main_next_def split: if_splits; hypsubst?;
      simp add: threads_inv_def server_moves_defs split: if_splits)

lemma outside_next_inv: "outside_next s = Some s' \<Longrightarrow> threads_inv s \<Longrightarrow> threads_inv s'"
  by (cases "sv_outside s"; simp add: outside_next_def split: if_splits; hypsubst?;
      simp add: threads_inv_def server_moves_defs split: if_splits)

lemma server_moves_inv: "server_moves s s' \<Longrightarrow> threads_inv s \<Longrightarrow> threads_inv s'"
  by (induction rule: server_moves.induct)
     (blast intro: server_main_next_inv events_next_inv acceptor_next_inv outside_next_inv)+

lemma server_disturbed_inv: "server_disturbed s s' \<Longrightarrow> threads_inv s \<Longrightarrow> threads_inv s'"
proof (induction rule: server_disturbed.induct)
  case (registry_woken s)
  then show ?case by (simp add: threads_inv_def)
next
  case (server_wakes s)
  then show ?case by (simp add: threads_inv_def)
qed (blast intro: events_next_inv acceptor_next_inv outside_next_inv)+

lemma server_reachable_inv: "server_reachable s \<Longrightarrow> threads_inv s"
  by (induction rule: server_reachable.induct)
     (blast intro: threads_inv_init server_moves_inv server_disturbed_inv)+

subsubsection \<open>No stop is lost\<close>

definition server_movable :: "server_threads \<Rightarrow> bool" where
  "server_movable s \<longleftrightarrow> (\<exists>s'. server_moves s s')"

lemma main_movable: "server_main_next s \<noteq> None \<Longrightarrow> server_movable s"
  unfolding server_movable_def by (auto intro: server_moves.main_moves)

lemma events_movable:
  assumes "sv_events s \<noteq> loop_ended" "sv_events s = loop_polls \<longrightarrow> sv_registry_wake s" "sv_main s \<noteq> sm_holds"
  shows "server_movable s"
proof -
  obtain s' where "events_next answer_events s = Some s'"
    using assms by (cases "sv_events s") (auto simp: events_next_def)
  then show ?thesis using assms(2) unfolding server_movable_def by (blast intro: server_moves.events_move)
qed

lemma acceptor_movable:
  assumes "sv_acceptor s \<noteq> loop_ended" "sv_acceptor s = loop_polls \<longrightarrow> sv_listener_wake s"
    "sv_main s \<noteq> sm_holds" "sv_acceptor s \<noteq> loop_tests"
  shows "server_movable s"
proof -
  obtain s' where "acceptor_next answer_events s = Some s'"
    using assms by (cases "sv_acceptor s") (auto simp: acceptor_next_def)
  then show ?thesis using assms(2) unfolding server_movable_def by (blast intro: server_moves.acceptor_moves)
qed

lemma outside_movable:
  assumes "sv_outside s \<in> {out_calls, out_signalled}" "sv_main s \<noteq> sm_holds"
  shows "server_movable s"
proof -
  obtain s' where "outside_next s = Some s'"
    using assms by (auto simp: outside_next_def)
  moreover have "sv_outside s \<noteq> out_idle" using assms(1) by auto
  ultimately show ?thesis unfolding server_movable_def by (blast intro: server_moves.outside_moves)
qed

lemma stopping_server_movable:
  assumes "threads_inv s" and "run_stop_requested (sv_state s)" and "\<forall>r. sv_main s \<noteq> sm_done r"
  shows "server_movable s"
proof (cases "server_main_next s")
  case (Some s')
  then show ?thesis using main_movable by simp
next
  case None
  then consider "sv_main s = sm_sleeps" | "sv_main s = sm_join_events" "sv_events s \<noteq> loop_ended"
    | "sv_main s = sm_join_acceptor" "sv_acceptor s \<noteq> loop_ended"
    | r where "sv_main s = sm_leaves r" "sv_outside s \<in> {out_calls, out_signalled}"
    using assms(3) by (cases "sv_main s") (auto simp: server_main_next_def split: if_splits)
  then show ?thesis
  proof cases
    case 1
    then consider "sv_events s = loop_signalled" | "sv_acceptor s = loop_signalled" | "sv_outside s = out_signalled"
      using assms(1,2) by (auto simp: threads_inv_def)
    then show ?thesis using 1 by cases (auto intro: events_movable acceptor_movable outside_movable)
  next
    case 2
    then show ?thesis using assms(1) by (intro events_movable) (simp_all add: threads_inv_def)
  next
    case 3
    then show ?thesis using assms(1) by (intro acceptor_movable) (simp_all add: threads_inv_def)
  next
    case 4
    then show ?thesis by (intro outside_movable) simp_all
  qed
qed

lemma server_done_outcome:
  assumes "threads_inv s" and "sv_main s = sm_done r"
  shows "run_outcome (sv_calls s) = Some r" "sv_events s = loop_ended" "sv_acceptor s = loop_ended"
  using assms by (auto simp: threads_inv_def run_outcome_def run_state_init_def Let_def)

text \<open>
  After both stop flags are set: what is left to do. Every move of the program takes some of it, and
  nothing the surroundings do adds to it.
\<close>

fun loop_rank :: "loop_pc \<Rightarrow> nat" where
  "loop_rank loop_starts = 6"
| "loop_rank loop_polls = 5"
| "loop_rank loop_woken = 4"
| "loop_rank loop_serves = 3"
| "loop_rank (loop_failed e) = 2"
| "loop_rank loop_checks = 1"
| "loop_rank loop_tests = 1"
| "loop_rank loop_signalled = 1"
| "loop_rank loop_ended = 0"

fun outside_rank :: "outside_pc \<Rightarrow> nat" where
  "outside_rank out_idle = 3"
| "outside_rank out_calls = 2"
| "outside_rank out_signalled = 1"
| "outside_rank out_over = 0"

definition stop_work :: "server_threads \<Rightarrow> nat" where
  "stop_work s = (10 - server_pos (sv_main s)) + loop_rank (sv_events s) + loop_rank (sv_acceptor s) +
     outside_rank (sv_outside s)"

definition told_to_stop :: "server_threads \<Rightarrow> bool" where
  "told_to_stop s \<longleftrightarrow> sv_events_stop s \<and> sv_acceptor_stop s \<and> server_pos (sv_main s) \<ge> 4"

lemma told_to_stop_iff: "threads_inv s \<Longrightarrow> told_to_stop s \<longleftrightarrow> sv_events_stop s \<and> sv_acceptor_stop s"
  by (auto simp: threads_inv_def told_to_stop_def)

lemma told_to_stop_not_waiting:
  "told_to_stop s \<Longrightarrow> sv_main s \<notin> {sm_starts, sm_checks, sm_holds, sm_sleeps, sm_stop_events, sm_call_events, sm_stop_acceptor}"
  by (auto simp: told_to_stop_def)

lemma events_next_work:
  "events_next res s = Some s' \<Longrightarrow> told_to_stop s \<Longrightarrow> told_to_stop s' \<and> stop_work s' < stop_work s"
  using told_to_stop_not_waiting[of s]
  by (cases "sv_events s"; simp add: events_next_def split: if_splits poll_answer.splits; hypsubst?;
      simp add: told_to_stop_def stop_work_def server_moves_defs)

lemma acceptor_next_work:
  "acceptor_next res s = Some s' \<Longrightarrow> told_to_stop s \<Longrightarrow> told_to_stop s' \<and> stop_work s' < stop_work s"
  using told_to_stop_not_waiting[of s]
  by (cases "sv_acceptor s"; simp add: acceptor_next_def split: if_splits poll_answer.splits; hypsubst?;
      simp add: told_to_stop_def stop_work_def server_moves_defs)

lemma outside_next_work:
  "outside_next s = Some s' \<Longrightarrow> told_to_stop s \<Longrightarrow> told_to_stop s' \<and> stop_work s' < stop_work s"
  using told_to_stop_not_waiting[of s]
  by (cases "sv_outside s"; simp add: outside_next_def split: if_splits; hypsubst?;
      simp add: told_to_stop_def stop_work_def server_moves_defs)

lemma server_main_next_work:
  "server_main_next s = Some s' \<Longrightarrow> told_to_stop s \<Longrightarrow> told_to_stop s' \<and> stop_work s' < stop_work s"
  using told_to_stop_not_waiting[of s]
  by (cases "sv_main s"; simp add: server_main_next_def split: if_splits; hypsubst?;
      simp add: told_to_stop_def stop_work_def server_moves_defs)

lemma server_moves_work: "server_moves s s' \<Longrightarrow> told_to_stop s \<Longrightarrow> told_to_stop s' \<and> stop_work s' < stop_work s"
  by (induction rule: server_moves.induct)
     (blast dest: server_main_next_work events_next_work acceptor_next_work outside_next_work)+

lemma server_disturbed_work:
  "server_disturbed s s' \<Longrightarrow> told_to_stop s \<Longrightarrow> told_to_stop s' \<and> stop_work s' \<le> stop_work s"
proof (induction rule: server_disturbed.induct)
  case (registry_woken s)
  then show ?case by (simp add: told_to_stop_def stop_work_def)
next
  case (server_wakes s)
  then show ?case using told_to_stop_not_waiting[of s] by simp
qed (auto dest: events_next_work acceptor_next_work outside_next_work)

text \<open>A run with \<open>n\<close> moves of the program, disturbed any number of times.\<close>

inductive server_runs :: "nat \<Rightarrow> server_threads \<Rightarrow> server_threads \<Rightarrow> bool" where
  runs_start: "server_runs 0 s s"
| runs_move: "server_runs n s s' \<Longrightarrow> server_moves s' s'' \<Longrightarrow> server_runs (Suc n) s s''"
| runs_disturbed: "server_runs n s s' \<Longrightarrow> server_disturbed s' s'' \<Longrightarrow> server_runs n s s''"

lemma server_runs_work:
  "server_runs n s s' \<Longrightarrow> server_reachable s \<Longrightarrow> told_to_stop s \<Longrightarrow>
   server_reachable s' \<and> told_to_stop s' \<and> n + stop_work s' \<le> stop_work s"
proof (induction rule: server_runs.induct)
  case (runs_move n s s' s'')
  then show ?case using server_moves_work[of s' s''] by (fastforce intro: server_goes)
next
  case (runs_disturbed n s s' s'')
  then show ?case using server_disturbed_work[of s' s''] by (fastforce intro: server_reacts)
qed simp

lemma stop_work_bound: "told_to_stop s \<Longrightarrow> stop_work s \<le> 21"
proof -
  have "loop_rank pc \<le> 6" for pc by (cases pc) simp_all
  then have "loop_rank (sv_events s) \<le> 6" "loop_rank (sv_acceptor s) \<le> 6" by blast+
  moreover have "outside_rank (sv_outside s) \<le> 3" by (cases "sv_outside s") simp_all
  moreover assume "told_to_stop s"
  ultimately show ?thesis unfolding stop_work_def told_to_stop_def by linarith
qed

text \<open>A schedule, with what \<open>epoll_wait\<close> answers.\<close>

datatype server_actor = by_server_main | by_events poll_answer | by_acceptor poll_answer | by_outside

fun server_move :: "server_actor \<Rightarrow> server_threads \<Rightarrow> server_threads option" where
  "server_move by_server_main s = server_main_next s"
| "server_move (by_events res) s = events_next res s"
| "server_move (by_acceptor res) s = acceptor_next res s"
| "server_move by_outside s = outside_next s"

fun server_play :: "server_actor list \<Rightarrow> server_threads \<Rightarrow> server_threads option" where
  "server_play [] s = Some s"
| "server_play (a # as) s = (case server_move a s of None \<Rightarrow> None | Some s' \<Rightarrow> server_play as s')"

lemma server_move_reachable: "server_move a s = Some s' \<Longrightarrow> server_reachable s \<Longrightarrow> server_reachable s'"
  by (cases a) (auto intro: server_goes server_moves.main_moves server_reacts server_disturbed.intros)

lemma server_play_reachable: "server_play as s = Some s' \<Longrightarrow> server_reachable s \<Longrightarrow> server_reachable s'"
  by (induction "as" s rule: server_play.induct)
     (auto intro: server_move_reachable split: option.splits)

inductive_simps server_moves_iff: "server_moves s s'"

lemmas server_nexts = server_main_next_def events_next_def acceptor_next_def outside_next_def server_moves_defs

text \<open>The acceptor fails while the main thread sleeps, and the event loop is told in \<open>epoll_wait\<close>.\<close>

definition failing_acceptor :: "server_actor list" where
  "failing_acceptor =
     [by_server_main, by_server_main, by_server_main, by_events answer_events, by_events answer_events,
      by_acceptor answer_events, by_acceptor answer_events, by_acceptor (answer_failed (from_errno EBADF)),
      by_acceptor answer_events, by_acceptor answer_events, by_server_main, by_server_main, by_server_main,
      by_server_main]"

definition joining_threads :: "server_actor list" where
  "joining_threads =
     [by_server_main, by_server_main, by_server_main, by_events answer_events, by_events answer_events,
      by_events answer_events, by_server_main, by_server_main, by_server_main]"



text \<open>
  C35. The server stops within a bounded number of steps. When both threads have been told to stop, every
  run makes at most 21 more moves, whatever the network, signals and other threads do in between, and
  as long as \<open>run\<close> has not returned one more move is possible.
\<close>

theorem server_stops_soon:
  assumes "server_reachable s" and "sv_events_stop s" and "sv_acceptor_stop s" and "server_runs n s s'"
  shows "n \<le> 21 \<and> ((\<exists>r. sv_main s' = sm_done r) \<or> (\<exists>s''. server_moves s' s''))"
proof -
  have "told_to_stop s" using assms(2,3) told_to_stop_iff[OF server_reachable_inv[OF assms(1)]] by blast
  from server_runs_work[OF assms(4,1) this] stop_work_bound[OF this]
  have r: "server_reachable s'" "told_to_stop s'" "n \<le> 21" by simp_all
  have inv: "threads_inv s'" by (rule server_reachable_inv[OF r(1)])
  then have "run_stop_requested (sv_state s')" using r(2) by (simp add: threads_inv_def told_to_stop_def)
  then show ?thesis using r(3) stopping_server_movable[OF inv] by (auto simp: server_movable_def)
qed

lemma server_stops_soon_witness:
  "\<exists>s s'. server_play failing_acceptor server_threads_init = Some s \<and> server_runs 1 s s' \<and> 1 \<le> (21::nat) \<and>
     ((\<exists>r. sv_main s' = sm_done r) \<or> (\<exists>s''. server_moves s' s''))"
proof -
  obtain s s' where s: "server_play failing_acceptor server_threads_init = Some s"
    "sv_events_stop s" "sv_acceptor_stop s" "server_main_next s = Some s'"
    by (simp add: failing_acceptor_def server_threads_init_def run_state_init_def server_nexts signal_stop_def Let_def)
  have r: "server_runs 1 s s'"
    using runs_move[OF runs_start[of s] server_moves.main_moves[OF s(4)]] by simp
  from server_stops_soon[OF server_play_reachable[OF s(1) server_starts] s(2,3) r] s(1) r show ?thesis by blast
qed

end
