(* ===== verification/Spec2Isabelle.thy ===== *)
theory Spec2Isabelle
  imports End_To_End Run_Threads
begin

text \<open>
  A verification library for the chat server and client of this repository: C++23, TLS over epoll,
  PostgreSQL behind a pool of workers.

  The program. \<open>apps/server.cpp\<close> reads two configuration files, connects to the database, makes a TLS
  context and starts \<open>server/epoll_server\<close>. There an acceptor thread (\<open>server/epoll_acceptor\<close>) hands
  new connections to the registry; the event loop thread (\<open>reactor/event_loop\<close>) alternates between
  the commands other threads queued for the registry (\<open>reactor/epoll_registry\<close>) and the handlers of
  ready sockets, which decode lines (\<open>protocol\<close>) and queue one task per command; the workers of
  \<open>database/db_executor\<close> run a task against the tables (\<open>database/db_service\<close>) and queue registry
  commands with the answers. \<open>apps/client.cpp\<close> starts \<open>client/chat_client\<close>: one thread polls the
  terminal and the socket (\<open>client/chat_io_worker\<close>), another acts on responses
  (\<open>client/chat_executor\<close>).

  The theories, from the bottom:
  \<^item> \<open>Prelude\<close>, \<open>Std_Lib\<close>: machine integers, searching strings, association lists for the hash maps,
    duplicate-free lists for the hash sets; \<open>std::stoll\<close>, \<open>std::to_string\<close> and \<open>isspace\<close>.
  \<^item> \<open>Error_Codes\<close> (\<open>core/error_code\<close>, \<open>net/tls_error\<close> and the error enumerations), \<open>Logger\<close>
    (\<open>core/logger\<close>).
  \<^item> \<open>Command_Codec\<close> (\<open>protocol/command_codec\<close>) with the round trip and the exact language of the
    decoder; \<open>Io_Buffer\<close> (the buffers of \<open>net/io_helper\<close>, \<open>protocol/line_parser\<close>) with the refinement of
    an abstract byte queue, the space bound and the delivery of a stream cut into chunks;
    \<open>Clean_Text\<close>, the texts that cannot break out of a line.
  \<^item> \<open>Tls_Session\<close>, \<open>Tls_Setup\<close> (\<open>net/tls_session\<close>, \<open>net/tls_context\<close>), \<open>Io_Helper\<close> (\<open>flush_send\<close>,
    \<open>drain_recv\<close>), \<open>Os_Env\<close> (\<open>core/unique_fd\<close>, \<open>reactor/epoll_utility\<close>, \<open>reactor/epoll_wakeup\<close>,
    \<open>net/fd_helper\<close>).
  \<^item> \<open>Fd_Index\<close>, \<open>Epoll_Registry\<close>: the registry and its ten commands. \<open>Registry_Invariant\<close>: sessions and
    the two online indices agree. \<open>Registry_Refinement\<close>: the abstract sessions (who is connected,
    logged in, in which rooms, with which bytes queued) and that \<open>work\<close> implements them.
  \<^item> \<open>Work_Queue\<close> (\<open>core/thread_pool\<close>, the queues of the two executors): the waiting predicate as code,
    workers, notifications and stopping as a step relation.
  \<^item> \<open>Db_Service\<close>, \<open>Db_Contract\<close> (\<open>database/db_service\<close>, the schema of \<open>scripts/migrate_db_schema.sh\<close>):
    tables, statements and transactions; integrity, atomicity, the rules of rooms and friends.
    \<open>Db_Connector\<close>: the connection string.
  \<^item> \<open>Db_Executor\<close>, \<open>Executor_Contract\<close> (\<open>database/db_executor\<close>): every command against the tables, and
    what its answers promise. \<open>Wire_Clean\<close>: neither can put a line end into what is sent.
  \<^item> \<open>Epoll_Server\<close>, \<open>Session_Step\<close>, \<open>Server_Contract\<close> (\<open>server/epoll_server\<close>, \<open>reactor/event_loop\<close>): the
    handlers, what one handler may change, and the invariant of the event loop thread.
    \<open>Chat_System\<close>: server and database as one step relation; \<open>Server_Properties\<close>: what holds in every
    reachable state, and three ways in which input or answers go astray.
  \<^item> \<open>Chat_Client\<close>: both threads of the client. \<open>End_To_End\<close>: from the keyboard to the task
    queue, and from the server's answers to the screen.
  \<^item> \<open>Net_Setup\<close> (\<open>net/addr\<close>, \<open>server/epoll_listener\<close>, \<open>server/epoll_acceptor\<close>), \<open>Path_Util\<close>,
    \<open>Config_Loader\<close>, \<open>Startup\<close> (the \<open>create\<close> functions and both \<open>main\<close>): from the files to the running
    program, without a leaked descriptor. \<open>Run_Threads\<close>: the threads of both \<open>run\<close> functions with their
    stop flags, condition variables and wakeups; how they stop, and how the client can fail to.

  Correspondence. A class is a record, a variant a datatype, \<open>std::expected\<close> a sum with the error on
  the left, a member function a function from the old to the new state under the name of the
  source; reading a map or container gives its iteration order. A result of type \<open>option\<close> is \<open>None\<close>
  where the C++ behaviour is undefined (a reference into an erased session) or a loop does not
  return. Loops with a measure are recursive functions; loops that only the environment ends
  (\<open>accept4\<close>, \<open>read\<close> on an event counter, \<open>SSL_read_ex\<close>) are partial functions, and the theorems
  that they return rest on the named progress hypotheses; no fuel is used.

  Parameters. The kernel (\<open>env\<close>, \<open>net\<close>), OpenSSL (\<open>openssl\<close>, \<open>tls_lib\<close>), the file system, the
  database connection with its faults, clocks, identity values and collation (\<open>db_env\<close>) are records of
  functions. What is relied on is named and stated per call: \<open>epoll_contract\<close> (the interest list),
  \<open>eventfd_progress\<close>, \<open>getpeername_progress\<close>, \<open>transfer_ok\<close> and \<open>peer_contract\<close> (OpenSSL moves the bytes it
  reports and keeps its verification result), \<open>tls_lib_contract\<close> (setters set), \<open>fd_contract\<close> (new descriptors
  are new), \<open>accept_contract\<close>, \<open>db_env_ok\<close>. Each is shown satisfiable by a concrete instance that the
  witnesses use.

  Concurrency. Critical sections are atomic: an enqueue, a wait that takes a task, the swap of the
  registry's queue. In \<open>Chat_System\<close> the steps of the acceptor, the event loop and the database worker
  interleave in any order; one step is the hand-over of a descriptor, a turn of \<open>work\<close>, the handling of
  one event, the execution of a task against the database, or the posting of one of its requests.
  Only the event loop touches sessions, and only the single worker the database, as in the code;
  everything else passes through the queues. \<open>Work_Queue\<close> covers pools of any number of workers.
  \<open>Run_Threads\<close> is finer where it matters: testing a condition and falling asleep are two steps, and so
  are setting a flag and notifying. There a turn of an event loop is one step, and what the turn does
  is the subject of \<open>Server_Contract\<close> and \<open>Chat_Client\<close>.

  Not modelled: failures to create a thread, signal dispositions, the text of log lines at the call sites, freeing OpenSSL objects, allocation failure,
  and the scripts. Sizes are unbounded naturals, except where the code stores them in fixed width.
\<close>

end
